(* ===== verification/Prelude.thy ===== *)
theory Prelude
  imports Complex_Main "HOL-Library.AList" "HOL-Library.Multiset"
begin

text \<open>
  The vocabulary every component shares: the ways a Go call can end, Go errors, the
  values a Go \<open>interface{}\<close> holds after decoding JSON or YAML, Go maps, and the generic
  lemmas about them.

  \<^item> A call that may panic has a result in \<open>outcome\<close>: \<open>Ret\<close> for a normal return,
    \<open>Panic\<close> for an abrupt end.  An \<open>error\<close> that is returned as a value is no panic: it is an
    \<open>err option\<close>, or the left side of \<open>err + 'a\<close> where the code returns either.
  \<^item> A Go map is an association list with distinct keys.  The position of the keys is the
    order a \<open>range\<close> loop visits them in; Go leaves that order open, so a property that
    depends on it must not be stated without naming it.
  \<^item> Byte slices and strings are both \<open>string\<close> (lists of 8-bit characters), which is what
    Go's strings are.
\<close>

section \<open>Outcomes and errors\<close>

datatype 'a outcome = Ret 'a | Panic string

datatype err =
    ErrNotFound
  | ErrClosed
  | ErrSubscriptionExists
  | ErrText string

fun bind_o :: "'a outcome \<Rightarrow> ('a \<Rightarrow> 'b outcome) \<Rightarrow> 'b outcome" where
  "bind_o (Ret x) f = f x"
| "bind_o (Panic p) f = Panic p"

fun returns :: "'a outcome \<Rightarrow> bool" where
  "returns (Ret _) = True"
| "returns (Panic _) = False"

lemma returnsE: "returns x \<Longrightarrow> (\<And>y. x = Ret y \<Longrightarrow> P) \<Longrightarrow> P"
  by (cases x) auto

lemma bind_o_Ret_iff: "bind_o x f = Ret z \<longleftrightarrow> (\<exists>y. x = Ret y \<and> f y = Ret z)"
  by (cases x) auto

lemma bind_o_assoc: "bind_o (bind_o x f) g = bind_o x (\<lambda>y. bind_o (f y) g)"
  by (cases x) auto

section \<open>Dynamic values\<close>

text \<open>
  The values of a Go \<open>interface{}\<close> the program handles.  JSON numbers decode to \<open>float64\<close>,
  YAML integers to \<open>int\<close>; the two are different dynamic types.  A finite \<open>float64\<close> is a
  rational; Go's \<open>==\<close> identifies the two zeros, as rationals do.
\<close>

datatype float64 = NaN | Inf bool | Fin rat

datatype any =
    GNil
  | GBool bool
  | GInt int
  | GFloat float64
  | GStr string
  | GMap "(string \<times> any) list"
  | GSlice "any list"
  | GStrMap "(string \<times> string) list"
  | GStrSlice "string list"

fun float_eq :: "float64 \<Rightarrow> float64 \<Rightarrow> bool" where
  "float_eq NaN y = False"
| "float_eq x y = (x = y)"

text \<open>
  Go's \<open>==\<close> on two interface values: unequal when the dynamic types differ, the types' own
  comparison when they agree, and a run-time panic when the common type is a map or a slice.
\<close>

definition uncomparable :: "'a outcome" where
  "uncomparable = Panic ''comparing uncomparable type''"

fun any_eq :: "any \<Rightarrow> any \<Rightarrow> bool outcome" where
  "any_eq GNil w = Ret (w = GNil)"
| "any_eq (GBool a) w = Ret (w = GBool a)"
| "any_eq (GInt a) w = Ret (w = GInt a)"
| "any_eq (GFloat a) w = Ret (case w of GFloat b \<Rightarrow> float_eq a b | _ \<Rightarrow> False)"
| "any_eq (GStr a) w = Ret (w = GStr a)"
| "any_eq (GMap _) w = (case w of GMap _ \<Rightarrow> uncomparable | _ \<Rightarrow> Ret False)"
| "any_eq (GSlice _) w = (case w of GSlice _ \<Rightarrow> uncomparable | _ \<Rightarrow> Ret False)"
| "any_eq (GStrMap _) w = (case w of GStrMap _ \<Rightarrow> uncomparable | _ \<Rightarrow> Ret False)"
| "any_eq (GStrSlice _) w = (case w of GStrSlice _ \<Rightarrow> uncomparable | _ \<Rightarrow> Ret False)"

definition scalar :: "any \<Rightarrow> bool" where
  "scalar v = (case v of GMap _ \<Rightarrow> False | GSlice _ \<Rightarrow> False
     | GStrMap _ \<Rightarrow> False | GStrSlice _ \<Rightarrow> False | _ \<Rightarrow> True)"

lemma any_eq_scalar_returns: "scalar v \<Longrightarrow> returns (any_eq v w)"
  by (cases v) (auto simp: scalar_def)

section \<open>Go maps\<close>

type_synonym ('k, 'v) gomap = "('k \<times> 'v) list"

abbreviation gm_wf :: "('k, 'v) gomap \<Rightarrow> bool" where
  "gm_wf m \<equiv> distinct (map fst m)"

abbreviation gm_get :: "('k, 'v) gomap \<Rightarrow> 'k \<Rightarrow> 'v option" where
  "gm_get m \<equiv> map_of m"

abbreviation gm_put :: "'k \<Rightarrow> 'v \<Rightarrow> ('k, 'v) gomap \<Rightarrow> ('k, 'v) gomap" where
  "gm_put \<equiv> AList.update"

abbreviation gm_del :: "'k \<Rightarrow> ('k, 'v) gomap \<Rightarrow> ('k, 'v) gomap" where
  "gm_del \<equiv> AList.delete"

abbreviation gm_has :: "('k, 'v) gomap \<Rightarrow> 'k \<Rightarrow> bool" where
  "gm_has m k \<equiv> map_of m k \<noteq> None"

named_theorems gomap \<open>lookups, updates and deletions of Go maps\<close>

lemma gm_get_put [gomap, simp]: "gm_get (gm_put k v m) = (gm_get m)(k \<mapsto> v)"
  by (rule update_conv')

lemma gm_get_del [gomap, simp]: "gm_get (gm_del k m) = (gm_get m)(k := None)"
  by (rule delete_conv')

lemma gm_wf_put [gomap, simp]: "gm_wf m \<Longrightarrow> gm_wf (gm_put k v m)"
  by (rule distinct_update)

lemma gm_wf_del [gomap, simp]: "gm_wf m \<Longrightarrow> gm_wf (gm_del k m)"
  by (rule distinct_delete)

lemma gm_put_not_Nil [simp]: "gm_put k v m \<noteq> []"
  by (cases m) auto

lemma gm_empty_iff: "m = [] \<longleftrightarrow> (\<forall>k. gm_get m k = None)"
  by (cases m) (auto split: if_splits)

lemma gm_get_in: "gm_get m k = Some v \<Longrightarrow> (k, v) \<in> set m"
  by (rule map_of_SomeD)

lemma gm_in_get: "gm_wf m \<Longrightarrow> (k, v) \<in> set m \<longleftrightarrow> gm_get m k = Some v"
  by simp

section \<open>Lists\<close>

lemma list_all_perm: "mset xs = mset ys \<Longrightarrow> list_all P xs = list_all P ys"
  unfolding list_all_iff by (metis mset_eq_setD)

lemma find_append:
  "find P (xs @ ys) = (case find P xs of Some x \<Rightarrow> Some x | None \<Rightarrow> find P ys)"
  by (induction xs) auto

lemma find_filter_first:
  "find P xs = Some x \<Longrightarrow> \<exists>us vs. xs = us @ x # vs \<and> (\<forall>u\<in>set us. \<not> P u) \<and> P x"
proof (induction xs)
  case Nil
  then show ?case by simp
next
  case (Cons y ys)
  show ?case
  proof (cases "P y")
    case True
    with Cons.prems have "y # ys = [] @ x # ys" and "P x" by auto
    then show ?thesis by (metis empty_iff list.set(1))
  next
    case False
    with Cons obtain us vs where "ys = us @ x # vs" "\<forall>u\<in>set us. \<not> P u" "P x"
      by auto
    with False have "y # ys = (y # us) @ x # vs" and "\<forall>u\<in>set (y # us). \<not> P u"
      by auto
    with \<open>P x\<close> show ?thesis by blast
  qed
qed

end
