(* ===== verification/GoStd.thy ===== *)
theory GoStd
  imports Prelude
begin

text \<open>
  The parts of Go's standard library that the program's own logic rests on, at the points
  where it uses them: \<open>strconv.Itoa\<close> and \<open>strconv.Atoi\<close> (keys of positional rule
  parameters, request ids), \<open>strings.EqualFold\<close> (HTTP methods), \<open>strings.HasPrefix\<close>, and
  \<open>sort.Slice\<close>.  \<open>EqualFold\<close> is given for ASCII letters, which HTTP method names are made of.
\<close>

section \<open>strconv\<close>

definition digit_char :: "nat \<Rightarrow> char" where
  "digit_char d = char_of (48 + d)"

definition digit_val :: "char \<Rightarrow> nat option" where
  "digit_val c = (let n = of_char c :: nat in if 48 \<le> n \<and> n \<le> 57 then Some (n - 48) else None)"

lemma digit_val_char [simp]: "d < 10 \<Longrightarrow> digit_val (digit_char d) = Some d"
  by (simp add: digit_val_def digit_char_def)

fun nat_digits :: "nat \<Rightarrow> string" where
  "nat_digits n = (if n < 10 then [digit_char n]
     else nat_digits (n div 10) @ [digit_char (n mod 10)])"

declare nat_digits.simps [simp del]

fun digits_val :: "nat \<Rightarrow> string \<Rightarrow> nat option" where
  "digits_val acc [] = Some acc"
| "digits_val acc (c # cs) =
     (case digit_val c of None \<Rightarrow> None | Some d \<Rightarrow> digits_val (10 * acc + d) cs)"

lemma digits_val_append:
  "digits_val acc (xs @ ys) = Option.bind (digits_val acc xs) (\<lambda>a. digits_val a ys)"
  by (induction xs arbitrary: acc) (auto split: option.splits)

lemma digits_val_nat_digits: "digits_val 0 (nat_digits n) = Some n"
proof (induction n rule: nat_digits.induct)
  case (1 n)
  show ?case
  proof (cases "n < 10")
    case True
    then show ?thesis by (simp add: nat_digits.simps [of n])
  next
    case False
    with 1 have "digits_val 0 (nat_digits (n div 10)) = Some (n div 10)" by simp
    with False show ?thesis
      by (simp add: nat_digits.simps [of n] digits_val_append)
  qed
qed

lemma nat_digits_nonempty [simp]: "nat_digits n \<noteq> []"
  by (subst nat_digits.simps) simp

lemma nat_digits_are_digits: "c \<in> set (nat_digits n) \<Longrightarrow> digit_val c \<noteq> None"
proof (induction n rule: nat_digits.induct)
  case (1 n)
  then show ?case
    by (cases "n < 10") (auto simp: nat_digits.simps [of n])
qed

definition Itoa :: "int \<Rightarrow> string" where
  "Itoa i = (if i < 0 then CHR ''-'' # nat_digits (nat (- i)) else nat_digits (nat i))"

definition int64 :: "int \<Rightarrow> bool" where
  "int64 i \<longleftrightarrow> - (2 ^ 63) \<le> i \<and> i < 2 ^ 63"

definition unsigned_val :: "string \<Rightarrow> nat option" where
  "unsigned_val s = (if s = [] then None else digits_val 0 s)"

text \<open>\<open>strconv.Atoi\<close>: an optional sign and decimal digits, in the range of \<open>int\<close> (64 bits).\<close>

definition Atoi :: "string \<Rightarrow> int option" where
  "Atoi s =
     (let v = (case s of [] \<Rightarrow> None
        | c # cs \<Rightarrow>
            if c = CHR ''-'' then map_option (\<lambda>n. - int n) (unsigned_val cs)
            else if c = CHR ''+'' then map_option int (unsigned_val cs)
            else map_option int (unsigned_val s))
      in case v of None \<Rightarrow> None | Some i \<Rightarrow> if int64 i then Some i else None)"

lemma digit_val_sign [simp]: "digit_val (CHR ''-'') = None" "digit_val (CHR ''+'') = None"
  by (simp_all add: digit_val_def)

lemma nat_digits_Cons: "nat_digits n = c # cs \<Longrightarrow> digit_val c \<noteq> None"
  using nat_digits_are_digits [of c n] by simp

lemma Atoi_Itoa: "int64 i \<Longrightarrow> Atoi (Itoa i) = Some i"
proof (cases "i < 0")
  case True
  assume "int64 i"
  with True show ?thesis
    by (simp add: Atoi_def Itoa_def unsigned_val_def digits_val_nat_digits)
next
  case False
  assume i: "int64 i"
  obtain c cs where eq: "nat_digits (nat i) = c # cs"
    by (cases "nat_digits (nat i)") auto
  have sign: "c \<noteq> CHR ''-''" "c \<noteq> CHR ''+''"
    using nat_digits_Cons [OF eq] by auto
  have "unsigned_val (c # cs) = Some (nat i)"
    using eq digits_val_nat_digits [of "nat i"] by (simp add: unsigned_val_def)
  with False i eq sign show ?thesis
    by (simp add: Atoi_def Itoa_def)
qed

lemma nat_digits_inj: "nat_digits m = nat_digits n \<Longrightarrow> m = n"
  by (metis digits_val_nat_digits option.inject)

lemma nat_digits_not: "digit_val c = None \<Longrightarrow> c \<notin> set (nat_digits n)"
  using nat_digits_are_digits by blast

lemma Itoa_inj: "Itoa i = Itoa j \<Longrightarrow> i = j"
proof -
  assume eq: "Itoa i = Itoa j"
  have minus: "CHR ''-'' \<notin> set (nat_digits n)" for n
    by (rule nat_digits_not) simp
  show "i = j"
  proof (cases "i < 0"; cases "j < 0")
    assume "i < 0" "j < 0"
    then show ?thesis using eq nat_digits_inj by (fastforce simp: Itoa_def)
  next
    assume "i < 0" "\<not> j < 0"
    then show ?thesis using eq minus by (metis Itoa_def list.set_intros(1))
  next
    assume "\<not> i < 0" "j < 0"
    then show ?thesis using eq minus by (metis Itoa_def list.set_intros(1))
  next
    assume "\<not> i < 0" "\<not> j < 0"
    then show ?thesis using eq nat_digits_inj by (fastforce simp: Itoa_def)
  qed
qed

section \<open>strings\<close>

definition fold_char :: "char \<Rightarrow> char" where
  "fold_char c = (let n = of_char c :: nat in if 65 \<le> n \<and> n \<le> 90 then char_of (n + 32) else c)"

definition EqualFold :: "string \<Rightarrow> string \<Rightarrow> bool" where
  "EqualFold s t \<longleftrightarrow> map fold_char s = map fold_char t"

fun HasPrefix :: "string \<Rightarrow> string \<Rightarrow> bool" where
  "HasPrefix s [] = True"
| "HasPrefix [] (_ # _) = False"
| "HasPrefix (c # s) (p # ps) = (c = p \<and> HasPrefix s ps)"

lemma HasPrefix_iff: "HasPrefix s p \<longleftrightarrow> (\<exists>t. s = p @ t)"
  by (induction s p rule: HasPrefix.induct) auto

section \<open>sort.Slice\<close>

text \<open>
  \<open>sort.Slice\<close> permutes the slice so that no element is less than an earlier one.  What
  permutation it picks among equal elements depends only on the outcomes of \<open>less\<close>, so on
  the list of keys; it is unspecified (pattern-defeating quicksort, insertion sort for at
  most twelve elements).  The model takes the permutation as a function \<open>pdq\<close> of the keys,
  and the contract of \<open>sort.Slice\<close> is the locale below.
\<close>

definition sort_Slice :: "(int list \<Rightarrow> nat list) \<Rightarrow> ('a \<Rightarrow> int) \<Rightarrow> 'a list \<Rightarrow> 'a list" where
  "sort_Slice pdq key xs = map (nth xs) (pdq (map key xs))"

locale slice_sort =
  fixes pdq :: "int list \<Rightarrow> nat list"
  assumes pdq_perm: "mset (pdq ks) = mset [0..<length ks]"
    and pdq_sorted: "sorted (map (nth ks) (pdq ks))"
begin

lemma pdq_bound: "i \<in> set (pdq ks) \<Longrightarrow> i < length ks"
  using pdq_perm by (metis atLeastLessThan_iff mset_eq_setD set_upt)

lemma sort_Slice_mset: "mset (sort_Slice pdq key xs) = mset xs"
proof -
  have "mset (sort_Slice pdq key xs) = image_mset (nth xs) (mset [0..<length xs])"
    using pdq_perm [of "map key xs"] by (simp only: sort_Slice_def mset_map length_map)
  also have "\<dots> = mset (map (nth xs) [0..<length xs])"
    by (simp only: mset_map)
  finally show ?thesis by (simp only: map_nth)
qed

lemma sort_Slice_sorted: "sorted (map key (sort_Slice pdq key xs))"
proof -
  have "map key (sort_Slice pdq key xs) = map (nth (map key xs)) (pdq (map key xs))"
    unfolding sort_Slice_def
    by (auto simp: pdq_bound dest!: pdq_bound)
  then show ?thesis using pdq_sorted by simp
qed

end

text \<open>
  The instance Go runs on slices of at most twelve elements, insertion sort, over the
  positions: each position is inserted after the positions whose key is not larger.
\<close>

fun insert_pos :: "int list \<Rightarrow> nat \<Rightarrow> nat list \<Rightarrow> nat list" where
  "insert_pos ks i [] = [i]"
| "insert_pos ks i (j # js) = (if ks ! i < ks ! j then i # j # js else j # insert_pos ks i js)"

definition insertion_pdq :: "int list \<Rightarrow> nat list" where
  "insertion_pdq ks = fold (insert_pos ks) [0..<length ks] []"

lemma mset_insert_pos: "mset (insert_pos ks i js) = add_mset i (mset js)"
  by (induction js) auto

lemma set_insert_pos: "set (insert_pos ks i js) = insert i (set js)"
  using mset_insert_pos by (metis set_mset_add_mset_insert set_mset_mset)

lemma sorted_insert_pos:
  "sorted (map (nth ks) js) \<Longrightarrow> sorted (map (nth ks) (insert_pos ks i js))"
  by (induction js) (auto simp: set_insert_pos)

lemma fold_insert_pos_mset: "mset (fold (insert_pos ks) is js) = mset is + mset js"
  by (induction "is" arbitrary: js) (auto simp: mset_insert_pos)

lemma fold_insert_pos_sorted:
  "sorted (map (nth ks) js) \<Longrightarrow> sorted (map (nth ks) (fold (insert_pos ks) is js))"
  by (induction "is" arbitrary: js) (auto simp: sorted_insert_pos)

interpretation insertion: slice_sort insertion_pdq
  by unfold_locales
    (simp_all add: insertion_pdq_def fold_insert_pos_mset fold_insert_pos_sorted)

end
