(* ===== verification/RuleTypes.thy ===== *)
theory RuleTypes
  imports GoStd
begin

text \<open>
  The types rules and messages share: the action of a rule (\<open>rules.go\<close>, a string type with
  two constants; any other string is an unrecognised action) and a rule's cache settings
  (\<open>config.go\<close>).  Durations are nanoseconds.
\<close>

type_synonym RuleAction = string

definition RuleActionAllow :: RuleAction where
  "RuleActionAllow = ''allow''"

definition RuleActionDeny :: RuleAction where
  "RuleActionDeny = ''deny''"

lemma RuleAction_distinct [simp]:
  "RuleActionAllow \<noteq> RuleActionDeny" "RuleActionDeny \<noteq> RuleActionAllow"
  "RuleActionAllow \<noteq> []" "RuleActionDeny \<noteq> []"
  by (simp_all add: RuleActionAllow_def RuleActionDeny_def)

definition recognised :: "RuleAction \<Rightarrow> bool" where
  "recognised a \<longleftrightarrow> a = RuleActionAllow \<or> a = RuleActionDeny"

record RuleCache =
  rc_Enable :: bool
  rc_TTL :: int
  rc_CacheError :: bool
  rc_CacheEmptyResult :: bool

end
