(* ===== verification/Util.thy ===== *)
theory Util
  imports GoStd
begin

text \<open>
  \<open>src/pkg/util\<close>: the generator of unique request ids (\<open>id_gen.go\<close>), the case-insensitive
  membership test (\<open>slice.go\<close>) and the hashing of cache keys (\<open>hash.go\<close>).  The digest itself
  (\<open>crypto/sha256\<close>) is a parameter, a function on bytes; nothing below needs more of it.
\<close>

section \<open>UniqueID\<close>

text \<open>
  \<open>generated\<close> is the \<open>sync.Map\<close>: an id bound to true is outstanding, one bound to false was
  released.  The loop of \<open>ID\<close> draws from \<open>rand.Intn(math.MaxInt32)\<close>; the draws are a list,
  and \<open>None\<close> says the loop has not returned within them.
\<close>

type_synonym id_gen = "(string, bool) gomap"

definition UniqueID_empty :: id_gen where
  "UniqueID_empty = []"

definition outstanding :: "id_gen \<Rightarrow> string \<Rightarrow> bool" where
  "outstanding g i \<longleftrightarrow> gm_get g i = Some True"

fun UniqueID_ID :: "int list \<Rightarrow> id_gen \<Rightarrow> (string \<times> id_gen \<times> int list) option" where
  "UniqueID_ID [] g = None"
| "UniqueID_ID (r # rs) g =
     (let i = Itoa r in
      case gm_get g i of
        None \<Rightarrow> Some (i, gm_put i True g, rs)
      | Some v \<Rightarrow> if \<not> v then Some (i, gm_put i True g, rs) else UniqueID_ID rs g)"

definition UniqueID_Release :: "string \<Rightarrow> id_gen \<Rightarrow> id_gen" where
  "UniqueID_Release i g = gm_put i False g"

text \<open>The range of \<open>rand.Intn(math.MaxInt32)\<close>.\<close>

definition draw_ok :: "int \<Rightarrow> bool" where
  "draw_ok r \<longleftrightarrow> 0 \<le> r \<and> r < 2 ^ 31 - 1"

subsection \<open>What a client of the generator may rely on\<close>

locale id_source =
  fixes take_id :: "'d \<Rightarrow> 'g \<Rightarrow> (string \<times> 'g \<times> 'd) option"
    and release_id :: "string \<Rightarrow> 'g \<Rightarrow> 'g"
    and live :: "'g \<Rightarrow> string \<Rightarrow> bool"
  assumes take_fresh: "take_id d g = Some (i, g', d') \<Longrightarrow> \<not> live g i"
    and take_live: "take_id d g = Some (i, g', d') \<Longrightarrow> live g' = (live g)(i := True)"
    and release_live: "live (release_id i g) = (live g)(i := False)"
begin

fun take_many :: "nat \<Rightarrow> 'd \<Rightarrow> 'g \<Rightarrow> (string list \<times> 'g \<times> 'd) option" where
  "take_many 0 d g = Some ([], g, d)"
| "take_many (Suc n) d g =
     (case take_id d g of None \<Rightarrow> None
      | Some (i, g', d') \<Rightarrow>
          (case take_many n d' g' of None \<Rightarrow> None
           | Some (is, g'', d'') \<Rightarrow> Some (i # is, g'', d'')))"

lemma take_many_fresh:
  "take_many n d g = Some (is, g', d') \<Longrightarrow> distinct is \<and> (\<forall>i\<in>set is. \<not> live g i)
     \<and> (\<forall>i. live g' i \<longleftrightarrow> live g i \<or> i \<in> set is)"
proof (induction n arbitrary: d g "is" g' d')
  case 0
  then show ?case by simp
next
  case (Suc n)
  from Suc.prems obtain i g1 d1 is1 where
    take: "take_id d g = Some (i, g1, d1)" and
    more: "take_many n d1 g1 = Some (is1, g', d')" and is_eq: "is = i # is1"
    by (auto split: option.splits prod.splits)
  have ih: "distinct is1" "\<And>j. j \<in> set is1 \<Longrightarrow> \<not> live g1 j"
    "\<And>j. live g' j \<longleftrightarrow> live g1 j \<or> j \<in> set is1"
    using Suc.IH [OF more] by auto
  have g1: "live g1 j \<longleftrightarrow> j = i \<or> live g j" for j
    using take_live [OF take] by (simp add: fun_upd_def)
  show ?case
    using ih(1,2) take_fresh [OF take] by (auto simp: is_eq ih(3) g1)
qed

lemma take_release: "take_id d g = Some (i, g', d') \<Longrightarrow> live (release_id i g') = live g"
  using take_fresh take_live release_live by (auto simp: fun_eq_iff)

end

lemma UniqueID_ID_spec:
  "UniqueID_ID rs g = Some (i, g', rs') \<Longrightarrow>
     \<not> outstanding g i \<and> g' = gm_put i True g \<and> (\<exists>r\<in>set rs. i = Itoa r)"
  by (induction rs g rule: UniqueID_ID.induct)
    (auto simp: outstanding_def Let_def split: option.splits if_splits)

interpretation unique: id_source UniqueID_ID UniqueID_Release outstanding
proof unfold_locales
  fix d g i g' d'
  assume a: "UniqueID_ID d g = Some (i, g', d')"
  show "\<not> outstanding g i"
    using UniqueID_ID_spec [OF a] by blast
  show "outstanding g' = (outstanding g)(i := True)"
    using UniqueID_ID_spec [OF a] by (auto simp: outstanding_def fun_eq_iff)
next
  fix i :: string and g
  show "outstanding (UniqueID_Release i g) = (outstanding g)(i := False)"
    by (auto simp: outstanding_def UniqueID_Release_def fun_eq_iff)
qed

lemma UniqueID_ID_returns:
  "(\<exists>r\<in>set rs. \<not> outstanding g (Itoa r)) \<longleftrightarrow> UniqueID_ID rs g \<noteq> None"
  by (induction rs g rule: UniqueID_ID.induct)
    (auto simp: outstanding_def Let_def split: option.splits)

lemma outstanding_bound: "{i. outstanding g i} \<subseteq> fst ` set g"
  unfolding outstanding_def by (auto simp: image_iff dest!: gm_get_in) force

lemma free_draw_exists:
  assumes "card {i. outstanding g i} < 2 ^ 31 - 1"
  shows "\<exists>r. draw_ok r \<and> \<not> outstanding g (Itoa r)"
proof (rule ccontr)
  assume "\<not> ?thesis"
  then have sub: "Itoa ` {0..<2 ^ 31 - 1} \<subseteq> {i. outstanding g i}"
    by (auto simp: draw_ok_def)
  have "inj_on Itoa {0..<2 ^ 31 - 1 :: int}"
    by (auto simp: inj_on_def dest: Itoa_inj)
  then have "card (Itoa ` {0..<2 ^ 31 - 1 :: int}) = 2 ^ 31 - 1"
    by (subst card_image) auto
  moreover have "finite {i. outstanding g i}"
    by (rule finite_subset [OF outstanding_bound]) simp
  ultimately have "2 ^ 31 - 1 \<le> card {i. outstanding g i}"
    using card_mono [OF _ sub] by simp
  with assms show False by simp
qed

subsection \<open>Two goroutines in \<open>ID\<close>\<close>

text \<open>
  \<open>Load\<close> and \<open>Store\<close> of the \<open>sync.Map\<close> are each atomic; the pair is not.  A goroutine in
  \<open>ID\<close> is about to draw, has loaded an id it found free, or has returned with an id.
\<close>

datatype id_pc = Drawing | Checked string | Holds string

record id_sys =
  id_map :: id_gen
  id_pcs :: "nat \<Rightarrow> id_pc"

inductive id_step :: "id_sys \<Rightarrow> id_sys \<Rightarrow> bool" where
  load_free: "id_pcs s t = Drawing \<Longrightarrow> draw_ok r \<Longrightarrow> \<not> outstanding (id_map s) (Itoa r) \<Longrightarrow>
     id_step s (s\<lparr>id_pcs := (id_pcs s)(t := Checked (Itoa r))\<rparr>)"
| store: "id_pcs s t = Checked i \<Longrightarrow>
     id_step s (s\<lparr>id_map := gm_put i True (id_map s), id_pcs := (id_pcs s)(t := Holds i)\<rparr>)"
| release: "id_pcs s t = Holds i \<Longrightarrow>
     id_step s (s\<lparr>id_map := UniqueID_Release i (id_map s), id_pcs := (id_pcs s)(t := Drawing)\<rparr>)"

inductive id_reach :: "id_sys \<Rightarrow> bool" where
  init: "id_reach \<lparr>id_map = UniqueID_empty, id_pcs = (\<lambda>_. Drawing)\<rparr>"
| step: "id_reach s \<Longrightarrow> id_step s s' \<Longrightarrow> id_reach s'"

inductive_cases id_stepE: "id_step s s'"

lemma id_reach_twice:
  "id_reach \<lparr>id_map = gm_put ''7'' True (gm_put ''7'' True []),
     id_pcs = ((((\<lambda>_. Drawing)(0 := Checked ''7''))(1 := Checked ''7''))(0 := Holds ''7''))
       (1 := Holds ''7'')\<rparr>"
proof -
  let ?s0 = "\<lparr>id_map = UniqueID_empty, id_pcs = (\<lambda>_. Drawing)\<rparr> :: id_sys"
  have seven: "Itoa 7 = ''7''"
    by code_simp
  have "id_reach ?s0" by (rule init)
  note s1 = step [OF this load_free [of ?s0 0 7]]
  note s2 = step [OF s1 load_free [of "?s0\<lparr>id_pcs := (id_pcs ?s0)(0 := Checked (Itoa 7))\<rparr>" 1 7]]
  note s3 = step [OF s2 store [where t = 0 and i = "Itoa 7"]]
  note s4 = step [OF s3 store [where t = 1 and i = "Itoa 7"]]
  show ?thesis using s4
    by (simp add: draw_ok_def outstanding_def UniqueID_empty_def seven)
qed

section \<open>Slices and hashes\<close>

fun SliceContainsStringIgnoreCase :: "string list \<Rightarrow> string \<Rightarrow> bool" where
  "SliceContainsStringIgnoreCase [] key = False"
| "SliceContainsStringIgnoreCase (k # l) key =
     (if EqualFold k key then True else SliceContainsStringIgnoreCase l key)"

lemma SliceContainsStringIgnoreCase_iff:
  "SliceContainsStringIgnoreCase l key \<longleftrightarrow> (\<exists>k\<in>set l. EqualFold k key)"
  by (induction l) auto

definition hex_digit :: "nat \<Rightarrow> char" where
  "hex_digit n = (if n < 10 then char_of (48 + n) else char_of (87 + n))"

definition hex_EncodeToString :: "string \<Rightarrow> string" where
  "hex_EncodeToString b =
     concat (map (\<lambda>c. [hex_digit (of_char c div 16), hex_digit (of_char c mod 16)]) b)"

definition Sha256 :: "(string \<Rightarrow> string) \<Rightarrow> string \<Rightarrow> string" where
  "Sha256 digest content = hex_EncodeToString (digest content)"

lemma of_char_hex_digit:
  "n < 16 \<Longrightarrow> of_char (hex_digit n) = (if n < 10 then 48 + n else 87 + n)"
  by (simp add: hex_digit_def)

lemma hex_digit_no_colon: "n < 16 \<Longrightarrow> hex_digit n \<noteq> CHR '':''"
proof
  assume "n < 16" and "hex_digit n = CHR '':''"
  then have "(if n < 10 then 48 + n else 87 + n) = of_char (CHR '':'')"
    using of_char_hex_digit by metis
  then show False by (simp split: if_splits)
qed

lemma Sha256_no_colon: "CHR '':'' \<notin> set (Sha256 digest content)"
proof -
  have hi: "hex_digit (of_char c div 16) \<noteq> CHR '':''" for c :: char
    by (rule hex_digit_no_colon) (simp add: div_less_iff_less_mult)
  have lo: "hex_digit (of_char c mod 16) \<noteq> CHR '':''" for c :: char
    by (rule hex_digit_no_colon) simp
  show ?thesis
    using hi lo by (fastforce simp: Sha256_def hex_EncodeToString_def)
qed

end
