(* ===== verification/Cache.thy ===== *)
theory Cache
  imports Util "HOL-Library.Word"
begin

text \<open>
  \<open>src/pkg/cache\<close>: the \<open>Cache\<close> interface, and its two implementations, \<open>MemoryCache\<close> over
  the library \<open>ttlcache\<close> and \<open>RedisCache\<close> over the client library \<open>go-redis\<close> and the codec
  \<open>msgpack\<close>.  The three libraries are records of functions, arguments of the definitions.

  The state of a cache includes the clock and whatever else decides which entries are still
  there, so every call returns the next state: an entry may expire between any two calls.
\<close>

section \<open>The interface\<close>

record ('c, 'k, 'v) cache_api =
  c_set :: "'k \<Rightarrow> 'v \<Rightarrow> int \<Rightarrow> 'c \<Rightarrow> err option \<times> 'c"
  c_get :: "'k \<Rightarrow> 'c \<Rightarrow> (err + 'v) \<times> 'c"
  c_has :: "'k \<Rightarrow> 'c \<Rightarrow> (bool \<times> err option) \<times> 'c"

text \<open>
  What the handlers rely on: \<open>Get\<close> returns an entry that is live under that key, and a call
  adds no live entry, except the one that \<open>Set\<close> stores and those that other writers of a
  shared store add (\<open>foreign\<close>; none for the memory cache).  Nothing says that an entry stays.
\<close>

locale cache_contract =
  fixes api :: "('c, 'k, 'v) cache_api"
    and live :: "'c \<Rightarrow> 'k \<Rightarrow> 'v option"
    and foreign :: "'k \<Rightarrow> 'v \<Rightarrow> bool"
  assumes set_live: "c_set api k v ttl c = (e, c') \<Longrightarrow> live c' k' = Some w \<Longrightarrow>
      live c k' = Some w \<or> k' = k \<and> w = v \<or> foreign k' w"
    and get_live: "c_get api k c = (r, c') \<Longrightarrow> live c' k' = Some w \<Longrightarrow>
      live c k' = Some w \<or> foreign k' w"
    and has_live: "c_has api k c = (b, c') \<Longrightarrow> live c' k' = Some w \<Longrightarrow>
      live c k' = Some w \<or> foreign k' w"
    and get_value: "c_get api k c = (Inr v, c') \<Longrightarrow> live c k = Some v"
begin

definition holds_all :: "('k \<Rightarrow> 'v \<Rightarrow> bool) \<Rightarrow> 'c \<Rightarrow> bool" where
  "holds_all P c \<longleftrightarrow> (\<forall>k v. live c k = Some v \<longrightarrow> P k v) \<and> (\<forall>k v. foreign k v \<longrightarrow> P k v)"

lemma holds_all_get: "holds_all P c \<Longrightarrow> c_get api k c = (r, c') \<Longrightarrow> holds_all P c'"
  unfolding holds_all_def using get_live by blast

lemma holds_all_has: "holds_all P c \<Longrightarrow> c_has api k c = (b, c') \<Longrightarrow> holds_all P c'"
  unfolding holds_all_def using has_live by blast

lemma holds_all_set: "holds_all P c \<Longrightarrow> P k v \<Longrightarrow> c_set api k v ttl c = (e, c') \<Longrightarrow> holds_all P c'"
  unfolding holds_all_def using set_live by blast

lemma holds_all_value: "holds_all P c \<Longrightarrow> c_get api k c = (Inr v, c') \<Longrightarrow> P k v"
  unfolding holds_all_def using get_value by blast

end

section \<open>Options\<close>

record Options =
  opt_TTL :: int

definition defaultCacheTTL :: int where
  "defaultCacheTTL = 5 * 1000000000"

definition defaultOptions :: Options where
  "defaultOptions = \<lparr>opt_TTL = defaultCacheTTL\<rparr>"

definition DefaultTTL :: "int \<Rightarrow> Options \<Rightarrow> Options" where
  "DefaultTTL ttl o' = o'\<lparr>opt_TTL := ttl\<rparr>"

section \<open>MemoryCache\<close>

record ('s, 'k, 'v) ttlcache =
  t_new :: "bool \<Rightarrow> int \<Rightarrow> 's"
  t_set :: "'k \<Rightarrow> 'v \<Rightarrow> int \<Rightarrow> 's \<Rightarrow> 's"
  t_get :: "'k \<Rightarrow> 's \<Rightarrow> 'v option \<times> 's"
  t_has :: "'k \<Rightarrow> 's \<Rightarrow> bool \<times> 's"

record 'k namespacedKey =
  nk_Namespace :: string
  nk_Key :: 'k

definition namespacedKey_String :: "('k \<Rightarrow> string) \<Rightarrow> 'k namespacedKey \<Rightarrow> string" where
  "namespacedKey_String fmt k = ''['' @ nk_Namespace k @ '']'' @ fmt (nk_Key k)"

record 's MemoryCache =
  mc_Namespace :: string
  mc_cache :: 's

definition NewMemoryCache ::
  "('s, 'k namespacedKey, 'v) ttlcache \<Rightarrow> string \<Rightarrow> (Options \<Rightarrow> Options) list \<Rightarrow> 's MemoryCache" where
  "NewMemoryCache t namespace opts =
     (let options = fold (\<lambda>opt o'. opt o') opts defaultOptions
      in \<lparr>mc_Namespace = namespace, mc_cache = t_new t True (opt_TTL options)\<rparr>)"

definition MemoryCache_key :: "'s MemoryCache \<Rightarrow> 'k \<Rightarrow> 'k namespacedKey" where
  "MemoryCache_key c key = \<lparr>nk_Namespace = mc_Namespace c, nk_Key = key\<rparr>"

definition MemoryCache_Set ::
  "('s, 'k namespacedKey, 'v) ttlcache \<Rightarrow> 'k \<Rightarrow> 'v \<Rightarrow> int \<Rightarrow> 's MemoryCache \<Rightarrow> err option \<times> 's MemoryCache" where
  "MemoryCache_Set t key val ttl c =
     (None, c\<lparr>mc_cache := t_set t (MemoryCache_key c key) val ttl (mc_cache c)\<rparr>)"

definition MemoryCache_Get ::
  "('s, 'k namespacedKey, 'v) ttlcache \<Rightarrow> 'k \<Rightarrow> 's MemoryCache \<Rightarrow> (err + 'v) \<times> 's MemoryCache" where
  "MemoryCache_Get t key c =
     (case t_get t (MemoryCache_key c key) (mc_cache c) of
        (Some item, s) \<Rightarrow> (Inr item, c\<lparr>mc_cache := s\<rparr>)
      | (None, s) \<Rightarrow> (Inl ErrNotFound, c\<lparr>mc_cache := s\<rparr>))"

definition MemoryCache_Has ::
  "('s, 'k namespacedKey, 'v) ttlcache \<Rightarrow> 'k \<Rightarrow> 's MemoryCache \<Rightarrow> (bool \<times> err option) \<times> 's MemoryCache" where
  "MemoryCache_Has t key c =
     (case t_has t (MemoryCache_key c key) (mc_cache c) of
        (b, s) \<Rightarrow> ((b, None), c\<lparr>mc_cache := s\<rparr>))"

definition MemoryCache_api ::
  "('s, 'k namespacedKey, 'v) ttlcache \<Rightarrow> ('s MemoryCache, 'k, 'v) cache_api" where
  "MemoryCache_api t =
     \<lparr>c_set = MemoryCache_Set t, c_get = MemoryCache_Get t, c_has = MemoryCache_Has t\<rparr>"

lemmas MemoryCache_defs =
  MemoryCache_api_def MemoryCache_Set_def MemoryCache_Get_def MemoryCache_Has_def MemoryCache_key_def

text \<open>The documented behaviour of \<open>ttlcache\<close> that the cache relies on.\<close>

locale ttl_store =
  fixes t :: "('s, 'k, 'v) ttlcache"
    and t_live :: "'s \<Rightarrow> 'k \<Rightarrow> 'v option"
  assumes t_set_live: "t_live (t_set t k v ttl s) k' = Some w \<Longrightarrow>
      t_live s k' = Some w \<or> k' = k \<and> w = v"
    and t_get_live: "t_get t k s = (r, s') \<Longrightarrow> t_live s' k' = Some w \<Longrightarrow> t_live s k' = Some w"
    and t_has_live: "t_has t k s = (b, s') \<Longrightarrow> t_live s' k' = Some w \<Longrightarrow> t_live s k' = Some w"
    and t_get_value: "t_get t k s = (Some v, s') \<Longrightarrow> t_live s k = Some v"

definition MemoryCache_live ::
  "('s \<Rightarrow> 'k namespacedKey \<Rightarrow> 'v option) \<Rightarrow> 's MemoryCache \<Rightarrow> 'k \<Rightarrow> 'v option" where
  "MemoryCache_live tlive c k = tlive (mc_cache c) (MemoryCache_key c k)"

locale memory_backend = ttl_store t t_live
  for t :: "('s, 'k namespacedKey, 'v) ttlcache" and t_live

sublocale memory_backend \<subseteq> mem: cache_contract
  "MemoryCache_api t" "MemoryCache_live t_live" "\<lambda>_ _. False"
proof unfold_locales
  fix k k' v w ttl c e c'
  assume "c_set (MemoryCache_api t) k v ttl c = (e, c')" "MemoryCache_live t_live c' k' = Some w"
  then show "MemoryCache_live t_live c k' = Some w \<or> k' = k \<and> w = v \<or> False"
    by (auto simp: MemoryCache_defs MemoryCache_live_def dest!: t_set_live)
next
  fix k k' w c r c'
  assume "c_get (MemoryCache_api t) k c = (r, c')" "MemoryCache_live t_live c' k' = Some w"
  then show "MemoryCache_live t_live c k' = Some w \<or> False"
    by (auto simp: MemoryCache_defs MemoryCache_live_def dest: t_get_live
        split: prod.splits option.splits)
next
  fix k k' w c b c'
  assume "c_has (MemoryCache_api t) k c = (b, c')" "MemoryCache_live t_live c' k' = Some w"
  then show "MemoryCache_live t_live c k' = Some w \<or> False"
    by (auto simp: MemoryCache_defs MemoryCache_live_def dest: t_has_live split: prod.splits)
next
  fix k v c c'
  assume "c_get (MemoryCache_api t) k c = (Inr v, c')"
  then show "MemoryCache_live t_live c k = Some v"
    by (auto simp: MemoryCache_defs MemoryCache_live_def dest: t_get_value
        split: prod.splits option.splits)
qed

section \<open>RedisCache\<close>

datatype redis_err = RedisNil | RedisErr err

record RedisSentinel =
  rs_MasterName :: string
  rs_Addrs :: "string list"

record ('s, 'o) redis =
  r_failover :: "string \<Rightarrow> string list \<Rightarrow> 's"
  r_ParseURL :: "string \<Rightarrow> err + 'o"
  r_NewClient :: "'o \<Rightarrow> 's"
  r_set :: "string \<Rightarrow> string \<Rightarrow> int \<Rightarrow> 's \<Rightarrow> err option \<times> 's"
  r_get :: "string \<Rightarrow> 's \<Rightarrow> (redis_err + string) \<times> 's"
  r_exists :: "string \<Rightarrow> 's \<Rightarrow> (int \<times> err option) \<times> 's"

record 'v msgpack =
  mp_Marshal :: "'v \<Rightarrow> err + string"
  mp_Unmarshal :: "string \<Rightarrow> err + 'v"

definition EncodeValue :: "'v msgpack \<Rightarrow> 'v \<Rightarrow> err + string" where
  "EncodeValue mp v = mp_Marshal mp v"

definition DecodeValue :: "'v msgpack \<Rightarrow> string \<Rightarrow> err + 'v" where
  "DecodeValue mp data = mp_Unmarshal mp data"

record 's RedisCache =
  rc_client :: 's
  rc_cfg :: Options
  rc_namespace :: string

definition NewRedisCache ::
  "('s, 'o) redis \<Rightarrow> string option \<Rightarrow> RedisSentinel option \<Rightarrow> string \<Rightarrow> (Options \<Rightarrow> Options) list
     \<Rightarrow> err + 's RedisCache" where
  "NewRedisCache r connectionString sentinel namespace opts =
     (let options = fold (\<lambda>opt o'. opt o') opts defaultOptions;
          mk = (\<lambda>client. \<lparr>rc_client = client, rc_cfg = options, rc_namespace = namespace\<rparr>);
          by_url = (case connectionString of
              Some url \<Rightarrow> (case r_ParseURL r url of
                  Inl e \<Rightarrow> Inl e
                | Inr opt \<Rightarrow> Inr (mk (r_NewClient r opt)))
            | None \<Rightarrow> Inl (ErrText ''either connectionString or sentinel configuration must be provided''))
      in case sentinel of
           Some s \<Rightarrow>
             if rs_MasterName s \<noteq> [] \<and> rs_Addrs s \<noteq> []
             then Inr (mk (r_failover r (rs_MasterName s) (rs_Addrs s)))
             else by_url
         | None \<Rightarrow> by_url)"

definition RedisCache_getKey :: "('k \<Rightarrow> string) \<Rightarrow> 's RedisCache \<Rightarrow> 'k \<Rightarrow> string" where
  "RedisCache_getKey fmt c key = rc_namespace c @ '':'' @ fmt key"

definition RedisCache_Set ::
  "('s, 'o) redis \<Rightarrow> 'v msgpack \<Rightarrow> ('k \<Rightarrow> string) \<Rightarrow> 'k \<Rightarrow> 'v \<Rightarrow> int \<Rightarrow> 's RedisCache
     \<Rightarrow> err option \<times> 's RedisCache" where
  "RedisCache_Set r mp fmt key val ttl c =
     (let itemTTL = (if ttl = 0 then opt_TTL (rc_cfg c) else ttl)
      in case EncodeValue mp val of
           Inl e \<Rightarrow> (Some e, c)
         | Inr v \<Rightarrow> (case r_set r (RedisCache_getKey fmt c key) v itemTTL (rc_client c) of
               (e, s) \<Rightarrow> (e, c\<lparr>rc_client := s\<rparr>)))"

definition RedisCache_Get ::
  "('s, 'o) redis \<Rightarrow> 'v msgpack \<Rightarrow> ('k \<Rightarrow> string) \<Rightarrow> 'k \<Rightarrow> 's RedisCache
     \<Rightarrow> (err + 'v) \<times> 's RedisCache" where
  "RedisCache_Get r mp fmt key c =
     (case r_get r (RedisCache_getKey fmt c key) (rc_client c) of
        (Inl RedisNil, s) \<Rightarrow> (Inl ErrNotFound, c\<lparr>rc_client := s\<rparr>)
      | (Inl (RedisErr e), s) \<Rightarrow> (Inl e, c\<lparr>rc_client := s\<rparr>)
      | (Inr v, s) \<Rightarrow> (DecodeValue mp v, c\<lparr>rc_client := s\<rparr>))"

definition RedisCache_Has ::
  "('s, 'o) redis \<Rightarrow> ('k \<Rightarrow> string) \<Rightarrow> 'k \<Rightarrow> 's RedisCache \<Rightarrow> (bool \<times> err option) \<times> 's RedisCache" where
  "RedisCache_Has r fmt key c =
     (case r_exists r (RedisCache_getKey fmt c key) (rc_client c) of
        ((n, e), s) \<Rightarrow> ((n > 0, e), c\<lparr>rc_client := s\<rparr>))"

definition RedisCache_api ::
  "('s, 'o) redis \<Rightarrow> 'v msgpack \<Rightarrow> ('k \<Rightarrow> string) \<Rightarrow> ('s RedisCache, 'k, 'v) cache_api" where
  "RedisCache_api r mp fmt =
     \<lparr>c_set = RedisCache_Set r mp fmt, c_get = RedisCache_Get r mp fmt, c_has = RedisCache_Has r fmt\<rparr>"

lemmas RedisCache_defs =
  RedisCache_api_def RedisCache_Set_def RedisCache_Get_def RedisCache_Has_def
  EncodeValue_def DecodeValue_def

text \<open>
  The behaviour of the Redis server and of the codec the cache relies on.  Other instances
  share the server; \<open>others\<close> says what they may store between two calls.
\<close>

locale redis_store =
  fixes r :: "('s, 'o) redis"
    and mp :: "'v msgpack"
    and fmt :: "'k \<Rightarrow> string"
    and r_live :: "'s \<Rightarrow> string \<Rightarrow> string option"
    and others :: "string \<Rightarrow> string \<Rightarrow> bool"
  assumes r_set_live: "r_set r k v ttl s = (e, s') \<Longrightarrow> r_live s' k' = Some w \<Longrightarrow>
      r_live s k' = Some w \<or> k' = k \<and> w = v \<or> others k' w"
    and r_get_live: "r_get r k s = (x, s') \<Longrightarrow> r_live s' k' = Some w \<Longrightarrow>
      r_live s k' = Some w \<or> others k' w"
    and r_exists_live: "r_exists r k s = (y, s') \<Longrightarrow> r_live s' k' = Some w \<Longrightarrow>
      r_live s k' = Some w \<or> others k' w"
    and r_get_value: "r_get r k s = (Inr w, s') \<Longrightarrow> r_live s k = Some w"
    and decode_encode: "mp_Marshal mp val = Inr enc \<Longrightarrow> mp_Unmarshal mp enc = Inr val"
    and fmt_inj: "fmt key1 = fmt key2 \<Longrightarrow> key1 = key2"

definition RedisCache_live ::
  "'v msgpack \<Rightarrow> ('k \<Rightarrow> string) \<Rightarrow> ('s \<Rightarrow> string \<Rightarrow> string option) \<Rightarrow> 's RedisCache \<Rightarrow> 'k \<Rightarrow> 'v option" where
  "RedisCache_live mp fmt rlive c k =
     (case rlive (rc_client c) (RedisCache_getKey fmt c k) of
        None \<Rightarrow> None
      | Some b \<Rightarrow> (case DecodeValue mp b of Inl _ \<Rightarrow> None | Inr v \<Rightarrow> Some v))"

definition RedisCache_foreign ::
  "'v msgpack \<Rightarrow> ('k \<Rightarrow> string) \<Rightarrow> (string \<Rightarrow> string \<Rightarrow> bool) \<Rightarrow> 'k \<Rightarrow> 'v \<Rightarrow> bool" where
  "RedisCache_foreign mp fmt others k v \<longleftrightarrow>
     (\<exists>ns b. others (ns @ '':'' @ fmt k) b \<and> DecodeValue mp b = Inr v)"

lemma RedisCache_live_SomeE:
  assumes "RedisCache_live mp fmt rlive c k = Some v"
  obtains b where "rlive (rc_client c) (rc_namespace c @ '':'' @ fmt k) = Some b"
    and "mp_Unmarshal mp b = Inr v"
  using assms
  by (auto simp: RedisCache_live_def RedisCache_getKey_def DecodeValue_def
      split: option.splits sum.splits)

lemma RedisCache_live_SomeI:
  "rlive (rc_client c) (rc_namespace c @ '':'' @ fmt k) = Some b \<Longrightarrow> mp_Unmarshal mp b = Inr v
     \<Longrightarrow> RedisCache_live mp fmt rlive c k = Some v"
  by (simp add: RedisCache_live_def RedisCache_getKey_def DecodeValue_def)

text \<open>
  One step lemma serves the three calls: the namespace does not change and every binding of
  the server afterwards was there before, was stored by others, or is \<open>extra\<close>.
\<close>

lemma RedisCache_live_step:
  assumes "RedisCache_live mp fmt rlive c' k' = Some w" and "rc_namespace c' = rc_namespace c"
    and "\<And>x b. rlive (rc_client c') x = Some b \<Longrightarrow>
      rlive (rc_client c) x = Some b \<or> extra x b \<or> others x b"
  shows "RedisCache_live mp fmt rlive c k' = Some w
     \<or> (\<exists>b. extra (rc_namespace c @ '':'' @ fmt k') b \<and> mp_Unmarshal mp b = Inr w)
     \<or> RedisCache_foreign mp fmt others k' w"
proof -
  from assms(1) obtain b where
    b: "rlive (rc_client c') (rc_namespace c @ '':'' @ fmt k') = Some b" and
    w: "mp_Unmarshal mp b = Inr w"
    by (rule RedisCache_live_SomeE) (simp add: assms(2))
  from assms(3) [OF b] w show ?thesis
    by (auto simp: RedisCache_foreign_def DecodeValue_def intro: RedisCache_live_SomeI)
qed

sublocale redis_store \<subseteq> red: cache_contract
  "RedisCache_api r mp fmt" "RedisCache_live mp fmt r_live" "RedisCache_foreign mp fmt others"
proof unfold_locales
  fix k k' v w ttl c e c'
  assume set: "c_set (RedisCache_api r mp fmt) k v ttl c = (e, c')"
    and live: "RedisCache_live mp fmt r_live c' k' = Some w"
  show "RedisCache_live mp fmt r_live c k' = Some w \<or> k' = k \<and> w = v
     \<or> RedisCache_foreign mp fmt others k' w"
  proof (cases "mp_Marshal mp v")
    case (Inl _)
    with set live show ?thesis by (auto simp: RedisCache_defs)
  next
    case (Inr b)
    with set obtain s where
      s: "r_set r (RedisCache_getKey fmt c k) b (if ttl = 0 then opt_TTL (rc_cfg c) else ttl)
        (rc_client c) = (e, s)" and c': "c' = c\<lparr>rc_client := s\<rparr>"
      by (auto simp: RedisCache_defs Let_def split: prod.splits)
    from RedisCache_live_step [OF live, of c "\<lambda>x y. x = RedisCache_getKey fmt c k \<and> y = b" others]
      r_set_live [OF s] c' decode_encode [OF Inr]
    show ?thesis by (auto simp: RedisCache_getKey_def dest: fmt_inj)
  qed
next
  fix k k' w c x c'
  assume get: "c_get (RedisCache_api r mp fmt) k c = (x, c')"
    and live: "RedisCache_live mp fmt r_live c' k' = Some w"
  from get obtain y s where s: "r_get r (RedisCache_getKey fmt c k) (rc_client c) = (y, s)"
    and c': "c' = c\<lparr>rc_client := s\<rparr>"
    by (auto simp: RedisCache_defs split: prod.splits sum.splits redis_err.splits)
  from RedisCache_live_step [OF live, of c "\<lambda>_ _. False" others] r_get_live [OF s] c'
  show "RedisCache_live mp fmt r_live c k' = Some w \<or> RedisCache_foreign mp fmt others k' w"
    by auto
next
  fix k k' w c b c'
  assume has: "c_has (RedisCache_api r mp fmt) k c = (b, c')"
    and live: "RedisCache_live mp fmt r_live c' k' = Some w"
  from has obtain y s where s: "r_exists r (RedisCache_getKey fmt c k) (rc_client c) = (y, s)"
    and c': "c' = c\<lparr>rc_client := s\<rparr>"
    by (auto simp: RedisCache_defs split: prod.splits)
  from RedisCache_live_step [OF live, of c "\<lambda>_ _. False" others] r_exists_live [OF s] c'
  show "RedisCache_live mp fmt r_live c k' = Some w \<or> RedisCache_foreign mp fmt others k' w"
    by auto
next
  fix k v c c'
  assume "c_get (RedisCache_api r mp fmt) k c = (Inr v, c')"
  then show "RedisCache_live mp fmt r_live c k = Some v"
    by (auto simp: RedisCache_defs RedisCache_live_def DecodeValue_def
        split: prod.splits sum.splits redis_err.splits dest!: r_get_value)
qed

end
