(* ===== verification/CacheRef.thy ===== *)
theory CacheRef
  imports Cache
begin

text \<open>
  Concrete stores with the documented behaviour of \<open>ttlcache\<close> and of a Redis server, and the
  two caches interpreted on them.  Each call first lets time pass, by the next entry of the
  list of delays, so that an entry can expire between any two calls.  An item with a positive
  time to live is returned up to and including its expiry time; a time to live of zero stands
  for the default in \<open>ttlcache\<close>, and a non-positive one never expires.
\<close>

section \<open>A store with expiring items\<close>

record ('k, 'v) ref_store =
  rf_now :: int
  rf_default :: int
  rf_items :: "('k, 'v \<times> int option) gomap"
  rf_delays :: "nat list"

fun fresh_at :: "int \<Rightarrow> int option \<Rightarrow> bool" where
  "fresh_at now None = True"
| "fresh_at now (Some e) = (now \<le> e)"

definition ref_tick :: "('k, 'v) ref_store \<Rightarrow> ('k, 'v) ref_store" where
  "ref_tick s = (case rf_delays s of [] \<Rightarrow> s
     | d # ds \<Rightarrow> s\<lparr>rf_now := rf_now s + int d, rf_delays := ds\<rparr>)"

definition ref_live :: "('k, 'v) ref_store \<Rightarrow> 'k \<Rightarrow> 'v option" where
  "ref_live s k = (case gm_get (rf_items s) k of None \<Rightarrow> None
     | Some (v, e) \<Rightarrow> if fresh_at (rf_now s) e then Some v else None)"

definition ref_put :: "'k \<Rightarrow> 'v \<Rightarrow> int \<Rightarrow> ('k, 'v) ref_store \<Rightarrow> ('k, 'v) ref_store" where
  "ref_put k v ttl s =
     s\<lparr>rf_items := gm_put k (v, if ttl > 0 then Some (rf_now s + ttl) else None) (rf_items s)\<rparr>"

definition ref_empty :: "int \<Rightarrow> ('k, 'v) ref_store" where
  "ref_empty ttl = \<lparr>rf_now = 0, rf_default = ttl, rf_items = [], rf_delays = []\<rparr>"

lemma fresh_at_mono: "fresh_at t e \<Longrightarrow> t' \<le> t \<Longrightarrow> fresh_at t' e"
  by (cases e) auto

lemma ref_tick_now: "rf_now s \<le> rf_now (ref_tick s)"
  by (simp add: ref_tick_def split: list.splits)

lemma ref_tick_frame [simp]:
  "rf_items (ref_tick s) = rf_items s" "rf_default (ref_tick s) = rf_default s"
  by (simp_all add: ref_tick_def split: list.splits)

lemma ref_live_tick: "ref_live (ref_tick s) k = Some v \<Longrightarrow> ref_live s k = Some v"
  using ref_tick_now [of s]
  by (auto simp: ref_live_def dest: fresh_at_mono split: option.splits prod.splits if_splits)

lemma ref_live_put:
  "ref_live (ref_put k v ttl s) k' = (if k' = k then Some v else ref_live s k')"
  by (cases "gm_get (rf_items s) k'") (auto simp: ref_live_def ref_put_def)

section \<open>ttlcache\<close>

definition ref_ttlcache :: "(('k, 'v) ref_store, 'k, 'v) ttlcache" where
  "ref_ttlcache = \<lparr>
     t_new = (\<lambda>_ ttl. ref_empty ttl),
     t_set = (\<lambda>k v ttl s. let s' = ref_tick s in
        ref_put k v (if ttl = 0 then rf_default s' else ttl) s'),
     t_get = (\<lambda>k s. let s' = ref_tick s in (ref_live s' k, s')),
     t_has = (\<lambda>k s. let s' = ref_tick s in (ref_live s' k \<noteq> None, s'))\<rparr>"

interpretation ref_ttl: ttl_store ref_ttlcache ref_live
  by unfold_locales
    (auto simp: ref_ttlcache_def Let_def ref_live_put dest: ref_live_tick split: if_splits)

interpretation ref_mem: memory_backend ref_ttlcache ref_live
  by unfold_locales

section \<open>Redis\<close>

definition ref_redis :: "((string, string) ref_store, string) redis" where
  "ref_redis = \<lparr>
     r_failover = (\<lambda>_ _. ref_empty 0),
     r_ParseURL = (\<lambda>u. if HasPrefix u ''redis://'' then Inr u else Inl (ErrText ''invalid URL scheme'')),
     r_NewClient = (\<lambda>_. ref_empty 0),
     r_set = (\<lambda>k v ttl s. (None, ref_put k v ttl (ref_tick s))),
     r_get = (\<lambda>k s. let s' = ref_tick s in
        (case ref_live s' k of None \<Rightarrow> Inl RedisNil | Some v \<Rightarrow> Inr v, s')),
     r_exists = (\<lambda>k s. let s' = ref_tick s in ((if ref_live s' k = None then 0 else 1, None), s'))\<rparr>"

definition string_msgpack :: "string msgpack" where
  "string_msgpack = \<lparr>mp_Marshal = Inr, mp_Unmarshal = Inr\<rparr>"

interpretation ref_red: redis_store ref_redis string_msgpack "\<lambda>k. k" ref_live "\<lambda>_ _. False"
  by unfold_locales
    (auto simp: ref_redis_def string_msgpack_def Let_def ref_live_put
      dest: ref_live_tick split: if_splits option.splits)

section \<open>Times to live\<close>

text \<open>
  The time to live that counts: the one of \<open>Set\<close>, or the configured default when it is zero.
\<close>

definition effective_ttl :: "int \<Rightarrow> int \<Rightarrow> int" where
  "effective_ttl def ttl = (if ttl = 0 then def else ttl)"

lemma ref_live_after:
  "ref_live (s\<lparr>rf_now := rf_now s + d\<rparr>) k = Some v \<longleftrightarrow>
     (\<exists>e. gm_get (rf_items s) k = Some (v, e) \<and> fresh_at (rf_now s + d) e)"
  by (auto simp: ref_live_def split: option.splits)

lemma MemoryCache_set_get:
  assumes "rf_delays (mc_cache c) = [a, b]"
    and "c' = snd (MemoryCache_Set ref_ttlcache k v ttl c)"
    and "ttl' = effective_ttl (rf_default (mc_cache c)) ttl"
  shows "fst (MemoryCache_Get ref_ttlcache k c') =
    (if 0 < ttl' \<and> ttl' < int b then Inl ErrNotFound else Inr v)"
  using assms
  by (simp add: MemoryCache_Set_def MemoryCache_Get_def MemoryCache_key_def ref_ttlcache_def
      ref_put_def ref_tick_def ref_live_def effective_ttl_def Let_def)

lemma RedisCache_set_get:
  assumes "rf_delays (rc_client c) = [a, b]"
    and "c' = snd (RedisCache_Set ref_redis string_msgpack (\<lambda>k. k) k v ttl c)"
    and "ttl' = effective_ttl (opt_TTL (rc_cfg c)) ttl"
  shows "fst (RedisCache_Get ref_redis string_msgpack (\<lambda>k. k) k c') =
    (if 0 < ttl' \<and> ttl' < int b then Inl ErrNotFound else Inr v)"
  using assms
  by (simp add: RedisCache_Set_def RedisCache_Get_def RedisCache_getKey_def ref_redis_def
      ref_put_def ref_tick_def ref_live_def effective_ttl_def string_msgpack_def
      EncodeValue_def DecodeValue_def Let_def)


section \<open>Keys of the shared store\<close>

text \<open>
  \<open>%v\<close> of a \<open>uint64\<close> key is its decimal, of a string key the string.
\<close>

definition fmt_uint64 :: "64 word \<Rightarrow> string" where
  "fmt_uint64 w = nat_digits (unat w)"

lemma fmt_uint64_inj: "fmt_uint64 v = fmt_uint64 w \<Longrightarrow> v = w"
  by (simp add: fmt_uint64_def word_unat_eq_iff nat_digits_inj)

lemma fmt_uint64_no_colon: "CHR '':'' \<notin> set (fmt_uint64 w)"
  unfolding fmt_uint64_def by (rule nat_digits_not) (simp add: digit_val_def)

lemma split_last_colon:
  assumes "a @ '':'' @ b = c @ '':'' @ d" and "CHR '':'' \<notin> set b" and "CHR '':'' \<notin> set d"
  shows "a = c \<and> b = d"
proof -
  have "takeWhile (\<lambda>x. x \<noteq> CHR '':'') (rev (u @ '':'' @ v)) = rev v"
    if "CHR '':'' \<notin> set v" for u v
    using that by (simp add: takeWhile_append)
  with assms have "rev b = rev d" by metis
  with assms(1) show ?thesis by simp
qed

lemma RedisCache_getKey_sep:
  assumes "RedisCache_getKey fmt c k = RedisCache_getKey fmt' c' k'"
    and "CHR '':'' \<notin> set (fmt k)" and "CHR '':'' \<notin> set (fmt' k')"
  shows "rc_namespace c = rc_namespace c' \<and> fmt k = fmt' k'"
  using split_last_colon [of "rc_namespace c" "fmt k" "rc_namespace c'" "fmt' k'"] assms
  by (simp add: RedisCache_getKey_def)

end
