(* ===== verification/JsonRpc.thy ===== *)
theory JsonRpc
  imports RuleTypes CacheRef
begin

text \<open>
  \<open>src/pkg/cosmoguard/jsonrpc_utils.go\<close>: JSON-RPC messages, their ids, the key a message is
  cached under, the replies the proxy makes itself, and the list that collects the responses
  of a batch.  The JSON codec (\<open>json-iterator\<close>) and the hash (\<open>fasthash\<close>) are the fields of
  \<open>codec\<close>; the codec calls back the program's \<open>UnmarshalJSON\<close>, which is therefore an
  argument of its decoding functions.
\<close>

section \<open>Messages\<close>

record JsonRpcError =
  je_Code :: int
  je_Message :: string
  je_Data :: any

record JsonRpcMsg =
  jm_Version :: string
  jm_ID :: any
  jm_Method :: string
  jm_Params :: any
  jm_Result :: any
  jm_Error :: "JsonRpcError option"

definition zero_msg :: JsonRpcMsg where
  "zero_msg = \<lparr>jm_Version = [], jm_ID = GNil, jm_Method = [], jm_Params = GNil,
     jm_Result = GNil, jm_Error = None\<rparr>"

fun JsonRpcError_Clone :: "JsonRpcError option \<Rightarrow> JsonRpcError option" where
  "JsonRpcError_Clone None = None"
| "JsonRpcError_Clone (Some e) =
     Some \<lparr>je_Code = je_Code e, je_Message = je_Message e, je_Data = je_Data e\<rparr>"

definition JsonRpcMsg_Clone :: "JsonRpcMsg \<Rightarrow> JsonRpcMsg" where
  "JsonRpcMsg_Clone j = \<lparr>jm_Version = jm_Version j, jm_ID = jm_ID j, jm_Method = jm_Method j,
     jm_Params = jm_Params j, jm_Result = jm_Result j, jm_Error = JsonRpcError_Clone (jm_Error j)\<rparr>"

definition JsonRpcMsg_CloneWithID :: "any \<Rightarrow> JsonRpcMsg \<Rightarrow> JsonRpcMsg" where
  "JsonRpcMsg_CloneWithID i j = \<lparr>jm_Version = jm_Version j, jm_ID = i, jm_Method = jm_Method j,
     jm_Params = jm_Params j, jm_Result = jm_Result j, jm_Error = JsonRpcError_Clone (jm_Error j)\<rparr>"

lemma JsonRpcError_Clone_id [simp]: "JsonRpcError_Clone e = e"
  by (cases e) auto

lemma CloneWithID_eq: "JsonRpcMsg_CloneWithID i j = j\<lparr>jm_ID := i\<rparr>"
  by (simp add: JsonRpcMsg_CloneWithID_def)

lemma Clone_eq: "JsonRpcMsg_Clone j = j"
  by (simp add: JsonRpcMsg_Clone_def)

section \<open>Ids\<close>

text \<open>
  \<open>strconv.Unquote\<close> on a JSON token: only a token in double quotes can succeed.  The escapes
  are Go's; of those JSON also has, \<open>\/\<close> and surrogate pairs are not among them.
\<close>

definition hex_val :: "char \<Rightarrow> nat option" where
  "hex_val c = (let n = of_char c :: nat in
     if 48 \<le> n \<and> n \<le> 57 then Some (n - 48)
     else if 97 \<le> n \<and> n \<le> 102 then Some (n - 87)
     else if 65 \<le> n \<and> n \<le> 70 then Some (n - 55) else None)"

definition hex4 :: "char \<Rightarrow> char \<Rightarrow> char \<Rightarrow> char \<Rightarrow> nat option" where
  "hex4 a b c d = (case (hex_val a, hex_val b, hex_val c, hex_val d) of
      (Some w, Some x, Some y, Some z) \<Rightarrow> Some (((w * 16 + x) * 16 + y) * 16 + z)
    | _ \<Rightarrow> None)"

definition utf8_encode :: "nat \<Rightarrow> string" where
  "utf8_encode r =
     (if r < 128 then [char_of r]
      else if r < 2048 then [char_of (192 + r div 64), char_of (128 + r mod 64)]
      else [char_of (224 + r div 4096), char_of (128 + r div 64 mod 64), char_of (128 + r mod 64)])"

definition backslash :: char where "backslash = char_of (92 :: nat)"
definition dquote :: char where "dquote = char_of (34 :: nat)"

definition simple_escape :: "char \<Rightarrow> char option" where
  "simple_escape e =
     (if e = CHR ''a'' then Some (char_of (7 :: nat)) else if e = CHR ''b'' then Some (char_of (8 :: nat))
      else if e = CHR ''f'' then Some (char_of (12 :: nat)) else if e = CHR ''n'' then Some (char_of (10 :: nat))
      else if e = CHR ''r'' then Some (char_of (13 :: nat)) else if e = CHR ''t'' then Some (char_of (9 :: nat))
      else if e = CHR ''v'' then Some (char_of (11 :: nat))
      else if e = backslash \<or> e = dquote then Some e else None)"

fun unquote_tail :: "string \<Rightarrow> string option" where
  "unquote_tail [] = None"
| "unquote_tail (c # cs) =
     (if c = dquote then (if cs = [] then Some [] else None)
      else if c = char_of (10 :: nat) then None
      else if c = backslash then
        (case cs of [] \<Rightarrow> None
         | e # r \<Rightarrow> (case simple_escape e of
               Some x \<Rightarrow> map_option (Cons x) (unquote_tail r)
             | None \<Rightarrow> if e = CHR ''u'' then
                 (case r of h1 # h2 # h3 # h4 # r' \<Rightarrow>
                    (case hex4 h1 h2 h3 h4 of None \<Rightarrow> None
                     | Some v \<Rightarrow> if 55296 \<le> v \<and> v < 57344 then None
                         else map_option (append (utf8_encode v)) (unquote_tail r'))
                  | _ \<Rightarrow> None)
               else None))
      else map_option (Cons c) (unquote_tail cs))"

definition Unquote :: "string \<Rightarrow> err + string" where
  "Unquote s = (case s of
      c # cs \<Rightarrow> if c = dquote then
          (case unquote_tail cs of Some t \<Rightarrow> Inr t | None \<Rightarrow> Inl (ErrText ''invalid syntax''))
        else Inl (ErrText ''invalid syntax'')
    | [] \<Rightarrow> Inl (ErrText ''invalid syntax''))"

definition plain_char :: "char \<Rightarrow> bool" where
  "plain_char c \<longleftrightarrow> c \<noteq> dquote \<and> c \<noteq> backslash \<and> c \<noteq> char_of (10 :: nat)"

lemma unquote_tail_plain: "list_all plain_char s \<Longrightarrow> unquote_tail (s @ [dquote]) = Some s"
  by (induction s) (auto simp: plain_char_def)

lemma Unquote_plain: "list_all plain_char s \<Longrightarrow> Unquote (dquote # s @ [dquote]) = Inr s"
  by (simp add: Unquote_def unquote_tail_plain)

text \<open>
  \<open>UnmarshalJSON\<close>: \<open>decode\<close> is the codec filling the fields of the message and returning the
  raw \<open>id\<close> (empty when absent).  An integer token becomes an \<open>int\<close>, a string token a
  \<open>string\<close>, an absent id stays nil, and every other token is an error.
\<close>

definition JsonRpcMsg_UnmarshalJSON ::
  "(JsonRpcMsg \<Rightarrow> string \<Rightarrow> JsonRpcMsg \<times> string \<times> err option) \<Rightarrow> JsonRpcMsg \<Rightarrow> string
     \<Rightarrow> JsonRpcMsg \<times> err option" where
  "JsonRpcMsg_UnmarshalJSON decode j b =
     (case decode j b of
        (j1, raw, Some e) \<Rightarrow> (j1, Some e)
      | (j1, raw, None) \<Rightarrow>
          if 1 \<le> length raw then
            (case Atoi raw of
               Some i \<Rightarrow> (j1\<lparr>jm_ID := GInt i\<rparr>, None)
             | None \<Rightarrow> (case Unquote raw of
                   Inr s \<Rightarrow> (j1\<lparr>jm_ID := GStr s\<rparr>, None)
                 | Inl e \<Rightarrow> (j1\<lparr>jm_ID := GStr []\<rparr>, Some e)))
          else (j1\<lparr>jm_ID := GNil\<rparr>, None))"

record codec =
  j_decode :: "JsonRpcMsg \<Rightarrow> string \<Rightarrow> JsonRpcMsg \<times> string \<times> err option"
  j_one :: "(JsonRpcMsg \<Rightarrow> string \<Rightarrow> JsonRpcMsg \<times> err option) \<Rightarrow> string \<Rightarrow> JsonRpcMsg \<times> err option"
  j_many :: "(JsonRpcMsg \<Rightarrow> string \<Rightarrow> JsonRpcMsg \<times> err option) \<Rightarrow> string
     \<Rightarrow> JsonRpcMsg option list \<times> err option"
  j_params :: "any \<Rightarrow> err + string"
  j_msg :: "JsonRpcMsg \<Rightarrow> err + string"
  j_msgs :: "JsonRpcMsg list \<Rightarrow> err + string"
  j_fnv :: "string \<Rightarrow> 64 word"

definition JsonRpcMsg_Hash :: "codec \<Rightarrow> JsonRpcMsg \<Rightarrow> 64 word" where
  "JsonRpcMsg_Hash cd j = (case j_params cd (jm_Params j) of
      Inl _ \<Rightarrow> 0
    | Inr b \<Rightarrow> j_fnv cd (jm_Method j @ b))"

definition JsonRpcMsg_Marshal :: "codec \<Rightarrow> JsonRpcMsg \<Rightarrow> err + string" where
  "JsonRpcMsg_Marshal cd j = j_msg cd j"

definition JsonRpcMsgs_Marshal :: "codec \<Rightarrow> JsonRpcMsg list \<Rightarrow> err + string" where
  "JsonRpcMsgs_Marshal cd js = j_msgs cd js"

definition JsonRpcMsg_MaybeGetPath :: "JsonRpcMsg \<Rightarrow> string" where
  "JsonRpcMsg_MaybeGetPath j = (case jm_Params j of
      GMap m \<Rightarrow> (case gm_get m ''path'' of Some (GStr s) \<Rightarrow> s | _ \<Rightarrow> [])
    | _ \<Rightarrow> [])"

text \<open>
  \<open>ParseJsonRpcMessage\<close>: a body that starts with \<open>[\<close> is a batch, anything else a single
  message.  A nil element of a batch (\<open>null\<close> in the JSON) is \<open>None\<close>.
\<close>

definition ParseJsonRpcMessage ::
  "codec \<Rightarrow> string \<Rightarrow> JsonRpcMsg option \<times> JsonRpcMsg option list \<times> err option" where
  "ParseJsonRpcMessage cd b =
     (if HasPrefix b ''['' then
        (case j_many cd (JsonRpcMsg_UnmarshalJSON (j_decode cd)) b of (msgs, e) \<Rightarrow> (None, msgs, e))
      else
        (case j_one cd (JsonRpcMsg_UnmarshalJSON (j_decode cd)) b of (msg, e) \<Rightarrow> (Some msg, [], e)))"

section \<open>Replies the proxy makes itself\<close>

definition UnauthorizedResponse :: "JsonRpcMsg \<Rightarrow> JsonRpcMsg" where
  "UnauthorizedResponse req = zero_msg\<lparr>jm_Version := ''2.0'',
     jm_Error := Some \<lparr>je_Code = 401, je_Message = ''unauthorized access'', je_Data = GNil\<rparr>,
     jm_ID := jm_ID req\<rparr>"

definition EmptyResult :: "JsonRpcMsg \<Rightarrow> JsonRpcMsg" where
  "EmptyResult req = zero_msg\<lparr>jm_Version := ''2.0'', jm_Result := GStrMap [], jm_ID := jm_ID req\<rparr>"

definition WithResult :: "JsonRpcMsg \<Rightarrow> any \<Rightarrow> JsonRpcMsg" where
  "WithResult req result = zero_msg\<lparr>jm_Version := ''2.0'', jm_Result := result, jm_ID := jm_ID req\<rparr>"

definition ErrorResponse :: "JsonRpcMsg \<Rightarrow> int \<Rightarrow> string \<Rightarrow> any \<Rightarrow> JsonRpcMsg" where
  "ErrorResponse req code message dat = zero_msg\<lparr>jm_Version := ''2.0'',
     jm_Error := Some \<lparr>je_Code = code, je_Message = message, je_Data = dat\<rparr>, jm_ID := jm_ID req\<rparr>"

lemmas replies = UnauthorizedResponse_def EmptyResult_def WithResult_def ErrorResponse_def zero_msg_def

section \<open>The responses of a batch\<close>

text \<open>
  A request of a batch is a pointer: its address and the message it points to.  The requests
  of one batch are allocated by the decoder, at distinct addresses.
\<close>

type_synonym msg_ptr = "nat \<times> JsonRpcMsg"

record JsonRpcResponse =
  jr_Request :: msg_ptr
  jr_Response :: "JsonRpcMsg option"
  jr_Cache :: "RuleCache option"
  jr_CacheKey :: "64 word"

type_synonym JsonRpcResponses = "JsonRpcResponse list"

fun Responses_GetPendingRequests :: "JsonRpcResponses \<Rightarrow> msg_ptr list" where
  "Responses_GetPendingRequests [] = []"
| "Responses_GetPendingRequests (r # l) =
     (if jr_Response r = None then jr_Request r # Responses_GetPendingRequests l
      else Responses_GetPendingRequests l)"

fun Responses_GetFinal :: "JsonRpcResponses \<Rightarrow> JsonRpcMsg list" where
  "Responses_GetFinal [] = []"
| "Responses_GetFinal (r # l) =
     (case jr_Response r of Some m \<Rightarrow> m # Responses_GetFinal l | None \<Rightarrow> Responses_GetFinal l)"

definition Responses_AddPending :: "msg_ptr \<Rightarrow> JsonRpcResponses \<Rightarrow> JsonRpcResponses" where
  "Responses_AddPending request l =
     l @ [\<lparr>jr_Request = request, jr_Response = None, jr_Cache = None, jr_CacheKey = 0\<rparr>]"

definition Responses_AddResponse :: "msg_ptr \<Rightarrow> JsonRpcMsg \<Rightarrow> JsonRpcResponses \<Rightarrow> JsonRpcResponses" where
  "Responses_AddResponse request response l =
     l @ [\<lparr>jr_Request = request,
           jr_Response = Some (JsonRpcMsg_CloneWithID (jm_ID (snd request)) response),
           jr_Cache = None, jr_CacheKey = 0\<rparr>]"

definition Responses_AddPendingWithCacheConfig ::
  "msg_ptr \<Rightarrow> 64 word \<Rightarrow> RuleCache option \<Rightarrow> JsonRpcResponses \<Rightarrow> JsonRpcResponses" where
  "Responses_AddPendingWithCacheConfig request cacheKey cacheCfg l =
     l @ [\<lparr>jr_Request = request, jr_Response = None, jr_Cache = cacheCfg, jr_CacheKey = cacheKey\<rparr>]"

definition Responses_Deny :: "msg_ptr \<Rightarrow> JsonRpcResponses \<Rightarrow> JsonRpcResponses" where
  "Responses_Deny request l =
     l @ [\<lparr>jr_Request = request, jr_Response = Some (UnauthorizedResponse (snd request)),
           jr_Cache = None, jr_CacheKey = 0\<rparr>]"

text \<open>
  \<open>Find\<close> compares pointers.  \<open>Set\<close> writes through the entry \<open>Find\<close> returns; \<open>put_response\<close> is
  that lookup and write.
\<close>

fun Responses_Find :: "nat \<Rightarrow> JsonRpcResponses \<Rightarrow> JsonRpcResponse option" where
  "Responses_Find p [] = None"
| "Responses_Find p (r # l) = (if fst (jr_Request r) = p then Some r else Responses_Find p l)"

fun put_response :: "nat \<Rightarrow> JsonRpcMsg option \<Rightarrow> JsonRpcResponses \<Rightarrow> JsonRpcResponses" where
  "put_response p m [] = []"
| "put_response p m (r # l) =
     (if fst (jr_Request r) = p then r\<lparr>jr_Response := m\<rparr> # l else r # put_response p m l)"

fun Responses_Set_from ::
  "nat \<Rightarrow> msg_ptr list \<Rightarrow> JsonRpcMsg option list \<Rightarrow> JsonRpcResponses \<Rightarrow> JsonRpcResponses outcome" where
  "Responses_Set_from i [] responses l = Ret l"
| "Responses_Set_from i (r # rs) responses l =
     (case Responses_Find (fst r) l of
        None \<Rightarrow> Responses_Set_from (Suc i) rs responses l
      | Some _ \<Rightarrow>
          if i < length responses
          then Responses_Set_from (Suc i) rs responses (put_response (fst r) (responses ! i) l)
          else Panic ''index out of range'')"

definition Responses_Set ::
  "msg_ptr list \<Rightarrow> JsonRpcMsg option list \<Rightarrow> JsonRpcResponses \<Rightarrow> JsonRpcResponses outcome" where
  "Responses_Set requests responses l = Responses_Set_from 0 requests responses l"

text \<open>Whether an answered entry is to be stored, and the storing loop.\<close>

definition cacheable :: "RuleCache \<Rightarrow> JsonRpcMsg \<Rightarrow> bool" where
  "cacheable rc m \<longleftrightarrow> \<not> (jm_Error m \<noteq> None \<and> \<not> rc_CacheError rc)
     \<and> \<not> (jm_Result m = GNil \<and> \<not> rc_CacheEmptyResult rc)"

fun Responses_StoreInCache ::
  "('c, 64 word, JsonRpcMsg) cache_api \<Rightarrow> JsonRpcResponses \<Rightarrow> 'c \<Rightarrow> err option \<times> 'c" where
  "Responses_StoreInCache api [] c = (None, c)"
| "Responses_StoreInCache api (r # l) c =
     (case (jr_Response r, jr_Cache r) of
        (Some m, Some rc) \<Rightarrow>
          if rc_Enable rc \<and> cacheable rc m then
            (case c_set api (jr_CacheKey r) m (rc_TTL rc) c of
               (Some e, c') \<Rightarrow> (Some e, c')
             | (None, c') \<Rightarrow> Responses_StoreInCache api l c')
          else Responses_StoreInCache api l c
      | _ \<Rightarrow> Responses_StoreInCache api l c)"

section \<open>Facts about messages and ids\<close>

lemma JsonRpcMsg_Hash_ID: "JsonRpcMsg_Hash cd (j\<lparr>jm_ID := i\<rparr>) = JsonRpcMsg_Hash cd j"
  by (simp add: JsonRpcMsg_Hash_def split: sum.split)

lemma CloneWithID_fields [simp]:
  "jm_ID (JsonRpcMsg_CloneWithID i j) = i"
  "jm_Result (JsonRpcMsg_CloneWithID i j) = jm_Result j"
  "jm_Error (JsonRpcMsg_CloneWithID i j) = jm_Error j"
  "jm_Method (JsonRpcMsg_CloneWithID i j) = jm_Method j"
  "jm_Params (JsonRpcMsg_CloneWithID i j) = jm_Params j"
  by (simp_all add: CloneWithID_eq)

lemma UnauthorizedResponse_ID [simp]: "jm_ID (UnauthorizedResponse m) = jm_ID m"
  by (simp add: replies)

lemma dquote_not_digit [simp]: "digit_val dquote = None"
  by (simp add: dquote_def digit_val_def)

lemma Atoi_quoted: "Atoi (dquote # s) = None"
proof -
  have "dquote \<noteq> CHR ''-''" "dquote \<noteq> CHR ''+''"
    by (simp_all add: dquote_def char_of_def)
  then show ?thesis by (simp add: Atoi_def unsigned_val_def)
qed

lemma UnmarshalJSON_ID:
  assumes "decode j b = (j1, raw, None)"
  shows "raw = [] \<Longrightarrow> JsonRpcMsg_UnmarshalJSON decode j b = (j1\<lparr>jm_ID := GNil\<rparr>, None)"
    and "raw = Itoa i \<Longrightarrow> int64 i \<Longrightarrow>
      JsonRpcMsg_UnmarshalJSON decode j b = (j1\<lparr>jm_ID := GInt i\<rparr>, None)"
    and "raw = dquote # s @ [dquote] \<Longrightarrow> list_all plain_char s \<Longrightarrow>
      JsonRpcMsg_UnmarshalJSON decode j b = (j1\<lparr>jm_ID := GStr s\<rparr>, None)"
proof -
  have ne: "Itoa i \<noteq> []" by (simp add: Itoa_def)
  show "raw = [] \<Longrightarrow> JsonRpcMsg_UnmarshalJSON decode j b = (j1\<lparr>jm_ID := GNil\<rparr>, None)"
    and "raw = Itoa i \<Longrightarrow> int64 i \<Longrightarrow>
      JsonRpcMsg_UnmarshalJSON decode j b = (j1\<lparr>jm_ID := GInt i\<rparr>, None)"
    and "raw = dquote # s @ [dquote] \<Longrightarrow> list_all plain_char s \<Longrightarrow>
      JsonRpcMsg_UnmarshalJSON decode j b = (j1\<lparr>jm_ID := GStr s\<rparr>, None)"
    using assms ne
    by (auto simp: JsonRpcMsg_UnmarshalJSON_def Atoi_Itoa Atoi_quoted Unquote_plain Suc_le_eq)
qed

section \<open>Facts about the response list\<close>

named_theorems responses \<open>the adding operations, unfolded\<close>

lemmas responses_add [responses] =
  Responses_AddPending_def Responses_AddResponse_def
  Responses_AddPendingWithCacheConfig_def Responses_Deny_def

lemma GetPendingRequests_append:
  "Responses_GetPendingRequests (l @ l') =
     Responses_GetPendingRequests l @ Responses_GetPendingRequests l'"
  by (induction l) auto

lemma GetFinal_append: "Responses_GetFinal (l @ l') = Responses_GetFinal l @ Responses_GetFinal l'"
  by (induction l) (auto split: option.splits)

lemma GetPendingRequests_set:
  "set (Responses_GetPendingRequests l) = jr_Request ` {r \<in> set l. jr_Response r = None}"
  by (induction l) auto

lemma GetPendingRequests_filter:
  "Responses_GetPendingRequests l = map jr_Request (filter (\<lambda>r. jr_Response r = None) l)"
  by (induction l) auto

text \<open>
  The linear version of \<open>Set\<close>: walk the list once and give the pending entries the responses
  in order.
\<close>

fun fill_pending :: "JsonRpcResponses \<Rightarrow> JsonRpcMsg option list \<Rightarrow> JsonRpcResponses" where
  "fill_pending [] ms = []"
| "fill_pending (r # l) ms =
     (if jr_Response r = None then
        (case ms of [] \<Rightarrow> r # l | m # ms' \<Rightarrow> r\<lparr>jr_Response := m\<rparr> # fill_pending l ms')
      else r # fill_pending l ms)"

abbreviation addresses :: "JsonRpcResponses \<Rightarrow> nat list" where
  "addresses l \<equiv> map (fst \<circ> jr_Request) l"

lemma Find_skip:
  "p \<notin> set (addresses d) \<Longrightarrow> Responses_Find p (d @ r # l) =
     (if fst (jr_Request r) = p then Some r else Responses_Find p l)"
  by (induction d) auto

lemma put_response_skip:
  "fst (jr_Request r) \<notin> set (addresses d) \<Longrightarrow>
     put_response (fst (jr_Request r)) m (d @ r # l) = d @ r\<lparr>jr_Response := m\<rparr> # l"
  by (induction d) auto

lemma Set_from_fill:
  "distinct (addresses (d @ l)) \<Longrightarrow> length ms = i + length (Responses_GetPendingRequests l) \<Longrightarrow>
     Responses_Set_from i (Responses_GetPendingRequests l) ms (d @ l)
       = Ret (d @ fill_pending l (drop i ms))"
proof (induction l arbitrary: d i)
  case Nil
  then show ?case by simp
next
  case (Cons r l)
  have fresh: "fst (jr_Request r) \<notin> set (addresses d)"
    using Cons.prems(1) by auto
  show ?case
  proof (cases "jr_Response r = None")
    case False
    with Cons.prems Cons.IH [of "d @ [r]" i] show ?thesis by auto
  next
    case True
    with Cons.prems have i: "i < length ms" by simp
    let ?r' = "r\<lparr>jr_Response := ms ! i\<rparr>"
    have "Responses_Set_from (Suc i) (Responses_GetPendingRequests l) ms (d @ ?r' # l)
        = Ret (d @ ?r' # fill_pending l (drop (Suc i) ms))"
      using Cons.IH [of "d @ [?r']" "Suc i"] Cons.prems True by simp
    with True i fresh show ?thesis
      by (simp add: Find_skip put_response_skip Cons_nth_drop_Suc [symmetric])
  qed
qed

lemma Responses_Set_fill:
  assumes "distinct (addresses l)"
    and "length ms = length (Responses_GetPendingRequests l)"
  shows "Responses_Set (Responses_GetPendingRequests l) ms l = Ret (fill_pending l ms)"
  using Set_from_fill [of "[]" l ms 0] assms by (simp add: Responses_Set_def)

lemma fill_pending_requests: "map jr_Request (fill_pending l ms) = map jr_Request l"
  by (induction l arbitrary: ms) (auto split: list.splits)

lemma GetFinal_fill_length:
  "length ms = length (Responses_GetPendingRequests l) \<Longrightarrow>
     length (Responses_GetFinal (fill_pending l (map Some ms))) = length l"
proof (induction l arbitrary: ms)
  case Nil
  then show ?case by simp
next
  case (Cons r l)
  show ?case
  proof (cases "jr_Response r")
    case None
    with Cons show ?thesis by (cases ms) auto
  next
    case (Some m)
    with Cons.prems Cons.IH [of ms] show ?thesis by simp
  qed
qed

section \<open>What is stored\<close>

text \<open>
  The handlers share one interface to a cache of messages; what the loop stores satisfies a
  predicate that holds for every cacheable answered entry.
\<close>

locale msg_cache = cache_contract api live foreign
  for api :: "('c, 64 word, JsonRpcMsg) cache_api" and live foreign
begin

lemma StoreInCache_holds_all:
  assumes "holds_all P c" and "Responses_StoreInCache api l c = (e, c')"
    and "\<And>r m rc. r \<in> set l \<Longrightarrow> jr_Response r = Some m \<Longrightarrow> jr_Cache r = Some rc \<Longrightarrow>
      rc_Enable rc \<Longrightarrow> cacheable rc m \<Longrightarrow> P (jr_CacheKey r) m"
  shows "holds_all P c'"
  using assms
proof (induction l arbitrary: c)
  case Nil
  then show ?case by simp
next
  case (Cons r l)
  show ?case
  proof (cases "\<exists>m rc. jr_Response r = Some m \<and> jr_Cache r = Some rc \<and> rc_Enable rc \<and> cacheable rc m")
    case False
    then have "Responses_StoreInCache api (r # l) c = Responses_StoreInCache api l c"
      by (auto split: option.splits)
    with Cons show ?thesis by auto
  next
    case True
    then obtain m rc where r: "jr_Response r = Some m" "jr_Cache r = Some rc" "rc_Enable rc" "cacheable rc m"
      by blast
    obtain e1 c1 where set: "c_set api (jr_CacheKey r) m (rc_TTL rc) c = (e1, c1)"
      by (cases "c_set api (jr_CacheKey r) m (rc_TTL rc) c") auto
    have "P (jr_CacheKey r) m" using Cons.prems(3) r by simp
    then have "holds_all P c1" using holds_all_set [OF Cons.prems(1) _ set] by simp
    with Cons.IH [of c1] Cons.prems r set show ?thesis
      by (cases e1) auto
  qed
qed

end

interpretation ref_msgs: msg_cache
  "MemoryCache_api ref_ttlcache" "MemoryCache_live ref_live" "\<lambda>_ _. False"
  by unfold_locales

end
