(* ===== verification/HttpUtils.thy ===== *)
theory HttpUtils
  imports GoStd
begin

text \<open>
  \<open>src/pkg/cosmoguard/http_utils.go\<close>: the request body that can be read again, the response
  writer that also keeps what was written, and the helpers that write a whole response.

  A response writer is the state \<open>net/http\<close> keeps for one response: the headers, the status
  (0 while nothing was sent) and the body bytes.  Whatever writes to it, the reverse proxy
  included, does so by a list of calls.  Failing writes (a client that went away) and the
  time a call takes are not modelled.
\<close>

section \<open>The reusable body\<close>

text \<open>
  \<open>readBuf\<close> is the \<open>bytes.Buffer\<close> the \<open>TeeReader\<close> reads from and \<open>backBuf\<close> the one it
  copies to.  \<open>ReadFrom\<close> keeps what could be read of the original body and drops its error.
\<close>

record reusableReader =
  readBuf :: string
  backBuf :: string

record body_source =
  bs_data :: string
  bs_error :: "err option"

definition ReusableReader :: "body_source \<Rightarrow> reusableReader" where
  "ReusableReader r = \<lparr>readBuf = bs_data r, backBuf = []\<rparr>"

definition reusableReader_reset :: "reusableReader \<Rightarrow> reusableReader" where
  "reusableReader_reset r = r\<lparr>readBuf := readBuf r @ backBuf r, backBuf := []\<rparr>"

text \<open>
  \<open>Read\<close> into a slice of length \<open>n\<close>: the bytes read, whether the result is \<open>io.EOF\<close>, and the
  next state.  A \<open>bytes.Buffer\<close> reports \<open>EOF\<close> when it is empty and \<open>n\<close> is not 0.
\<close>

definition reusableReader_Read :: "nat \<Rightarrow> reusableReader \<Rightarrow> string \<times> bool \<times> reusableReader" where
  "reusableReader_Read n r =
     (let p = take n (readBuf r);
          eof = (readBuf r = [] \<and> n \<noteq> 0);
          r' = r\<lparr>readBuf := drop n (readBuf r), backBuf := backBuf r @ p\<rparr>
      in (p, eof, if eof then reusableReader_reset r' else r'))"

text \<open>
  \<open>io.ReadAll\<close>: reads until \<open>EOF\<close>, each time into the free part of a growing slice, which is
  never empty.  The growth is unspecified, so the sizes are a function of how much was read.
\<close>

function ReadAll_loop :: "(nat \<Rightarrow> nat) \<Rightarrow> string \<Rightarrow> reusableReader \<Rightarrow> string \<times> reusableReader" where
  "ReadAll_loop grow acc r =
     (if readBuf r = [] then (acc, snd (snd (reusableReader_Read (Suc (grow (length acc))) r)))
      else (case reusableReader_Read (Suc (grow (length acc))) r of
          (p, eof, r') \<Rightarrow> ReadAll_loop grow (acc @ p) r'))"
  by pat_completeness auto
termination
  by (relation "measure (\<lambda>(grow, acc, r). length (readBuf r))")
    (auto simp: reusableReader_Read_def Let_def)

declare ReadAll_loop.simps [simp del]

definition io_ReadAll :: "(nat \<Rightarrow> nat) \<Rightarrow> reusableReader \<Rightarrow> (err + string) \<times> reusableReader" where
  "io_ReadAll grow r = (case ReadAll_loop grow [] r of (b, r') \<Rightarrow> (Inr b, r'))"

lemma ReadAll_loop_spec:
  "ReadAll_loop grow acc r =
     (acc @ readBuf r, \<lparr>readBuf = backBuf r @ readBuf r, backBuf = []\<rparr>)"
proof (induction grow acc r rule: ReadAll_loop.induct)
  case (1 grow acc r)
  show ?case
  proof (cases "readBuf r = []")
    case True
    then show ?thesis
      by (simp add: ReadAll_loop.simps [of grow acc r] reusableReader_Read_def
          reusableReader_reset_def)
  next
    case False
    let ?n = "Suc (grow (length acc))"
    have "reusableReader_Read ?n r = (take ?n (readBuf r), False,
        r\<lparr>readBuf := drop ?n (readBuf r), backBuf := backBuf r @ take ?n (readBuf r)\<rparr>)"
      using False by (simp add: reusableReader_Read_def Let_def)
    with 1 [OF False this [symmetric] refl] False show ?thesis
      by (simp add: ReadAll_loop.simps [of grow acc r])
  qed
qed

text \<open>What a reader of the body relies on: reading it all gives the body, every time.\<close>

locale rereadable =
  fixes read_all :: "'r \<Rightarrow> (err + string) \<times> 'r"
    and content :: "'r \<Rightarrow> string"
    and rewound :: "'r \<Rightarrow> bool"
  assumes read_content: "rewound r \<Longrightarrow> fst (read_all r) = Inr (content r)"
    and read_rewinds: "rewound r \<Longrightarrow> rewound (snd (read_all r))"
    and read_keeps: "rewound r \<Longrightarrow> content (snd (read_all r)) = content r"
begin

fun read_times :: "nat \<Rightarrow> 'r \<Rightarrow> (err + string) list" where
  "read_times 0 r = []"
| "read_times (Suc n) r = fst (read_all r) # read_times n (snd (read_all r))"

lemma read_times_const: "rewound r \<Longrightarrow> read_times n r = replicate n (Inr (content r))"
  by (induction n arbitrary: r) (simp_all add: read_content read_rewinds read_keeps)

end

interpretation body: rereadable "io_ReadAll grow" readBuf "\<lambda>r. backBuf r = []" for grow
  by unfold_locales (simp_all add: io_ReadAll_def ReadAll_loop_spec)

section \<open>Response writers\<close>

record ResponseWriter =
  w_Header :: "(string, string list) gomap"
  w_status :: nat
  w_body :: string

definition new_writer :: ResponseWriter where
  "new_writer = \<lparr>w_Header = [], w_status = 0, w_body = []\<rparr>"

definition Header_Set :: "string \<Rightarrow> string \<Rightarrow> ResponseWriter \<Rightarrow> ResponseWriter" where
  "Header_Set k v w = w\<lparr>w_Header := gm_put k [v] (w_Header w)\<rparr>"

definition Header_Add :: "string \<Rightarrow> string \<Rightarrow> ResponseWriter \<Rightarrow> ResponseWriter" where
  "Header_Add k v w = w\<lparr>w_Header := gm_put k
     ((case gm_get (w_Header w) k of None \<Rightarrow> [] | Some vs \<Rightarrow> vs) @ [v]) (w_Header w)\<rparr>"

text \<open>
  \<open>net/http\<close>: the first status that is not informational is the one sent, and a first write
  without one sends 200.
\<close>

definition Writer_WriteHeader :: "nat \<Rightarrow> ResponseWriter \<Rightarrow> ResponseWriter" where
  "Writer_WriteHeader code w =
     (if w_status w \<noteq> 0 \<or> (100 \<le> code \<and> code \<le> 199 \<and> code \<noteq> 101) then w
      else w\<lparr>w_status := code\<rparr>)"

definition Writer_Write :: "string \<Rightarrow> ResponseWriter \<Rightarrow> ResponseWriter" where
  "Writer_Write p w =
     w\<lparr>w_status := (if w_status w = 0 then 200 else w_status w), w_body := w_body w @ p\<rparr>"

datatype wcall =
    CallSet string string
  | CallAdd string string
  | CallWriteHeader nat
  | CallWrite string

fun writer_call :: "wcall \<Rightarrow> ResponseWriter \<Rightarrow> ResponseWriter" where
  "writer_call (CallSet k v) w = Header_Set k v w"
| "writer_call (CallAdd k v) w = Header_Add k v w"
| "writer_call (CallWriteHeader code) w = Writer_WriteHeader code w"
| "writer_call (CallWrite p) w = Writer_Write p w"

definition writer_calls :: "wcall list \<Rightarrow> ResponseWriter \<Rightarrow> ResponseWriter" where
  "writer_calls cs w = fold writer_call cs w"

section \<open>The recording wrapper\<close>

record ResponseWriterWrapper =
  ww_w :: ResponseWriter
  ww_buf :: string
  ww_statusCode :: nat

definition WrapResponseWriter :: "ResponseWriter \<Rightarrow> ResponseWriterWrapper" where
  "WrapResponseWriter w = \<lparr>ww_w = w, ww_buf = [], ww_statusCode = 0\<rparr>"

definition Wrapper_Write :: "string \<Rightarrow> ResponseWriterWrapper \<Rightarrow> ResponseWriterWrapper" where
  "Wrapper_Write p w =
     (let w1 = (if ww_statusCode w = 0 then w\<lparr>ww_statusCode := 200\<rparr> else w)
      in w1\<lparr>ww_buf := ww_buf w1 @ p, ww_w := Writer_Write p (ww_w w1)\<rparr>)"

definition Wrapper_WriteHeader :: "nat \<Rightarrow> ResponseWriterWrapper \<Rightarrow> ResponseWriterWrapper" where
  "Wrapper_WriteHeader statusCode w =
     w\<lparr>ww_statusCode := statusCode, ww_w := Writer_WriteHeader statusCode (ww_w w)\<rparr>"

definition Wrapper_GetStatusCode :: "ResponseWriterWrapper \<Rightarrow> nat" where
  "Wrapper_GetStatusCode w = ww_statusCode w"

definition Wrapper_GetWrittenBytes ::
  "ResponseWriterWrapper \<Rightarrow> (err + string) \<times> ResponseWriterWrapper" where
  "Wrapper_GetWrittenBytes w = (Inr (ww_buf w), w\<lparr>ww_buf := []\<rparr>)"

fun wrapper_call :: "wcall \<Rightarrow> ResponseWriterWrapper \<Rightarrow> ResponseWriterWrapper" where
  "wrapper_call (CallSet k v) w = w\<lparr>ww_w := Header_Set k v (ww_w w)\<rparr>"
| "wrapper_call (CallAdd k v) w = w\<lparr>ww_w := Header_Add k v (ww_w w)\<rparr>"
| "wrapper_call (CallWriteHeader code) w = Wrapper_WriteHeader code w"
| "wrapper_call (CallWrite p) w = Wrapper_Write p w"

definition wrapper_calls :: "wcall list \<Rightarrow> ResponseWriterWrapper \<Rightarrow> ResponseWriterWrapper" where
  "wrapper_calls cs w = fold wrapper_call cs w"

definition written :: "wcall list \<Rightarrow> string" where
  "written cs = concat (map (\<lambda>c. case c of CallWrite p \<Rightarrow> p | _ \<Rightarrow> []) cs)"

lemma wrapper_call_writer: "ww_w (wrapper_call c w) = writer_call c (ww_w w)"
  by (cases c) (simp_all add: Wrapper_Write_def Wrapper_WriteHeader_def Let_def)

lemma wrapper_calls_writer: "ww_w (wrapper_calls cs w) = writer_calls cs (ww_w w)"
  by (induction cs arbitrary: w)
    (simp_all add: wrapper_calls_def writer_calls_def wrapper_call_writer)

lemma wrapper_call_buf:
  "ww_buf (wrapper_call c w) = ww_buf w @ (case c of CallWrite p \<Rightarrow> p | _ \<Rightarrow> [])"
  by (cases c) (simp_all add: Wrapper_Write_def Wrapper_WriteHeader_def Let_def)

lemma wrapper_calls_buf: "ww_buf (wrapper_calls cs w) = ww_buf w @ written cs"
  by (induction cs arbitrary: w)
    (simp_all add: wrapper_calls_def written_def wrapper_call_buf)

lemma writer_calls_body: "w_body (writer_calls cs w) = w_body w @ written cs"
proof (induction cs arbitrary: w)
  case (Cons c cs)
  have "w_body (writer_call c w) = w_body w @ (case c of CallWrite p \<Rightarrow> p | _ \<Rightarrow> [])"
    by (cases c) (simp_all add: Header_Set_def Header_Add_def Writer_WriteHeader_def Writer_Write_def)
  with Cons [of "writer_call c w"] show ?case by (simp add: writer_calls_def written_def)
qed (simp add: writer_calls_def written_def)

text \<open>
  Calls as a handler makes them: one final status at most, before anything is written.  Then
  the wrapper records the status that is sent.
\<close>

definition no_status :: "wcall list \<Rightarrow> bool" where
  "no_status cs = list_all (\<lambda>c. case c of CallWriteHeader _ \<Rightarrow> False | _ \<Rightarrow> True) cs"

fun one_status :: "wcall list \<Rightarrow> bool" where
  "one_status [] = True"
| "one_status (CallWriteHeader code # cs) = (200 \<le> code \<and> no_status cs)"
| "one_status (CallWrite p # cs) = no_status cs"
| "one_status (CallSet k v # cs) = one_status cs"
| "one_status (CallAdd k v # cs) = one_status cs"

lemma no_status_agree:
  "no_status cs \<Longrightarrow> ww_statusCode w = w_status (ww_w w) \<Longrightarrow> ww_statusCode w \<noteq> 0 \<Longrightarrow>
     ww_statusCode (wrapper_calls cs w) = w_status (writer_calls cs (ww_w w))"
proof (induction cs arbitrary: w)
  case Nil
  then show ?case by (simp add: wrapper_calls_def writer_calls_def)
next
  case (Cons c cs)
  then have "ww_statusCode (wrapper_call c w) = w_status (writer_call c (ww_w w))
      \<and> ww_statusCode (wrapper_call c w) \<noteq> 0"
    by (cases c) (auto simp: no_status_def Wrapper_Write_def Writer_Write_def Header_Set_def
        Header_Add_def Let_def)
  with Cons show ?case
    by (simp add: no_status_def wrapper_calls_def writer_calls_def
        flip: wrapper_call_writer)
qed

lemma one_status_agree:
  "one_status cs \<Longrightarrow> ww_statusCode w = 0 \<Longrightarrow> w_status (ww_w w) = 0 \<Longrightarrow>
     ww_statusCode (wrapper_calls cs w) = w_status (writer_calls cs (ww_w w))"
proof (induction cs arbitrary: w rule: one_status.induct)
  case 1
  then show ?case by (simp add: wrapper_calls_def writer_calls_def)
next
  case (2 code cs)
  then have "ww_statusCode (wrapper_calls cs (wrapper_call (CallWriteHeader code) w)) =
      w_status (writer_calls cs (ww_w (wrapper_call (CallWriteHeader code) w)))"
    by (intro no_status_agree) (auto simp: Wrapper_WriteHeader_def Writer_WriteHeader_def)
  then show ?case
    unfolding wrapper_call_writer by (simp add: wrapper_calls_def writer_calls_def)
next
  case (3 p cs)
  then have "ww_statusCode (wrapper_calls cs (wrapper_call (CallWrite p) w)) =
      w_status (writer_calls cs (ww_w (wrapper_call (CallWrite p) w)))"
    by (intro no_status_agree) (auto simp: Wrapper_Write_def Writer_Write_def)
  then show ?case
    unfolding wrapper_call_writer by (simp add: wrapper_calls_def writer_calls_def)
next
  case (4 k v cs)
  then show ?case
    by (simp add: wrapper_calls_def writer_calls_def Header_Set_def)
next
  case (5 k v cs)
  then show ?case
    by (simp add: wrapper_calls_def writer_calls_def Header_Add_def)
qed

section \<open>Requests\<close>

record Request =
  rq_Method :: string
  rq_Path :: string
  rq_URL :: string
  rq_Body :: body_source
  rq_Header :: "(string, string list) gomap"
  rq_RemoteAddr :: string

definition Header_Get :: "string \<Rightarrow> (string, string list) gomap \<Rightarrow> string" where
  "Header_Get k h = (case gm_get h k of Some (v # _) \<Rightarrow> v | _ \<Rightarrow> [])"

definition GetSourceIP :: "Request \<Rightarrow> string" where
  "GetSourceIP r =
     (let a = Header_Get ''X-Real-Ip'' (rq_Header r);
          b = (if a = [] then Header_Get ''X-Forwarded-For'' (rq_Header r) else a)
      in if b = [] then rq_RemoteAddr r else b)"

section \<open>Writing a whole response\<close>

fun set_header_pairs :: "string list \<Rightarrow> ResponseWriter \<Rightarrow> ResponseWriter" where
  "set_header_pairs (k # v # hs) w = set_header_pairs hs (Header_Set k v w)"
| "set_header_pairs _ w = w"

definition WriteData :: "nat \<Rightarrow> string \<Rightarrow> string list \<Rightarrow> ResponseWriter \<Rightarrow> ResponseWriter" where
  "WriteData code dat headers w =
     (let w1 = (if length headers mod 2 = 0 then set_header_pairs headers w else w)
      in Writer_Write dat (Writer_WriteHeader code w1))"

definition WriteError :: "nat \<Rightarrow> string \<Rightarrow> string list \<Rightarrow> ResponseWriter \<Rightarrow> ResponseWriter" where
  "WriteError code msg headers w =
     (let w1 = (if length headers mod 2 = 0 then set_header_pairs headers w else w)
      in Writer_Write msg (Writer_WriteHeader code w1))"

lemma set_header_pairs_frame [simp]:
  "w_status (set_header_pairs hs w) = w_status w" "w_body (set_header_pairs hs w) = w_body w"
  by (induction hs w rule: set_header_pairs.induct) (simp_all add: Header_Set_def)

lemma WriteError_sends:
  "w_status w = 0 \<Longrightarrow> code \<ge> 200 \<Longrightarrow>
     w_status (WriteError code msg hs w) = code \<and> w_body (WriteError code msg hs w) = w_body w @ msg"
  by (auto simp: WriteError_def Writer_Write_def Writer_WriteHeader_def Let_def)

lemma WriteData_sends:
  "w_status w = 0 \<Longrightarrow> code \<ge> 200 \<Longrightarrow>
     w_status (WriteData code dat hs w) = code \<and> w_body (WriteData code dat hs w) = w_body w @ dat"
  by (auto simp: WriteData_def Writer_Write_def Writer_WriteHeader_def Let_def)

end
