(* ===== verification/Policy.thy ===== *)
theory Policy
  imports RuleTypes
begin

text \<open>
  The abstract specification of a rule list, which the four handlers (HTTP, gRPC, JSON-RPC
  over HTTP, JSON-RPC over WebSocket) are to implement: the first rule that matches and whose
  action is recognised decides, and when there is none the default action does, anything but
  \<open>allow\<close> being a denial.  Matching may panic, and then so does the decision.
\<close>

datatype 'r verdict = Allowed "'r option" | Denied "'r option"

fun policy ::
  "('r \<Rightarrow> bool outcome) \<Rightarrow> ('r \<Rightarrow> RuleAction) \<Rightarrow> RuleAction \<Rightarrow> 'r list \<Rightarrow> 'r verdict outcome" where
  "policy mat act def [] = Ret (if def = RuleActionAllow then Allowed None else Denied None)"
| "policy mat act def (r # rs) =
     (case mat r of
        Panic p \<Rightarrow> Panic p
      | Ret False \<Rightarrow> policy mat act def rs
      | Ret True \<Rightarrow>
          if act r = RuleActionAllow then Ret (Allowed (Some r))
          else if act r = RuleActionDeny then Ret (Denied (Some r))
          else policy mat act def rs)"

definition deciding :: "('r \<Rightarrow> bool outcome) \<Rightarrow> ('r \<Rightarrow> RuleAction) \<Rightarrow> 'r \<Rightarrow> bool" where
  "deciding mat act r \<longleftrightarrow> mat r = Ret True \<and> recognised (act r)"

definition passed_over :: "('r \<Rightarrow> bool outcome) \<Rightarrow> ('r \<Rightarrow> RuleAction) \<Rightarrow> 'r \<Rightarrow> bool" where
  "passed_over mat act r \<longleftrightarrow> mat r = Ret False \<or> mat r = Ret True \<and> \<not> recognised (act r)"

definition rule_verdict :: "('r \<Rightarrow> RuleAction) \<Rightarrow> 'r \<Rightarrow> 'r verdict" where
  "rule_verdict act r = (if act r = RuleActionAllow then Allowed (Some r) else Denied (Some r))"

definition default_verdict :: "RuleAction \<Rightarrow> 'r verdict" where
  "default_verdict def = (if def = RuleActionAllow then Allowed None else Denied None)"

lemma policy_passed_over:
  "passed_over mat act r \<Longrightarrow> policy mat act def (r # rs) = policy mat act def rs"
  by (auto simp: passed_over_def recognised_def)

lemma policy_deciding:
  "deciding mat act r \<Longrightarrow> policy mat act def (r # rs) = Ret (rule_verdict act r)"
  by (auto simp: deciding_def recognised_def rule_verdict_def)

lemma policy_skip:
  "\<forall>u\<in>set us. passed_over mat act u \<Longrightarrow> policy mat act def (us @ rs) = policy mat act def rs"
  by (induction us) (simp_all add: policy_passed_over del: policy.simps)

lemma policy_default:
  "\<forall>u\<in>set us. passed_over mat act u \<Longrightarrow> policy mat act def us = Ret (default_verdict def)"
  using policy_skip [of us mat act def "[]"] by (simp add: default_verdict_def)

lemma deciding_or_passed:
  "mat r = Ret b \<Longrightarrow> deciding mat act r \<or> passed_over mat act r"
  by (cases b) (auto simp: deciding_def passed_over_def)

lemma policy_disj:
  "policy mat act def rs = Ret v \<Longrightarrow>
     (\<exists>us r vs. rs = us @ r # vs \<and> (\<forall>u\<in>set us. passed_over mat act u) \<and> deciding mat act r
        \<and> v = rule_verdict act r)
     \<or> (\<forall>u\<in>set rs. passed_over mat act u) \<and> v = default_verdict def"
proof (induction rs)
  case Nil
  then show ?case by (auto simp: default_verdict_def)
next
  case (Cons r rs)
  have "returns (mat r)"
    using Cons.prems by (cases "mat r") simp_all
  then obtain b where "mat r = Ret b" by (rule returnsE)
  then consider "deciding mat act r" | "passed_over mat act r"
    using deciding_or_passed [of mat r b act] by blast
  then show ?case
  proof cases
    case 1
    with Cons.prems have "v = rule_verdict act r" by (simp add: policy_deciding del: policy.simps)
    with 1 have "r # rs = [] @ r # rs \<and> (\<forall>u\<in>set []. passed_over mat act u) \<and> deciding mat act r
        \<and> v = rule_verdict act r" by simp
    then show ?thesis by blast
  next
    case 2
    with Cons.prems have "policy mat act def rs = Ret v"
      by (simp add: policy_passed_over del: policy.simps)
    from Cons.IH [OF this] show ?thesis
    proof (elim disjE exE conjE)
      fix us x vs
      assume "rs = us @ x # vs" "\<forall>u\<in>set us. passed_over mat act u" "deciding mat act x"
        "v = rule_verdict act x"
      with 2 have "r # rs = (r # us) @ x # vs \<and> (\<forall>u\<in>set (r # us). passed_over mat act u)
          \<and> deciding mat act x \<and> v = rule_verdict act x" by simp
      then show ?thesis by blast
    next
      assume "\<forall>u\<in>set rs. passed_over mat act u" "v = default_verdict def"
      with 2 show ?thesis by simp
    qed
  qed
qed

lemma policy_cases:
  assumes "policy mat act def rs = Ret v"
  obtains (rule) us r vs where "rs = us @ r # vs" "\<forall>u\<in>set us. passed_over mat act u"
      "deciding mat act r" "v = rule_verdict act r"
    | (fallback) "\<forall>u\<in>set rs. passed_over mat act u" "v = default_verdict def"
  using policy_disj [OF assms] by blast

lemma policy_returns: "(\<And>r. r \<in> set rs \<Longrightarrow> returns (mat r)) \<Longrightarrow> returns (policy mat act def rs)"
proof (induction rs)
  case Nil
  then show ?case by simp
next
  case (Cons r rs)
  then obtain b where "mat r = Ret b" by (metis list.set_intros(1) returnsE)
  with Cons show ?case by (cases b) auto
qed

section \<open>What a kind of rule provides\<close>

text \<open>
  A kind of rule has a matching function, an action and a priority; some of its rules have no
  condition, and those match every request.
\<close>

locale rule_kind =
  fixes mat :: "'r \<Rightarrow> 'q \<Rightarrow> bool outcome"
    and act :: "'r \<Rightarrow> RuleAction"
    and prio :: "'r \<Rightarrow> int"
    and unconditional :: "'r \<Rightarrow> bool"
  assumes unconditional_matches: "unconditional r \<Longrightarrow> mat r q = Ret True"
begin

lemma least_priority:
  assumes "policy (\<lambda>r. mat r q) act def rs = Ret v" and "sorted (map prio rs)"
    and "r' \<in> set rs" and "deciding (\<lambda>r. mat r q) act r'"
  shows "\<exists>r\<in>set rs. deciding (\<lambda>r. mat r q) act r \<and> v = rule_verdict act r \<and> prio r \<le> prio r'"
  using assms(1)
proof (cases rule: policy_cases)
  case (rule us r vs)
  have "r' \<notin> set us"
    using rule(2) assms(4) by (auto simp: deciding_def passed_over_def)
  with assms(3) rule(1) have "r' \<in> set (r # vs)" by auto
  with assms(2) rule(1) have "prio r \<le> prio r'" by (auto simp: sorted_append)
  with rule show ?thesis by auto
next
  case fallback
  with assms(3,4) show ?thesis by (auto simp: deciding_def passed_over_def)
qed

lemma closing_rule:
  assumes "unconditional c" and "recognised (act c)"
  shows "policy (\<lambda>r. mat r q) act def (rs @ c # rs') = policy (\<lambda>r. mat r q) act def' (rs @ [c])"
proof (induction rs)
  case Nil
  have "deciding (\<lambda>r. mat r q) act c"
    using assms by (simp add: deciding_def unconditional_matches)
  then show ?case by (simp add: policy_deciding del: policy.simps)
next
  case (Cons r rs)
  then show ?case by (simp split: outcome.splits bool.splits)
qed

end

end
