(* ===== verification/Rules.thy ===== *)
theory Rules
  imports JsonRpc HttpUtils Policy
begin

text \<open>
  \<open>src/pkg/cosmoguard/rules.go\<close>: the three kinds of rules, their compilation and matching.
  The glob library (\<open>gobwas/glob\<close>) is a parameter: a compiler, which takes the pattern and
  the separators and fails on a malformed pattern (\<open>MustCompile\<close> then panics), and a matcher.
\<close>

record 'g globber =
  g_compile :: "string \<Rightarrow> string \<Rightarrow> 'g option"
  g_match :: "'g \<Rightarrow> string \<Rightarrow> bool"

definition MustCompile :: "'g globber \<Rightarrow> string \<Rightarrow> string \<Rightarrow> 'g outcome" where
  "MustCompile gl p seps = (case g_compile gl p seps of
      Some g \<Rightarrow> Ret g | None \<Rightarrow> Panic ''glob: malformed pattern'')"

fun MustCompile_all :: "'g globber \<Rightarrow> string \<Rightarrow> string list \<Rightarrow> 'g list outcome" where
  "MustCompile_all gl seps [] = Ret []"
| "MustCompile_all gl seps (p # ps) =
     bind_o (MustCompile gl p seps) (\<lambda>g. bind_o (MustCompile_all gl seps ps) (\<lambda>gs. Ret (g # gs)))"

fun any_glob :: "'g globber \<Rightarrow> 'g list \<Rightarrow> string \<Rightarrow> bool" where
  "any_glob gl [] s = False"
| "any_glob gl (g # gs) s = (if g_match gl g s then True else any_glob gl gs s)"

text \<open>A glob library whose patterns match themselves only, for concrete runs.\<close>

definition exact_glob :: "string globber" where
  "exact_glob = \<lparr>g_compile = (\<lambda>p _. Some p), g_match = (=)\<rparr>"

text \<open>What a pattern matches, compiled on the spot.\<close>

definition pattern_matches :: "'g globber \<Rightarrow> string \<Rightarrow> string \<Rightarrow> string \<Rightarrow> bool" where
  "pattern_matches gl seps p s \<longleftrightarrow> (case g_compile gl p seps of Some g \<Rightarrow> g_match gl g s | None \<Rightarrow> False)"

lemma MustCompile_Ret: "MustCompile gl p seps = Ret g \<longleftrightarrow> g_compile gl p seps = Some g"
  by (simp add: MustCompile_def split: option.split)

lemma any_glob_iff: "any_glob gl gs s \<longleftrightarrow> (\<exists>g\<in>set gs. g_match gl g s)"
  by (induction gs) auto

lemma any_glob_compiled:
  "MustCompile_all gl seps ps = Ret gs \<Longrightarrow>
     any_glob gl gs s \<longleftrightarrow> (\<exists>p\<in>set ps. pattern_matches gl seps p s)"
proof (induction ps arbitrary: gs)
  case Nil
  then show ?case by simp
next
  case (Cons p ps)
  then obtain g gs' where "g_compile gl p seps = Some g" "MustCompile_all gl seps ps = Ret gs'"
    "gs = g # gs'"
    by (auto simp: bind_o_Ret_iff MustCompile_Ret)
  with Cons.IH show ?case by (simp add: pattern_matches_def)
qed

lemma MustCompile_all_Nil_iff: "MustCompile_all gl seps ps = Ret [] \<longleftrightarrow> ps = []"
  by (cases ps) (auto simp: bind_o_Ret_iff)

section \<open>HTTP rules\<close>

record 'g HttpRule =
  hr_Priority :: int
  hr_Action :: RuleAction
  hr_Paths :: "string list"
  hr_Methods :: "string list"
  hr_Cache :: "RuleCache option"
  hr_PathGlobs :: "'g list"

definition HttpRule_Compile :: "'g globber \<Rightarrow> 'g HttpRule \<Rightarrow> 'g HttpRule outcome" where
  "HttpRule_Compile gl r =
     (if length (hr_Paths r) > 0 then
        bind_o (MustCompile_all gl ''/'' (hr_Paths r)) (\<lambda>gs. Ret (r\<lparr>hr_PathGlobs := gs\<rparr>))
      else Ret r)"

definition HttpRule_Match :: "'g globber \<Rightarrow> 'g HttpRule \<Rightarrow> Request \<Rightarrow> bool" where
  "HttpRule_Match gl r req =
     (if length (hr_Methods r) > 0 \<and> \<not> SliceContainsStringIgnoreCase (hr_Methods r) (rq_Method req)
      then False
      else if length (hr_Paths r) = 0 then True
      else any_glob gl (hr_PathGlobs r) (rq_Path req))"

lemma HttpRule_Match_compiled:
  assumes "HttpRule_Compile gl r = Ret r'"
  shows "HttpRule_Match gl r' req \<longleftrightarrow>
    (hr_Methods r = [] \<or> (\<exists>m\<in>set (hr_Methods r). EqualFold m (rq_Method req)))
    \<and> (hr_Paths r = [] \<or> (\<exists>p\<in>set (hr_Paths r). pattern_matches gl ''/'' p (rq_Path req)))"
proof (cases "hr_Paths r = []")
  case True
  with assms show ?thesis
    by (auto simp: HttpRule_Compile_def HttpRule_Match_def SliceContainsStringIgnoreCase_iff)
next
  case False
  with assms obtain gs where "MustCompile_all gl ''/'' (hr_Paths r) = Ret gs"
    and "r' = r\<lparr>hr_PathGlobs := gs\<rparr>"
    by (auto simp: HttpRule_Compile_def bind_o_Ret_iff)
  with False any_glob_compiled [of gl "''/''"] show ?thesis
    by (auto simp: HttpRule_Match_def SliceContainsStringIgnoreCase_iff)
qed

definition HttpRule_unconditional :: "'g HttpRule \<Rightarrow> bool" where
  "HttpRule_unconditional r \<longleftrightarrow> hr_Methods r = [] \<and> hr_Paths r = []"

interpretation http_rules: rule_kind "\<lambda>r req. Ret (HttpRule_Match gl r req)" hr_Action hr_Priority
  HttpRule_unconditional for gl
  by unfold_locales (simp add: HttpRule_Match_def HttpRule_unconditional_def)

section \<open>gRPC rules\<close>

record 'g GrpcRule =
  gr_Priority :: int
  gr_Action :: RuleAction
  gr_Methods :: "string list"
  gr_MethodGlobs :: "'g list"

definition GrpcRule_Compile :: "'g globber \<Rightarrow> 'g GrpcRule \<Rightarrow> 'g GrpcRule outcome" where
  "GrpcRule_Compile gl r =
     (if length (gr_Methods r) > 0 then
        bind_o (MustCompile_all gl ''/'' (gr_Methods r)) (\<lambda>gs. Ret (r\<lparr>gr_MethodGlobs := gs\<rparr>))
      else Ret r)"

definition GrpcRule_Match :: "'g globber \<Rightarrow> 'g GrpcRule \<Rightarrow> string \<Rightarrow> bool" where
  "GrpcRule_Match gl r meth =
     (if length (gr_Methods r) = 0 then True else any_glob gl (gr_MethodGlobs r) meth)"

lemma GrpcRule_Match_compiled:
  assumes "GrpcRule_Compile gl r = Ret r'"
  shows "GrpcRule_Match gl r' meth \<longleftrightarrow>
    gr_Methods r = [] \<or> (\<exists>p\<in>set (gr_Methods r). pattern_matches gl ''/'' p meth)"
proof (cases "gr_Methods r = []")
  case True
  with assms show ?thesis by (simp add: GrpcRule_Compile_def GrpcRule_Match_def)
next
  case False
  with assms obtain gs where "MustCompile_all gl ''/'' (gr_Methods r) = Ret gs"
    and "r' = r\<lparr>gr_MethodGlobs := gs\<rparr>"
    by (auto simp: GrpcRule_Compile_def bind_o_Ret_iff)
  with False any_glob_compiled [of gl "''/''"] show ?thesis
    by (auto simp: GrpcRule_Match_def)
qed

definition GrpcRule_unconditional :: "'g GrpcRule \<Rightarrow> bool" where
  "GrpcRule_unconditional r \<longleftrightarrow> gr_Methods r = []"

interpretation grpc_rules: rule_kind "\<lambda>r m. Ret (GrpcRule_Match gl r m)" gr_Action gr_Priority
  GrpcRule_unconditional for gl
  by unfold_locales (simp add: GrpcRule_Match_def GrpcRule_unconditional_def)

section \<open>JSON-RPC rules\<close>

record 'g JsonRpcRule =
  jq_Priority :: int
  jq_Action :: RuleAction
  jq_Methods :: "string list"
  jq_Params :: any
  jq_Cache :: "RuleCache option"
  jq_MethodGlobs :: "'g list"
  jq_ParamsGlobs :: "(string, 'g) gomap"
  jq_ParamsMap :: bool
  jq_ParamsSlice :: bool

fun compile_param :: "'g globber \<Rightarrow> string \<Rightarrow> any \<Rightarrow> (string, 'g) gomap \<Rightarrow> (string, 'g) gomap outcome" where
  "compile_param gl key (GStr value) globs =
     bind_o (MustCompile gl value ''/'') (\<lambda>g. Ret (gm_put key g globs))"
| "compile_param gl key _ globs = Ret globs"

fun compile_params_map ::
  "'g globber \<Rightarrow> (string \<times> any) list \<Rightarrow> (string, 'g) gomap \<Rightarrow> (string, 'g) gomap outcome" where
  "compile_params_map gl [] globs = Ret globs"
| "compile_params_map gl ((key, v) # m) globs =
     bind_o (compile_param gl key v globs) (compile_params_map gl m)"

fun compile_params_slice ::
  "'g globber \<Rightarrow> nat \<Rightarrow> any list \<Rightarrow> (string, 'g) gomap \<Rightarrow> (string, 'g) gomap outcome" where
  "compile_params_slice gl i [] globs = Ret globs"
| "compile_params_slice gl i (v # vs) globs =
     bind_o (compile_param gl (Itoa (int i)) v globs) (compile_params_slice gl (Suc i) vs)"

definition JsonRpcRule_Compile_params :: "'g globber \<Rightarrow> 'g JsonRpcRule \<Rightarrow> 'g JsonRpcRule outcome" where
  "JsonRpcRule_Compile_params gl r =
     (case jq_Params r of
        GMap m \<Rightarrow> bind_o (compile_params_map gl m (jq_ParamsGlobs r))
          (\<lambda>globs. Ret (r\<lparr>jq_ParamsMap := m \<noteq> [], jq_ParamsGlobs := globs\<rparr>))
      | GSlice vs \<Rightarrow> bind_o (compile_params_slice gl 0 vs (jq_ParamsGlobs r))
          (\<lambda>globs. Ret (r\<lparr>jq_ParamsSlice := vs \<noteq> [], jq_ParamsGlobs := globs\<rparr>))
      | _ \<Rightarrow> Ret r)"

definition JsonRpcRule_Compile :: "'g globber \<Rightarrow> 'g JsonRpcRule \<Rightarrow> 'g JsonRpcRule outcome" where
  "JsonRpcRule_Compile gl r =
     bind_o (if length (jq_Methods r) > 0
             then bind_o (MustCompile_all gl [] (jq_Methods r)) (\<lambda>gs. Ret (r\<lparr>jq_MethodGlobs := gs\<rparr>))
             else Ret r)
       (JsonRpcRule_Compile_params gl)"

text \<open>
  The two matching loops.  A missing key of the request reads as nil; an index past the end
  of the request's slice panics.
\<close>

definition any_of :: "any option \<Rightarrow> any" where
  "any_of x = (case x of None \<Rightarrow> GNil | Some v \<Rightarrow> v)"

fun match_params_map ::
  "'g globber \<Rightarrow> (string, 'g) gomap \<Rightarrow> (string \<times> any) list \<Rightarrow> (string \<times> any) list \<Rightarrow> bool outcome" where
  "match_params_map gl globs reqp [] = Ret True"
| "match_params_map gl globs reqp ((key, v) # m) =
     (case gm_get globs key of
        Some g \<Rightarrow>
          (case gm_get reqp key of
             None \<Rightarrow> Ret False
           | Some (GStr s) \<Rightarrow> if \<not> g_match gl g s then Ret False else match_params_map gl globs reqp m
           | Some _ \<Rightarrow> Ret False)
      | None \<Rightarrow>
          bind_o (any_eq v (any_of (gm_get reqp key)))
            (\<lambda>eq. if \<not> eq then Ret False else match_params_map gl globs reqp m))"

fun match_params_slice ::
  "'g globber \<Rightarrow> (string, 'g) gomap \<Rightarrow> any list \<Rightarrow> nat \<Rightarrow> any list \<Rightarrow> bool outcome" where
  "match_params_slice gl globs reqp i [] = Ret True"
| "match_params_slice gl globs reqp i (v # vs) =
     (if i < length reqp then
        (case gm_get globs (Itoa (int i)) of
           Some g \<Rightarrow>
             (case reqp ! i of
                GStr s \<Rightarrow> if \<not> g_match gl g s then Ret False
                  else match_params_slice gl globs reqp (Suc i) vs
              | _ \<Rightarrow> Ret False)
         | None \<Rightarrow>
             bind_o (any_eq v (reqp ! i))
               (\<lambda>eq. if \<not> eq then Ret False else match_params_slice gl globs reqp (Suc i) vs))
      else Panic ''index out of range'')"

definition JsonRpcRule_Match :: "'g globber \<Rightarrow> 'g JsonRpcRule \<Rightarrow> JsonRpcMsg \<Rightarrow> bool outcome" where
  "JsonRpcRule_Match gl r req =
     (if \<not> (length (jq_Methods r) = 0 \<or> any_glob gl (jq_MethodGlobs r) (jm_Method req)) then Ret False
      else if \<not> (jq_ParamsMap r \<or> jq_ParamsSlice r) then Ret True
      else case jm_Params req of
          GMap requestParams \<Rightarrow>
            if \<not> jq_ParamsMap r then Ret True
            else (case jq_Params r of
                GMap m \<Rightarrow> match_params_map gl (jq_ParamsGlobs r) requestParams m
              | _ \<Rightarrow> Ret False)
        | GSlice requestParams \<Rightarrow>
            if \<not> jq_ParamsSlice r then Ret True
            else (case jq_Params r of
                GSlice vs \<Rightarrow> match_params_slice gl (jq_ParamsGlobs r) requestParams 0 vs
              | _ \<Rightarrow> Ret False)
        | _ \<Rightarrow> Ret False)"

definition JsonRpcRule_unconditional :: "'g JsonRpcRule \<Rightarrow> bool" where
  "JsonRpcRule_unconditional r \<longleftrightarrow> jq_Methods r = [] \<and> \<not> jq_ParamsMap r \<and> \<not> jq_ParamsSlice r"

interpretation jsonrpc_rules: rule_kind "JsonRpcRule_Match gl" jq_Action jq_Priority
  JsonRpcRule_unconditional for gl
  by unfold_locales (simp add: JsonRpcRule_Match_def JsonRpcRule_unconditional_def)

end
