(* ===== verification/RulesSpec.thy ===== *)
theory RulesSpec
  imports Rules
begin

text \<open>
  What a compiled JSON-RPC rule matches, stated over the configured rule itself: the
  declarative condition on one parameter, and the equivalence of the matching loops with it.
\<close>

section \<open>One parameter\<close>

definition param_ok :: "'g globber \<Rightarrow> any \<Rightarrow> any \<Rightarrow> bool" where
  "param_ok gl v w = (case v of
      GStr p \<Rightarrow> (case w of GStr s \<Rightarrow> pattern_matches gl ''/'' p s | _ \<Rightarrow> False)
    | _ \<Rightarrow> any_eq v w = Ret True)"

text \<open>A rule as it comes from the configuration file, before \<open>Compile\<close>.\<close>

definition uncompiled :: "'g JsonRpcRule \<Rightarrow> bool" where
  "uncompiled r \<longleftrightarrow> jq_MethodGlobs r = [] \<and> jq_ParamsGlobs r = []
     \<and> \<not> jq_ParamsMap r \<and> \<not> jq_ParamsSlice r"

definition method_ok :: "'g globber \<Rightarrow> 'g JsonRpcRule \<Rightarrow> string \<Rightarrow> bool" where
  "method_ok gl r m \<longleftrightarrow> jq_Methods r = [] \<or> list_ex (\<lambda>p. pattern_matches gl [] p m) (jq_Methods r)"

definition param_glob :: "'g globber \<Rightarrow> any \<Rightarrow> 'g option" where
  "param_glob gl v = (case v of GStr p \<Rightarrow> g_compile gl p ''/'' | _ \<Rightarrow> None)"

fun is_str :: "any \<Rightarrow> bool" where
  "is_str (GStr _) = True"
| "is_str _ = False"

lemma compile_param_spec:
  assumes "compile_param gl key v globs = Ret globs'"
  shows "gm_get globs' = (gm_get globs)(key := if is_str v then param_glob gl v else gm_get globs key)"
    and "is_str v \<Longrightarrow> param_glob gl v \<noteq> None"
  using assms
  by (cases v; auto simp: bind_o_Ret_iff MustCompile_Ret param_glob_def fun_eq_iff)+

lemma compile_params_map_spec:
  assumes "compile_params_map gl m globs = Ret globs'" and "gm_wf m"
  shows "gm_get globs' k = (case gm_get m k of
      Some v \<Rightarrow> if is_str v then param_glob gl v else gm_get globs k | None \<Rightarrow> gm_get globs k)"
    and "(k, v) \<in> set m \<Longrightarrow> is_str v \<Longrightarrow> param_glob gl v \<noteq> None"
  using assms
proof (induction m arbitrary: globs)
  case Nil
  { case 1 then show ?case by simp }
  { case 2 then show ?case by simp }
next
  case (Cons kv m)
  obtain key w where kv: "kv = (key, w)" by (cases kv) auto
  { case 1
    then obtain g1 where g1: "compile_param gl key w globs = Ret g1"
      and rest: "compile_params_map gl m g1 = Ret globs'" by (auto simp: kv bind_o_Ret_iff)
    have "key \<notin> fst ` set m" using 1 kv by simp
    then have "gm_get m key = None" by (simp add: map_of_eq_None_iff)
    with Cons.IH(1) [OF rest] compile_param_spec(1) [OF g1] 1 kv show ?case
      by (auto split: option.splits) }
  { case 2
    then obtain g1 where g1: "compile_param gl key w globs = Ret g1"
      and rest: "compile_params_map gl m g1 = Ret globs'" by (auto simp: kv bind_o_Ret_iff)
    from 2 Cons.IH(2) [OF _ _ rest] compile_param_spec(2) [OF g1] kv show ?case by auto }
qed

lemma compile_params_slice_spec:
  assumes "compile_params_slice gl i vs globs = Ret globs'"
  shows "gm_get globs' (Itoa (int j)) =
      (if i \<le> j \<and> j < i + length vs \<and> is_str (vs ! (j - i)) then param_glob gl (vs ! (j - i))
       else gm_get globs (Itoa (int j)))"
    and "v \<in> set vs \<Longrightarrow> is_str v \<Longrightarrow> param_glob gl v \<noteq> None"
  using assms
proof (induction vs arbitrary: i globs)
  case Nil
  { case 1 then show ?case by auto }
  { case 2 then show ?case by simp }
next
  case (Cons w vs)
  { case 1
    then obtain g1 where g1: "compile_param gl (Itoa (int i)) w globs = Ret g1"
      and rest: "compile_params_slice gl (Suc i) vs g1 = Ret globs'" by (auto simp: bind_o_Ret_iff)
    have inj: "Itoa (int j) = Itoa (int i) \<longleftrightarrow> j = i" by (auto dest: Itoa_inj)
    show ?case
      using Cons.IH(1) [OF rest] compile_param_spec(1) [OF g1]
      by (cases "j = i") (auto simp: inj nth_Cons' Suc_le_eq) }
  { case 2
    then obtain g1 where g1: "compile_param gl (Itoa (int i)) w globs = Ret g1"
      and rest: "compile_params_slice gl (Suc i) vs g1 = Ret globs'" by (auto simp: bind_o_Ret_iff)
    from 2 Cons.IH(2) [OF _ _ rest] compile_param_spec(2) [OF g1] show ?case by auto }
qed

section \<open>The loop over a map\<close>

lemma match_map_step:
  assumes "gm_get globs key = (if is_str v then param_glob gl v else None)"
    and "is_str v \<Longrightarrow> param_glob gl v \<noteq> None" and "scalar v"
  shows "match_params_map gl globs reqp ((key, v) # m) =
    (if param_ok gl v (any_of (gm_get reqp key)) then match_params_map gl globs reqp m else Ret False)"
proof (cases "is_str v")
  case True
  then obtain p where v: "v = GStr p" by (cases v) auto
  with assms obtain g where g: "g_compile gl p ''/'' = Some g" by (auto simp: param_glob_def)
  show ?thesis
  proof (cases "gm_get reqp key")
    case None
    with v g assms(1) show ?thesis by (simp add: param_glob_def param_ok_def any_of_def)
  next
    case (Some w)
    with v g assms(1) show ?thesis
      by (cases w) (simp_all add: param_glob_def param_ok_def any_of_def pattern_matches_def)
  qed
next
  case False
  obtain b where b: "any_eq v (any_of (gm_get reqp key)) = Ret b"
    using any_eq_scalar_returns [OF assms(3)] by (rule returnsE)
  have "param_ok gl v (any_of (gm_get reqp key)) \<longleftrightarrow> b"
    using False b by (cases v) (simp_all add: param_ok_def)
  with False assms(1) b show ?thesis by simp
qed

lemma match_params_map_spec:
  assumes "\<And>key v. (key, v) \<in> set m \<Longrightarrow> gm_get globs key = (if is_str v then param_glob gl v else None)"
    and "\<And>key v. (key, v) \<in> set m \<Longrightarrow> is_str v \<Longrightarrow> param_glob gl v \<noteq> None"
    and "\<And>key v. (key, v) \<in> set m \<Longrightarrow> scalar v"
  shows "match_params_map gl globs reqp m =
    Ret (list_all (\<lambda>(key, v). param_ok gl v (any_of (gm_get reqp key))) m)"
  using assms
proof (induction m)
  case Nil
  then show ?case by simp
next
  case (Cons kv m)
  obtain key v where kv: "kv = (key, v)" by (cases kv) auto
  have "match_params_map gl globs reqp (kv # m) =
    (if param_ok gl v (any_of (gm_get reqp key)) then match_params_map gl globs reqp m else Ret False)"
    unfolding kv using Cons.prems(1-3) [of key v] by (intro match_map_step) (simp_all add: kv)
  moreover have "match_params_map gl globs reqp m =
      Ret (list_all (\<lambda>(key, v). param_ok gl v (any_of (gm_get reqp key))) m)"
    by (rule Cons.IH) (meson Cons.prems list.set_intros(2))+
  ultimately show ?case by (simp add: kv del: match_params_map.simps)
qed

section \<open>The loop over a slice\<close>

lemma match_slice_step:
  assumes "gm_get globs (Itoa (int i)) = (if is_str v then param_glob gl v else None)"
    and "is_str v \<Longrightarrow> param_glob gl v \<noteq> None" and "scalar v" and "i < length reqp"
  shows "match_params_slice gl globs reqp i (v # vs) =
    (if param_ok gl v (reqp ! i) then match_params_slice gl globs reqp (Suc i) vs else Ret False)"
proof (cases "is_str v")
  case True
  then obtain p where v: "v = GStr p" by (cases v) auto
  with assms obtain g where g: "g_compile gl p ''/'' = Some g" by (auto simp: param_glob_def)
  with v assms(1,4) show ?thesis
    by (cases "reqp ! i") (simp_all add: param_glob_def param_ok_def pattern_matches_def)
next
  case False
  obtain b where b: "any_eq v (reqp ! i) = Ret b"
    using any_eq_scalar_returns [OF assms(3)] by (rule returnsE)
  have "param_ok gl v (reqp ! i) \<longleftrightarrow> b"
    using False b by (cases v) (simp_all add: param_ok_def)
  with False assms(1,4) b show ?thesis by simp
qed

text \<open>
  The whole loop: it compares position by position; when the request runs out of parameters
  before the rule does, and all was well so far, the index expression panics.
\<close>

lemma match_params_slice_spec:
  assumes "\<And>j. j < length vs \<Longrightarrow> gm_get globs (Itoa (int (i + j))) =
      (if is_str (vs ! j) then param_glob gl (vs ! j) else None)"
    and "\<And>v. v \<in> set vs \<Longrightarrow> is_str v \<Longrightarrow> param_glob gl v \<noteq> None"
    and "\<And>v. v \<in> set vs \<Longrightarrow> scalar v" and "i \<le> length reqp"
  shows "match_params_slice gl globs reqp i vs =
    (if list_all (\<lambda>(v, w). param_ok gl v w) (zip vs (drop i reqp)) then
       (if length vs \<le> length (drop i reqp) then Ret True else Panic ''index out of range'')
     else Ret False)"
  using assms
proof (induction vs arbitrary: i)
  case Nil
  then show ?case by simp
next
  case (Cons v vs)
  show ?case
  proof (cases "i < length reqp")
    case False
    with Cons.prems(4) show ?thesis by simp
  next
    case True
    have step: "match_params_slice gl globs reqp i (v # vs) =
      (if param_ok gl v (reqp ! i) then match_params_slice gl globs reqp (Suc i) vs else Ret False)"
      using Cons.prems(1) [of 0] Cons.prems(2,3) True by (intro match_slice_step) auto
    have "match_params_slice gl globs reqp (Suc i) vs =
      (if list_all (\<lambda>(v, w). param_ok gl v w) (zip vs (drop (Suc i) reqp)) then
         (if length vs \<le> length (drop (Suc i) reqp) then Ret True else Panic ''index out of range'')
       else Ret False)"
    proof (rule Cons.IH)
      fix j assume "j < length vs"
      then show "gm_get globs (Itoa (int (Suc i + j))) =
          (if is_str (vs ! j) then param_glob gl (vs ! j) else None)"
        using Cons.prems(1) [of "Suc j"] by simp
    qed (use Cons.prems True in auto)
    moreover have "drop i reqp = reqp ! i # drop (Suc i) reqp"
      using True by (simp add: Cons_nth_drop_Suc)
    ultimately show ?thesis using step by simp
  qed
qed

section \<open>Compiled rules\<close>

definition scalar_params :: "any \<Rightarrow> bool" where
  "scalar_params p = (case p of
      GMap m \<Rightarrow> list_all (\<lambda>(k, v). scalar v) m
    | GSlice vs \<Rightarrow> list_all scalar vs
    | _ \<Rightarrow> True)"

lemma Compile_methods:
  assumes "JsonRpcRule_Compile gl r = Ret r'" and "uncompiled r"
  obtains r1 where
    "length (jq_Methods r1) = 0 \<or> any_glob gl (jq_MethodGlobs r1) m \<longleftrightarrow> method_ok gl r m"
    "jq_Params r1 = jq_Params r" "jq_ParamsGlobs r1 = []"
    "\<not> jq_ParamsMap r1" "\<not> jq_ParamsSlice r1" "JsonRpcRule_Compile_params gl r1 = Ret r'"
proof (cases "jq_Methods r = []")
  case True
  with assms show ?thesis
    by (intro that [of r]) (auto simp: JsonRpcRule_Compile_def uncompiled_def method_ok_def)
next
  case False
  with assms(1) obtain gs where gs: "MustCompile_all gl [] (jq_Methods r) = Ret gs"
    and r': "JsonRpcRule_Compile_params gl (r\<lparr>jq_MethodGlobs := gs\<rparr>) = Ret r'"
    unfolding JsonRpcRule_Compile_def by (auto simp: bind_o_Ret_iff)
  show ?thesis
  proof (rule that [of "r\<lparr>jq_MethodGlobs := gs\<rparr>"])
    show "length (jq_Methods (r\<lparr>jq_MethodGlobs := gs\<rparr>)) = 0
        \<or> any_glob gl (jq_MethodGlobs (r\<lparr>jq_MethodGlobs := gs\<rparr>)) m \<longleftrightarrow> method_ok gl r m"
      using False any_glob_compiled [OF gs, of m] by (simp add: method_ok_def list_ex_iff)
  qed (use assms(2) r' in \<open>simp_all add: uncompiled_def\<close>)
qed

lemma JsonRpcRule_Match_map:
  assumes "JsonRpcRule_Compile gl r = Ret r'" and "uncompiled r"
    and "jq_Params r = GMap m" and "gm_wf m" and "m \<noteq> []" and "scalar_params (GMap m)"
    and "jm_Params req = GMap reqp"
  shows "JsonRpcRule_Match gl r' req =
    Ret (method_ok gl r (jm_Method req)
      \<and> list_all (\<lambda>(key, v). param_ok gl v (any_of (gm_get reqp key))) m)"
proof -
  obtain r1 where r1: "length (jq_Methods r1) = 0 \<or> any_glob gl (jq_MethodGlobs r1) (jm_Method req)
      \<longleftrightarrow> method_ok gl r (jm_Method req)"
    "jq_Params r1 = jq_Params r" "jq_ParamsGlobs r1 = []"
    "\<not> jq_ParamsMap r1" "\<not> jq_ParamsSlice r1" "JsonRpcRule_Compile_params gl r1 = Ret r'"
    by (rule Compile_methods [OF assms(1,2)])
  from r1(2,3,6) assms(3) obtain globs where g: "compile_params_map gl m [] = Ret globs"
    and r': "r' = r1\<lparr>jq_ParamsMap := m \<noteq> [], jq_ParamsGlobs := globs\<rparr>"
    by (auto simp: JsonRpcRule_Compile_params_def bind_o_Ret_iff)
  have "match_params_map gl globs reqp m =
      Ret (list_all (\<lambda>(key, v). param_ok gl v (any_of (gm_get reqp key))) m)"
  proof (rule match_params_map_spec)
    fix key v assume kv: "(key, v) \<in> set m"
    then have "gm_get m key = Some v" using assms(4) by simp
    then show "gm_get globs key = (if is_str v then param_glob gl v else None)"
      using compile_params_map_spec(1) [OF g assms(4)] by simp
    show "is_str v \<Longrightarrow> param_glob gl v \<noteq> None"
      using compile_params_map_spec(2) [OF g assms(4) kv] .
    show "scalar v" using kv assms(6) by (auto simp: scalar_params_def list_all_iff)
  qed
  then show ?thesis using r1(1,2) assms(3,5,7) by (auto simp: r' JsonRpcRule_Match_def)
qed

lemma JsonRpcRule_Match_slice:
  assumes "JsonRpcRule_Compile gl r = Ret r'" and "uncompiled r"
    and "jq_Params r = GSlice vs" and "vs \<noteq> []" and "scalar_params (GSlice vs)"
    and "jm_Params req = GSlice reqp"
  shows "JsonRpcRule_Match gl r' req =
    (if method_ok gl r (jm_Method req) \<and> list_all (\<lambda>(v, w). param_ok gl v w) (zip vs reqp) then
       (if length vs \<le> length reqp then Ret True else Panic ''index out of range'')
     else Ret False)"
proof -
  obtain r1 where r1: "length (jq_Methods r1) = 0 \<or> any_glob gl (jq_MethodGlobs r1) (jm_Method req)
      \<longleftrightarrow> method_ok gl r (jm_Method req)"
    "jq_Params r1 = jq_Params r" "jq_ParamsGlobs r1 = []"
    "\<not> jq_ParamsMap r1" "\<not> jq_ParamsSlice r1" "JsonRpcRule_Compile_params gl r1 = Ret r'"
    by (rule Compile_methods [OF assms(1,2)])
  from r1(2,3,6) assms(3) obtain globs where g: "compile_params_slice gl 0 vs [] = Ret globs"
    and r': "r' = r1\<lparr>jq_ParamsSlice := vs \<noteq> [], jq_ParamsGlobs := globs\<rparr>"
    by (auto simp: JsonRpcRule_Compile_params_def bind_o_Ret_iff)
  have "match_params_slice gl globs reqp 0 vs =
      (if list_all (\<lambda>(v, w). param_ok gl v w) (zip vs (drop 0 reqp)) then
         (if length vs \<le> length (drop 0 reqp) then Ret True else Panic ''index out of range'')
       else Ret False)"
  proof (rule match_params_slice_spec)
    fix j assume "j < length vs"
    then show "gm_get globs (Itoa (int (0 + j))) = (if is_str (vs ! j) then param_glob gl (vs ! j) else None)"
      using compile_params_slice_spec(1) [OF g] by simp
  next
    fix v assume v: "v \<in> set vs"
    show "is_str v \<Longrightarrow> param_glob gl v \<noteq> None" using compile_params_slice_spec(2) [OF g v] .
    show "scalar v" using v assms(5) by (auto simp: scalar_params_def list_all_iff)
  qed simp
  then show ?thesis using r1(1,2,4) assms(3,4,6) by (auto simp: r' JsonRpcRule_Match_def)
qed

text \<open>A rule on named parameters does not constrain a request with positional ones.\<close>

lemma JsonRpcRule_Match_other_shape:
  assumes "JsonRpcRule_Compile gl r = Ret r'" and "uncompiled r"
    and "jq_Params r = GMap m" and "jm_Params req = GSlice reqp"
  shows "JsonRpcRule_Match gl r' req = Ret (method_ok gl r (jm_Method req))"
proof -
  obtain r1 where r1: "length (jq_Methods r1) = 0 \<or> any_glob gl (jq_MethodGlobs r1) (jm_Method req)
      \<longleftrightarrow> method_ok gl r (jm_Method req)"
    "jq_Params r1 = jq_Params r" "jq_ParamsGlobs r1 = []"
    "\<not> jq_ParamsMap r1" "\<not> jq_ParamsSlice r1" "JsonRpcRule_Compile_params gl r1 = Ret r'"
    by (rule Compile_methods [OF assms(1,2)])
  from r1(2,3,6) assms(3) obtain globs where
    r': "r' = r1\<lparr>jq_ParamsMap := m \<noteq> [], jq_ParamsGlobs := globs\<rparr>"
    by (auto simp: JsonRpcRule_Compile_params_def bind_o_Ret_iff)
  show ?thesis using r1(1,4,5) assms(4) by (auto simp: r' JsonRpcRule_Match_def)
qed

section \<open>Numbers\<close>

text \<open>
  A decoded JSON value never has dynamic type \<open>int\<close>: numbers are \<open>float64\<close>.  A number in the
  configuration file without a decimal point is an \<open>int\<close>.
\<close>

definition json_params :: "(string \<times> any) list \<Rightarrow> bool" where
  "json_params q \<longleftrightarrow> list_all (\<lambda>(k, v). case v of GInt _ \<Rightarrow> False | _ \<Rightarrow> True) q"

lemma int_param_not_json:
  "json_params q \<Longrightarrow> \<not> param_ok gl (GInt n) (any_of (gm_get q k))"
  by (auto simp: json_params_def param_ok_def any_of_def list_all_iff split: option.splits
      dest!: gm_get_in)

section \<open>The order of a map\<close>

lemma JsonRpcRule_Match_map_order:
  assumes "JsonRpcRule_Compile gl r1 = Ret r1'" and "JsonRpcRule_Compile gl r2 = Ret r2'"
    and "uncompiled r1" and "r2 = r1\<lparr>jq_Params := GMap m2\<rparr>" and "jq_Params r1 = GMap m1"
    and "gm_wf m1" and "mset m1 = mset m2" and "scalar_params (GMap m1)"
    and "jm_Params req = GMap reqp"
  shows "JsonRpcRule_Match gl r1' req = JsonRpcRule_Match gl r2' req"
proof (cases "m1 = []")
  case True
  with assms(7) have "m2 = []" by simp
  with True assms have "r2 = r1" by simp
  with assms(1,2) show ?thesis by simp
next
  case False
  have m2: "m2 \<noteq> []" using False assms(7) by auto
  have wf2: "gm_wf m2"
    using assms(6) mset_eq_imp_distinct_iff [of "map fst m1" "map fst m2"] assms(7) by simp
  have "scalar_params (GMap m2)"
    using assms(8) list_all_perm [OF assms(7)] by (simp add: scalar_params_def)
  moreover have "uncompiled r2" "jq_Params r2 = GMap m2"
    using assms(3,4) by (simp_all add: uncompiled_def)
  ultimately have "JsonRpcRule_Match gl r2' req = Ret (method_ok gl r2 (jm_Method req)
      \<and> list_all (\<lambda>(key, v). param_ok gl v (any_of (gm_get reqp key))) m2)"
    using JsonRpcRule_Match_map [OF assms(2) _ _ wf2 m2 _ assms(9)] by blast
  moreover have "method_ok gl r2 = method_ok gl r1"
    using assms(4) by (simp add: method_ok_def fun_eq_iff)
  ultimately show ?thesis
    using JsonRpcRule_Match_map [OF assms(1,3,5,6) False assms(8,9)] list_all_perm [OF assms(7)]
    by simp
qed

end
