(* ===== verification/Config.thy ===== *)
theory Config
  imports RulesSpec
begin

text \<open>
  \<open>src/pkg/cosmoguard/config.go\<close>: the configuration and its reading.  Reading the file, the
  YAML decoder (\<open>yaml.v3\<close>) and the filling of defaults (\<open>creasty/defaults\<close>) are arguments; a
  field the file does not set arrives as its zero value, the priority of a rule as 0.  Rules
  are values here: the pointers of a decoded list are distinct, and \<open>Compile\<close> writes through
  each of them once.
\<close>

section \<open>The configuration\<close>

definition cacheKey :: string where "cacheKey = ''Cache''"
definition cacheHit :: string where "cacheHit = ''hit''"
definition cacheMiss :: string where "cacheMiss = ''miss''"

record NodeConfig =
  nc_Host :: string
  nc_RpcPort :: int
  nc_LcdPort :: int
  nc_GrpcPort :: int
  nc_EvmRpcPort :: int
  nc_EvmRpcWsPort :: int

record RedisSentinelConfig =
  sc_MasterName :: string
  sc_SentinelAddrs :: "string list"

record CacheGlobalConfig =
  cg_TTL :: int
  cg_Redis :: "string option"
  cg_RedisSentinel :: "RedisSentinelConfig option"
  cg_Key :: string

record 'g LcdConfig =
  lcd_Default :: RuleAction
  lcd_Rules :: "'g HttpRule list"

record 'g JsonRpcConfig =
  jc_Default :: RuleAction
  jc_Rules :: "'g JsonRpcRule list"

record 'g RpcConfig =
  rpc_Default :: RuleAction
  rpc_Rules :: "'g HttpRule list"
  rpc_JsonRpc :: "'g JsonRpcConfig"
  rpc_WebSocketEnabled :: bool
  rpc_WebSocketConnections :: int

record 'g GrpcConfig =
  grpc_Default :: RuleAction
  grpc_Rules :: "'g GrpcRule list"

record MetricsConfig =
  mt_Enable :: bool
  mt_Port :: int

record 'g EvmRpcConfig =
  er_Default :: RuleAction
  er_Rules :: "'g JsonRpcRule list"
  er_HttpRules :: "'g HttpRule list"

record 'g EvmRpcWsConfig =
  ew_Default :: RuleAction
  ew_Rules :: "'g JsonRpcRule list"
  ew_WebSocketConnections :: int

record 'g EvmConfig =
  evm_RPC :: "'g EvmRpcConfig"
  evm_WS :: "'g EvmRpcWsConfig"

record 'g Config =
  cfg_Host :: string
  cfg_RpcPort :: int
  cfg_LcdPort :: int
  cfg_GrpcPort :: int
  cfg_EnableEvm :: bool
  cfg_EvmRpcPort :: int
  cfg_EvmRpcWsPort :: int
  cfg_Node :: NodeConfig
  cfg_Cache :: CacheGlobalConfig
  cfg_LCD :: "'g LcdConfig"
  cfg_RPC :: "'g RpcConfig"
  cfg_GRPC :: "'g GrpcConfig"
  cfg_EVM :: "'g EvmConfig"
  cfg_Metrics :: MetricsConfig

section \<open>Reading it\<close>

fun Compile_each :: "('r \<Rightarrow> 'r outcome) \<Rightarrow> 'r list \<Rightarrow> 'r list outcome" where
  "Compile_each compile [] = Ret []"
| "Compile_each compile (r # rs) =
     bind_o (compile r) (\<lambda>r'. bind_o (Compile_each compile rs) (\<lambda>rs'. Ret (r' # rs')))"

text \<open>Each list of rules is sorted by priority, then compiled.\<close>

definition prepare_rules ::
  "(int list \<Rightarrow> nat list) \<Rightarrow> ('r \<Rightarrow> int) \<Rightarrow> ('r \<Rightarrow> 'r outcome) \<Rightarrow> 'r list \<Rightarrow> 'r list outcome" where
  "prepare_rules pdq prio compile rs = Compile_each compile (sort_Slice pdq prio rs)"

record 'g config_lib =
  cl_ReadFile :: "string \<Rightarrow> err + string"
  cl_Unmarshal :: "string \<Rightarrow> err + 'g Config"
  cl_SetDefaults :: "'g Config \<Rightarrow> 'g Config \<times> err option"
  cl_pdq :: "int list \<Rightarrow> nat list"
  cl_glob :: "'g globber"

definition prepare_config :: "'g config_lib \<Rightarrow> 'g Config \<Rightarrow> 'g Config outcome" where
  "prepare_config cl cfg =
     (let pdq = cl_pdq cl; gl = cl_glob cl;
          http = prepare_rules pdq hr_Priority (HttpRule_Compile gl);
          grpc = prepare_rules pdq gr_Priority (GrpcRule_Compile gl);
          jsonrpc = prepare_rules pdq jq_Priority (JsonRpcRule_Compile gl)
      in bind_o (http (lcd_Rules (cfg_LCD cfg))) (\<lambda>lcd.
         bind_o (grpc (grpc_Rules (cfg_GRPC cfg))) (\<lambda>gr.
         bind_o (http (rpc_Rules (cfg_RPC cfg))) (\<lambda>rpc.
         bind_o (jsonrpc (jc_Rules (rpc_JsonRpc (cfg_RPC cfg)))) (\<lambda>jr.
         bind_o (jsonrpc (er_Rules (evm_RPC (cfg_EVM cfg)))) (\<lambda>er.
         bind_o (http (er_HttpRules (evm_RPC (cfg_EVM cfg)))) (\<lambda>eh.
         bind_o (jsonrpc (ew_Rules (evm_WS (cfg_EVM cfg)))) (\<lambda>ew.
           Ret (cfg\<lparr>
             cfg_LCD := (cfg_LCD cfg)\<lparr>lcd_Rules := lcd\<rparr>,
             cfg_GRPC := (cfg_GRPC cfg)\<lparr>grpc_Rules := gr\<rparr>,
             cfg_RPC := (cfg_RPC cfg)\<lparr>rpc_Rules := rpc,
               rpc_JsonRpc := (rpc_JsonRpc (cfg_RPC cfg))\<lparr>jc_Rules := jr\<rparr>\<rparr>,
             cfg_EVM := (cfg_EVM cfg)\<lparr>
               evm_RPC := (evm_RPC (cfg_EVM cfg))\<lparr>er_Rules := er, er_HttpRules := eh\<rparr>,
               evm_WS := (evm_WS (cfg_EVM cfg))\<lparr>ew_Rules := ew\<rparr>\<rparr>\<rparr>)))))))))"

text \<open>
  \<open>ReadConfigFromFile\<close> returns a pointer and an error.  After a failed read or decode the
  pointer is nil; a failure of \<open>defaults.Set\<close> comes with the configuration.
\<close>

definition ReadConfigFromFile ::
  "'g config_lib \<Rightarrow> string \<Rightarrow> ('g Config option \<times> err option) outcome" where
  "ReadConfigFromFile cl path =
     (case cl_ReadFile cl path of
        Inl e \<Rightarrow> Ret (None, Some (ErrText ''error reading config file''))
      | Inr f \<Rightarrow> (case cl_Unmarshal cl f of
            Inl e \<Rightarrow> Ret (None, Some (ErrText ''error in config file unmarshal''))
          | Inr cfg \<Rightarrow> bind_o (prepare_config cl cfg)
              (\<lambda>cfg'. case cl_SetDefaults cl cfg' of (cfg'', e) \<Rightarrow> Ret (Some cfg'', e))))"

section \<open>Facts\<close>

text \<open>Compilation keeps the configured fields, so it keeps the order of the list.\<close>

lemma Compile_each_map:
  assumes "\<And>r r'. compile r = Ret r' \<Longrightarrow> f r' = f r" and "Compile_each compile rs = Ret rs'"
  shows "map f rs' = map f rs"
  using assms(2)
proof (induction rs arbitrary: rs')
  case (Cons r rs)
  then obtain r' rs1 where "compile r = Ret r'" "Compile_each compile rs = Ret rs1" "rs' = r' # rs1"
    by (auto simp: bind_o_Ret_iff)
  with Cons.IH assms(1) show ?case by simp
qed simp

lemma Compile_each_in:
  assumes "Compile_each compile rs = Ret rs'" and "r' \<in> set rs'"
  shows "\<exists>r\<in>set rs. compile r = Ret r'"
  using assms
proof (induction rs arbitrary: rs')
  case (Cons r rs)
  then obtain r1 rs1 where "compile r = Ret r1" "Compile_each compile rs = Ret rs1" "rs' = r1 # rs1"
    by (auto simp: bind_o_Ret_iff)
  with Cons show ?case by auto
qed simp

lemma Compile_each_all2:
  "Compile_each compile rs = Ret rs' \<Longrightarrow> list_all2 (\<lambda>r r'. compile r = Ret r') rs rs'"
  by (induction rs arbitrary: rs') (auto simp: bind_o_Ret_iff)

text \<open>
  The verdict of a compiled list, read off the configured list: \<open>applies\<close> is what a configured
  rule says, and compiling a rule makes it match just that.
\<close>

lemma policy_Compile_each:
  assumes "Compile_each compile (us @ rule # vs) = Ret rs"
    and compiled: "\<And>x x'. x \<in> set (us @ [rule]) \<Longrightarrow> compile x = Ret x' \<Longrightarrow>
      mat x' = Ret (applies x) \<and> act x' = act x"
    and "\<forall>x\<in>set us. \<not> (applies x \<and> recognised (act x))"
    and "applies rule" and "recognised (act rule)"
  obtains rule' where "compile rule = Ret rule'"
    and "policy mat act def rs = Ret (rule_verdict act rule')"
proof -
  from Compile_each_all2 [OF assms(1)] obtain us' rule' vs' where
    rs: "rs = us' @ rule' # vs'" and us: "list_all2 (\<lambda>r r'. compile r = Ret r') us us'"
    and rule: "compile rule = Ret rule'"
    by (auto simp: list_all2_append1 list_all2_Cons1)
  have "\<forall>x'\<in>set us'. passed_over mat act x'"
  proof
    fix x' assume "x' \<in> set us'"
    then obtain i where i: "i < length us'" "x' = us' ! i" by (auto simp: in_set_conv_nth)
    with us have "us ! i \<in> set us" "compile (us ! i) = Ret x'"
      by (auto simp: list_all2_conv_all_nth)
    with compiled [of "us ! i" x'] assms(3) show "passed_over mat act x'"
      by (auto simp: passed_over_def)
  qed
  moreover have "deciding mat act rule'"
    using compiled [of rule rule'] rule assms(4,5) by (simp add: deciding_def)
  ultimately have "policy mat act def rs = Ret (rule_verdict act rule')"
    by (simp add: rs policy_skip policy_deciding del: policy.simps)
  with rule show ?thesis by (rule that)
qed

lemma HttpRule_Compile_fields:
  "HttpRule_Compile gl r = Ret r' \<Longrightarrow> hr_Priority r' = hr_Priority r \<and> hr_Action r' = hr_Action r"
  by (auto simp: HttpRule_Compile_def bind_o_Ret_iff split: if_splits)

lemma GrpcRule_Compile_fields:
  "GrpcRule_Compile gl r = Ret r' \<Longrightarrow> gr_Priority r' = gr_Priority r \<and> gr_Action r' = gr_Action r"
  by (auto simp: GrpcRule_Compile_def bind_o_Ret_iff split: if_splits)

lemma JsonRpcRule_Compile_params_fields:
  "JsonRpcRule_Compile_params gl r = Ret r' \<Longrightarrow> jq_Priority r' = jq_Priority r \<and> jq_Action r' = jq_Action r"
  by (cases "jq_Params r") (auto simp: JsonRpcRule_Compile_params_def bind_o_Ret_iff)

lemma JsonRpcRule_Compile_fields:
  "JsonRpcRule_Compile gl r = Ret r' \<Longrightarrow> jq_Priority r' = jq_Priority r \<and> jq_Action r' = jq_Action r"
  by (auto simp: JsonRpcRule_Compile_def bind_o_Ret_iff split: if_splits
      dest!: JsonRpcRule_Compile_params_fields)

lemma prepare_rules_spec:
  assumes "slice_sort pdq" and "\<And>r r'. compile r = Ret r' \<Longrightarrow> prio r' = prio r"
    and "prepare_rules pdq prio compile rs = Ret rs'"
  shows "sorted (map prio rs')" and "mset (map prio rs') = mset (map prio rs)"
proof -
  have eq: "map prio rs' = map prio (sort_Slice pdq prio rs)"
    using Compile_each_map [of compile prio] assms(2,3) by (simp add: prepare_rules_def)
  show "sorted (map prio rs')"
    using slice_sort.sort_Slice_sorted [OF assms(1)] eq by simp
  show "mset (map prio rs') = mset (map prio rs)"
    using slice_sort.sort_Slice_mset [OF assms(1), of prio rs] eq by simp
qed

text \<open>The seven lists of a configuration that was prepared.\<close>

definition rules_sorted :: "'g Config \<Rightarrow> bool" where
  "rules_sorted cfg \<longleftrightarrow>
     sorted (map hr_Priority (lcd_Rules (cfg_LCD cfg)))
   \<and> sorted (map gr_Priority (grpc_Rules (cfg_GRPC cfg)))
   \<and> sorted (map hr_Priority (rpc_Rules (cfg_RPC cfg)))
   \<and> sorted (map jq_Priority (jc_Rules (rpc_JsonRpc (cfg_RPC cfg))))
   \<and> sorted (map jq_Priority (er_Rules (evm_RPC (cfg_EVM cfg))))
   \<and> sorted (map hr_Priority (er_HttpRules (evm_RPC (cfg_EVM cfg))))
   \<and> sorted (map jq_Priority (ew_Rules (evm_WS (cfg_EVM cfg))))"

lemma prepare_config_sorted:
  assumes "slice_sort (cl_pdq cl)" and "prepare_config cl cfg = Ret cfg'"
  shows "rules_sorted cfg'"
proof -
  note http = prepare_rules_spec(1) [OF assms(1) HttpRule_Compile_fields [THEN conjunct1]]
  note grpc = prepare_rules_spec(1) [OF assms(1) GrpcRule_Compile_fields [THEN conjunct1]]
  note jsonrpc = prepare_rules_spec(1) [OF assms(1) JsonRpcRule_Compile_fields [THEN conjunct1]]
  show ?thesis
    using assms(2)
    by (auto simp: prepare_config_def Let_def bind_o_Ret_iff rules_sorted_def
        intro: http grpc jsonrpc)
qed

section \<open>A configuration with one list of rules\<close>

text \<open>The zero configuration, and the one whose only rules are HTTP rules of the LCD proxy.\<close>

definition zero_config :: "'g Config" where
  "zero_config = \<lparr>cfg_Host = [], cfg_RpcPort = 0, cfg_LcdPort = 0, cfg_GrpcPort = 0,
     cfg_EnableEvm = False, cfg_EvmRpcPort = 0, cfg_EvmRpcWsPort = 0,
     cfg_Node = \<lparr>nc_Host = [], nc_RpcPort = 0, nc_LcdPort = 0, nc_GrpcPort = 0,
       nc_EvmRpcPort = 0, nc_EvmRpcWsPort = 0\<rparr>,
     cfg_Cache = \<lparr>cg_TTL = 0, cg_Redis = None, cg_RedisSentinel = None, cg_Key = []\<rparr>,
     cfg_LCD = \<lparr>lcd_Default = [], lcd_Rules = []\<rparr>,
     cfg_RPC = \<lparr>rpc_Default = [], rpc_Rules = [],
       rpc_JsonRpc = \<lparr>jc_Default = [], jc_Rules = []\<rparr>,
       rpc_WebSocketEnabled = False, rpc_WebSocketConnections = 0\<rparr>,
     cfg_GRPC = \<lparr>grpc_Default = [], grpc_Rules = []\<rparr>,
     cfg_EVM = \<lparr>evm_RPC = \<lparr>er_Default = [], er_Rules = [], er_HttpRules = []\<rparr>,
       evm_WS = \<lparr>ew_Default = [], ew_Rules = [], ew_WebSocketConnections = 0\<rparr>\<rparr>,
     cfg_Metrics = \<lparr>mt_Enable = False, mt_Port = 0\<rparr>\<rparr>"

definition lcd_config :: "'g HttpRule list \<Rightarrow> 'g Config" where
  "lcd_config rs = zero_config\<lparr>cfg_LCD := \<lparr>lcd_Default = [], lcd_Rules = rs\<rparr>\<rparr>"

section \<open>The defaults of the rules\<close>

text \<open>
  The documented effect of \<open>defaults.Set\<close> on a list of rules: a priority that is zero gets the
  default of its tag, here \<open>default:"1000"\<close>; the slice keeps its order and its rules their actions,
  whose fields have no default.
\<close>

definition fills :: "('r \<Rightarrow> int) \<Rightarrow> ('r \<Rightarrow> RuleAction) \<Rightarrow> 'r list \<Rightarrow> 'r list \<Rightarrow> bool" where
  "fills prio act qs rs \<longleftrightarrow>
     list_all2 (\<lambda>q r. prio r = (if prio q = 0 then 1000 else prio q) \<and> act r = act q) qs rs"

text \<open>A property of each of the seven lists of two configurations.\<close>

definition each_list ::
  "('g HttpRule list \<Rightarrow> 'g HttpRule list \<Rightarrow> bool) \<Rightarrow> ('g GrpcRule list \<Rightarrow> 'g GrpcRule list \<Rightarrow> bool)
     \<Rightarrow> ('g JsonRpcRule list \<Rightarrow> 'g JsonRpcRule list \<Rightarrow> bool) \<Rightarrow> 'g Config \<Rightarrow> 'g Config \<Rightarrow> bool" where
  "each_list http grpc jsonrpc cfg cfg' \<longleftrightarrow>
     http (lcd_Rules (cfg_LCD cfg)) (lcd_Rules (cfg_LCD cfg'))
   \<and> grpc (grpc_Rules (cfg_GRPC cfg)) (grpc_Rules (cfg_GRPC cfg'))
   \<and> http (rpc_Rules (cfg_RPC cfg)) (rpc_Rules (cfg_RPC cfg'))
   \<and> jsonrpc (jc_Rules (rpc_JsonRpc (cfg_RPC cfg))) (jc_Rules (rpc_JsonRpc (cfg_RPC cfg')))
   \<and> jsonrpc (er_Rules (evm_RPC (cfg_EVM cfg))) (er_Rules (evm_RPC (cfg_EVM cfg')))
   \<and> http (er_HttpRules (evm_RPC (cfg_EVM cfg))) (er_HttpRules (evm_RPC (cfg_EVM cfg')))
   \<and> jsonrpc (ew_Rules (evm_WS (cfg_EVM cfg))) (ew_Rules (evm_WS (cfg_EVM cfg')))"

definition defaults_rules :: "('g Config \<Rightarrow> 'g Config \<times> err option) \<Rightarrow> bool" where
  "defaults_rules sd \<longleftrightarrow> (\<forall>cfg cfg'. sd cfg = (cfg', None) \<longrightarrow>
     each_list (fills hr_Priority hr_Action) (fills gr_Priority gr_Action) (fills jq_Priority jq_Action) cfg cfg')"

text \<open>
  How a list that was read relates to the configured one: the configured rules are sorted by the
  priorities as configured, 0 where there is none, and then the default is filled in.  So a
  rule without a priority stands before every rule with a positive one.
\<close>

definition late_default :: "('r \<Rightarrow> int) \<Rightarrow> ('r \<Rightarrow> RuleAction) \<Rightarrow> 'r list \<Rightarrow> 'r list \<Rightarrow> bool" where
  "late_default prio act configured rs \<longleftrightarrow> (\<exists>qs. mset qs = mset configured \<and> length rs = length qs
     \<and> sorted (map prio qs)
     \<and> (\<forall>i<length qs. act (rs ! i) = act (qs ! i)
         \<and> prio (rs ! i) = (if prio (qs ! i) = 0 then 1000 else prio (qs ! i)))
     \<and> (\<forall>i<length qs. \<forall>j<length qs. prio (qs ! i) = 0 \<longrightarrow> 0 < prio (qs ! j) \<longrightarrow> i < j))"

lemma late_defaultI:
  assumes "slice_sort pdq" and "\<And>r r'. compile r = Ret r' \<Longrightarrow> prio r' = prio r \<and> act r' = act r"
    and "prepare_rules pdq prio compile configured = Ret cs" and "fills prio act cs rs"
  shows "late_default prio act configured rs"
proof -
  let ?qs = "sort_Slice pdq prio configured"
  have sorted: "sorted (map prio ?qs)" by (rule slice_sort.sort_Slice_sorted [OF assms(1)])
  have "list_all2 (\<lambda>r r'. compile r = Ret r') ?qs cs"
    using Compile_each_all2 assms(3) by (simp add: prepare_rules_def)
  then have all: "list_all2 (\<lambda>q r. prio r = (if prio q = 0 then 1000 else prio q) \<and> act r = act q) ?qs rs"
    by (rule list_all2_trans [rotated, OF _ assms(4) [unfolded fills_def]]) (auto dest: assms(2))
  have "i < j" if "i < length ?qs" "j < length ?qs" "prio (?qs ! i) = 0" "0 < prio (?qs ! j)" for i j
  proof (rule ccontr)
    assume "\<not> i < j"
    then have "prio (?qs ! j) \<le> prio (?qs ! i)" using sorted_nth_mono [OF sorted, of j i] that(1) by simp
    with that(3,4) show False by simp
  qed
  with sorted all show ?thesis
    unfolding late_default_def
    by (intro exI [of _ ?qs]) (simp add: slice_sort.sort_Slice_mset [OF assms(1)] list_all2_conv_all_nth)
qed

lemma prepare_config_late_default:
  assumes "slice_sort (cl_pdq cl)" and "prepare_config cl cfg = Ret cfg1"
    and "each_list (fills hr_Priority hr_Action) (fills gr_Priority gr_Action) (fills jq_Priority jq_Action) cfg1 cfg'"
  shows "each_list (late_default hr_Priority hr_Action) (late_default gr_Priority gr_Action)
    (late_default jq_Priority jq_Action) cfg cfg'"
proof -
  note http = late_defaultI [OF assms(1) HttpRule_Compile_fields]
  note grpc = late_defaultI [OF assms(1) GrpcRule_Compile_fields]
  note jsonrpc = late_defaultI [OF assms(1) JsonRpcRule_Compile_fields]
  show ?thesis
    using assms(2,3)
    by (auto simp: prepare_config_def Let_def bind_o_Ret_iff each_list_def intro: http grpc jsonrpc)
qed

end
