(* ===== verification/ProxyOptions.thy ===== *)
theory ProxyOptions
  imports Config
begin

text \<open>
  \<open>src/pkg/cosmoguard/options.go\<close>: the functional options of the proxies and handlers.  A Go
  option that is generic in the options type is one definition per type it is used at (its
  type switch has exactly these cases).  Also the choice of the cache that \<open>NewHttpProxy\<close> and
  \<open>NewJsonRpcHandler\<close> make from the options, and the dynamic dispatch on the result.
\<close>

section \<open>Options\<close>

record SharedOptions =
  so_CacheConfig :: "CacheGlobalConfig option"
  so_MetricsEnabled :: bool

definition DefaultSharedOptions :: SharedOptions where
  "DefaultSharedOptions = \<lparr>so_CacheConfig = None, so_MetricsEnabled = True\<rparr>"

record Endpoint =
  ep_Path :: string
  ep_Method :: string

record 'h httpProxyEndpointHandler =
  eh_Endpoints :: "Endpoint list"
  eh_Handler :: 'h

record 'h HttpProxyOptions =
  ho_Shared :: SharedOptions
  ho_EndpointHandlers :: "'h httpProxyEndpointHandler list"

definition DefaultHttpProxyOptions :: "'h HttpProxyOptions" where
  "DefaultHttpProxyOptions = \<lparr>ho_Shared = DefaultSharedOptions, ho_EndpointHandlers = []\<rparr>"

record GrpcProxyOptions =
  go_Shared :: SharedOptions

definition DefaultGrpcProxyOptions :: GrpcProxyOptions where
  "DefaultGrpcProxyOptions = \<lparr>go_Shared = DefaultSharedOptions\<rparr>"

datatype upstream_kind = CosmosUpstream | EthUpstream

definition defaultWebsocketPath :: string where
  "defaultWebsocketPath = ''/websocket''"

record JsonRpcHandlerOptions =
  jo_Shared :: SharedOptions
  jo_WebsocketBackend :: string
  jo_WebsocketEnabled :: bool
  jo_WebsocketConnections :: int
  jo_WebsocketPath :: string
  jo_UpstreamConstructor :: upstream_kind

definition DefaultJsonRpcHandlerOptions :: JsonRpcHandlerOptions where
  "DefaultJsonRpcHandlerOptions = \<lparr>jo_Shared = DefaultSharedOptions,
     jo_WebsocketBackend = ''localhost:26657'', jo_WebsocketEnabled = True,
     jo_WebsocketConnections = 10, jo_WebsocketPath = defaultWebsocketPath,
     jo_UpstreamConstructor = CosmosUpstream\<rparr>"

definition WithCacheConfig_Http ::
  "CacheGlobalConfig option \<Rightarrow> 'h HttpProxyOptions \<Rightarrow> 'h HttpProxyOptions" where
  "WithCacheConfig_Http c x = x\<lparr>ho_Shared := (ho_Shared x)\<lparr>so_CacheConfig := c\<rparr>\<rparr>"

definition WithCacheConfig_JsonRpc ::
  "CacheGlobalConfig option \<Rightarrow> JsonRpcHandlerOptions \<Rightarrow> JsonRpcHandlerOptions" where
  "WithCacheConfig_JsonRpc c x = x\<lparr>jo_Shared := (jo_Shared x)\<lparr>so_CacheConfig := c\<rparr>\<rparr>"

definition WithMetricsEnabled_Http :: "bool \<Rightarrow> 'h HttpProxyOptions \<Rightarrow> 'h HttpProxyOptions" where
  "WithMetricsEnabled_Http b x = x\<lparr>ho_Shared := (ho_Shared x)\<lparr>so_MetricsEnabled := b\<rparr>\<rparr>"

definition WithMetricsEnabled_JsonRpc :: "bool \<Rightarrow> JsonRpcHandlerOptions \<Rightarrow> JsonRpcHandlerOptions" where
  "WithMetricsEnabled_JsonRpc b x = x\<lparr>jo_Shared := (jo_Shared x)\<lparr>so_MetricsEnabled := b\<rparr>\<rparr>"

definition WithMetricsEnabled_Grpc :: "bool \<Rightarrow> GrpcProxyOptions \<Rightarrow> GrpcProxyOptions" where
  "WithMetricsEnabled_Grpc b x = x\<lparr>go_Shared := (go_Shared x)\<lparr>so_MetricsEnabled := b\<rparr>\<rparr>"

definition WithEndpointHandler ::
  "Endpoint list \<Rightarrow> 'h \<Rightarrow> 'h HttpProxyOptions \<Rightarrow> 'h HttpProxyOptions" where
  "WithEndpointHandler endpoints handler x = x\<lparr>ho_EndpointHandlers :=
     ho_EndpointHandlers x @ [\<lparr>eh_Endpoints = endpoints, eh_Handler = handler\<rparr>]\<rparr>"

definition WithWebSocketBackend :: "string \<Rightarrow> JsonRpcHandlerOptions \<Rightarrow> JsonRpcHandlerOptions" where
  "WithWebSocketBackend backend x = x\<lparr>jo_WebsocketBackend := backend\<rparr>"

definition WithWebSocketEnabled :: "bool \<Rightarrow> JsonRpcHandlerOptions \<Rightarrow> JsonRpcHandlerOptions" where
  "WithWebSocketEnabled enabled x = x\<lparr>jo_WebsocketEnabled := enabled\<rparr>"

definition WithWebSocketConnections :: "int \<Rightarrow> JsonRpcHandlerOptions \<Rightarrow> JsonRpcHandlerOptions" where
  "WithWebSocketConnections v x = x\<lparr>jo_WebsocketConnections := v\<rparr>"

definition WithWebSocketPath :: "string \<Rightarrow> JsonRpcHandlerOptions \<Rightarrow> JsonRpcHandlerOptions" where
  "WithWebSocketPath path x = x\<lparr>jo_WebsocketPath := path\<rparr>"

definition WithUpstreamManager :: "upstream_kind \<Rightarrow> JsonRpcHandlerOptions \<Rightarrow> JsonRpcHandlerOptions" where
  "WithUpstreamManager constructor x = x\<lparr>jo_UpstreamConstructor := constructor\<rparr>"

text \<open>Options are applied in the order they are given.\<close>

definition apply_options :: "('o \<Rightarrow> 'o) list \<Rightarrow> 'o \<Rightarrow> 'o" where
  "apply_options opts cfg = fold (\<lambda>opt. opt) opts cfg"

section \<open>The cache of a proxy\<close>

type_synonym ('m, 's) any_cache = "'m MemoryCache + 's RedisCache"

definition setup_cache ::
  "('m, 'k namespacedKey, 'v) ttlcache \<Rightarrow> ('s, 'o) redis \<Rightarrow> string \<Rightarrow> CacheGlobalConfig option
     \<Rightarrow> err + ('m, 's) any_cache" where
  "setup_cache t r name cacheConfig =
     (let cacheOptions = (case cacheConfig of Some c \<Rightarrow> [DefaultTTL (cg_TTL c)] | None \<Rightarrow> [])
      in case cacheConfig of
           None \<Rightarrow> Inr (Inl (NewMemoryCache t name cacheOptions))
         | Some c \<Rightarrow>
             if cg_Redis c \<noteq> None \<or> cg_RedisSentinel c \<noteq> None then
               (let sentinel = map_option (\<lambda>s. \<lparr>rs_MasterName = sc_MasterName s,
                      rs_Addrs = sc_SentinelAddrs s\<rparr>) (cg_RedisSentinel c)
                in case NewRedisCache r (cg_Redis c) sentinel (cg_Key c @ name) cacheOptions of
                     Inl e \<Rightarrow> Inl e
                   | Inr rc \<Rightarrow> Inr (Inr rc))
             else Inr (Inl (NewMemoryCache t name cacheOptions)))"

definition any_cache_api ::
  "('m, 'k namespacedKey, 'v) ttlcache \<Rightarrow> ('s, 'o) redis \<Rightarrow> 'v msgpack \<Rightarrow> ('k \<Rightarrow> string)
     \<Rightarrow> (('m, 's) any_cache, 'k, 'v) cache_api" where
  "any_cache_api t r mp fmt = \<lparr>
     c_set = (\<lambda>k v ttl c. case c of
        Inl m \<Rightarrow> (case MemoryCache_Set t k v ttl m of (e, m') \<Rightarrow> (e, Inl m'))
      | Inr s \<Rightarrow> (case RedisCache_Set r mp fmt k v ttl s of (e, s') \<Rightarrow> (e, Inr s'))),
     c_get = (\<lambda>k c. case c of
        Inl m \<Rightarrow> (case MemoryCache_Get t k m of (x, m') \<Rightarrow> (x, Inl m'))
      | Inr s \<Rightarrow> (case RedisCache_Get r mp fmt k s of (x, s') \<Rightarrow> (x, Inr s'))),
     c_has = (\<lambda>k c. case c of
        Inl m \<Rightarrow> (case MemoryCache_Has t k m of (x, m') \<Rightarrow> (x, Inl m'))
      | Inr s \<Rightarrow> (case RedisCache_Has r fmt k s of (x, s') \<Rightarrow> (x, Inr s')))\<rparr>"

definition any_cache_live ::
  "('m \<Rightarrow> 'k namespacedKey \<Rightarrow> 'v option) \<Rightarrow> 'v msgpack \<Rightarrow> ('k \<Rightarrow> string)
     \<Rightarrow> ('s \<Rightarrow> string \<Rightarrow> string option) \<Rightarrow> ('m, 's) any_cache \<Rightarrow> 'k \<Rightarrow> 'v option" where
  "any_cache_live tlive mp fmt rlive c k = (case c of
      Inl m \<Rightarrow> MemoryCache_live tlive m k
    | Inr s \<Rightarrow> RedisCache_live mp fmt rlive s k)"

text \<open>Whichever cache the options choose, the handlers get one that keeps the contract.\<close>

locale cache_backends = memory_backend t t_live + redis_store r mp fmt r_live others
  for t :: "('m, 'k namespacedKey, 'v) ttlcache" and t_live
    and r :: "('s, 'o) redis" and mp :: "'v msgpack" and fmt :: "'k \<Rightarrow> string"
    and r_live others

lemma any_cache_Inl:
  "c_set (any_cache_api t r mp fmt) k v ttl (Inl m) =
     (fst (c_set (MemoryCache_api t) k v ttl m), Inl (snd (c_set (MemoryCache_api t) k v ttl m)))"
  "c_get (any_cache_api t r mp fmt) k (Inl m) =
     (fst (c_get (MemoryCache_api t) k m), Inl (snd (c_get (MemoryCache_api t) k m)))"
  "c_has (any_cache_api t r mp fmt) k (Inl m) =
     (fst (c_has (MemoryCache_api t) k m), Inl (snd (c_has (MemoryCache_api t) k m)))"
  "any_cache_live tl' mp fmt rl (Inl m) = MemoryCache_live tl' m"
  by (simp_all add: any_cache_api_def any_cache_live_def MemoryCache_api_def fun_eq_iff
      split: prod.split)

lemma any_cache_Inr:
  "c_set (any_cache_api t r mp fmt) k v ttl (Inr s) =
     (fst (c_set (RedisCache_api r mp fmt) k v ttl s), Inr (snd (c_set (RedisCache_api r mp fmt) k v ttl s)))"
  "c_get (any_cache_api t r mp fmt) k (Inr s) =
     (fst (c_get (RedisCache_api r mp fmt) k s), Inr (snd (c_get (RedisCache_api r mp fmt) k s)))"
  "c_has (any_cache_api t r mp fmt) k (Inr s) =
     (fst (c_has (RedisCache_api r mp fmt) k s), Inr (snd (c_has (RedisCache_api r mp fmt) k s)))"
  "any_cache_live tl' mp fmt rl (Inr s) = RedisCache_live mp fmt rl s"
  by (simp_all add: any_cache_api_def any_cache_live_def RedisCache_api_def fun_eq_iff
      split: prod.split)

sublocale cache_backends \<subseteq> both: cache_contract "any_cache_api t r mp fmt"
  "any_cache_live t_live mp fmt r_live" "RedisCache_foreign mp fmt others"
proof unfold_locales
  fix k k' v w ttl c e c'
  assume "c_set (any_cache_api t r mp fmt) k v ttl c = (e, c')"
    "any_cache_live t_live mp fmt r_live c' k' = Some w"
  then show "any_cache_live t_live mp fmt r_live c k' = Some w \<or> k' = k \<and> w = v
      \<or> RedisCache_foreign mp fmt others k' w"
    using mem.set_live [of k v ttl _ _ _ k' w, OF surjective_pairing]
      red.set_live [of k v ttl _ _ _ k' w, OF surjective_pairing]
    by (cases c) (fastforce simp only: any_cache_Inl any_cache_Inr prod.inject)+
next
  fix k k' w c x c'
  assume "c_get (any_cache_api t r mp fmt) k c = (x, c')"
    "any_cache_live t_live mp fmt r_live c' k' = Some w"
  then show "any_cache_live t_live mp fmt r_live c k' = Some w \<or> RedisCache_foreign mp fmt others k' w"
    using mem.get_live [of k _ _ _ k' w, OF surjective_pairing]
      red.get_live [of k _ _ _ k' w, OF surjective_pairing]
    by (cases c) (fastforce simp only: any_cache_Inl any_cache_Inr prod.inject)+
next
  fix k k' w c b c'
  assume "c_has (any_cache_api t r mp fmt) k c = (b, c')"
    "any_cache_live t_live mp fmt r_live c' k' = Some w"
  then show "any_cache_live t_live mp fmt r_live c k' = Some w \<or> RedisCache_foreign mp fmt others k' w"
    using mem.has_live [of k _ _ _ k' w, OF surjective_pairing]
      red.has_live [of k _ _ _ k' w, OF surjective_pairing]
    by (cases c) (fastforce simp only: any_cache_Inl any_cache_Inr prod.inject)+
next
  fix k v c c'
  assume get: "c_get (any_cache_api t r mp fmt) k c = (Inr v, c')"
  show "any_cache_live t_live mp fmt r_live c k = Some v"
  proof (cases c)
    case (Inl m)
    with get have "fst (c_get (MemoryCache_api t) k m) = Inr v" by (simp add: any_cache_Inl)
    then show ?thesis using mem.get_value [of k m v] Inl by (simp add: any_cache_Inl prod_eq_iff)
  next
    case (Inr s)
    with get have "fst (c_get (RedisCache_api r mp fmt) k s) = Inr v" by (simp add: any_cache_Inr)
    then show ?thesis using red.get_value [of k s v] Inr by (simp add: any_cache_Inr prod_eq_iff)
  qed
qed

interpretation ref_both: cache_backends ref_ttlcache ref_live ref_redis string_msgpack "\<lambda>k. k"
  ref_live "\<lambda>_ _. False"
  by unfold_locales

section \<open>A quiet memory cache\<close>

text \<open>
  The memory cache over the reference store, when no time passes: what is live stays live, and
  what was set is found.
\<close>

abbreviation quiet :: "('k, 'v) ref_store MemoryCache \<Rightarrow> bool" where
  "quiet m \<equiv> rf_delays (mc_cache m) = []"

definition mem_put ::
  "'k \<Rightarrow> 'v \<Rightarrow> int \<Rightarrow> ('k namespacedKey, 'v) ref_store MemoryCache \<Rightarrow> ('k namespacedKey, 'v) ref_store MemoryCache" where
  "mem_put k v ttl m = snd (MemoryCache_Set ref_ttlcache k v ttl m)"

lemma ref_tick_quiet: "rf_delays s = [] \<Longrightarrow> ref_tick s = s"
  by (simp add: ref_tick_def)

lemma quiet_memory:
  assumes "quiet m"
  shows "c_has (any_cache_api ref_ttlcache r mp fmt) k (Inl m) =
      ((MemoryCache_live ref_live m k \<noteq> None, None), Inl m)"
    and "c_get (any_cache_api ref_ttlcache r mp fmt) k (Inl m) =
      (case MemoryCache_live ref_live m k of None \<Rightarrow> Inl ErrNotFound | Some v \<Rightarrow> Inr v, Inl m)"
    and "c_set (any_cache_api ref_ttlcache r mp fmt) k v ttl (Inl m) = (None, Inl (mem_put k v ttl m))"
  using assms
  by (simp_all add: any_cache_api_def MemoryCache_defs ref_ttlcache_def ref_tick_quiet
      MemoryCache_live_def mem_put_def Let_def split: option.split)

lemma quiet_mem_put:
  assumes "quiet m"
  shows "quiet (mem_put k v ttl m)"
    and "MemoryCache_live ref_live (mem_put k v ttl m) k' =
      (if k' = k then Some v else MemoryCache_live ref_live m k')"
  using assms
  by (simp_all add: mem_put_def MemoryCache_defs ref_ttlcache_def ref_tick_quiet MemoryCache_live_def
      ref_live_put Let_def) (simp_all add: ref_put_def)

end
