(* ===== verification/HttpProxy.thy ===== *)
theory HttpProxy
  imports ProxyOptions
begin

text \<open>
  \<open>src/pkg/cosmoguard/http_proxy.go\<close>: the HTTP proxy, its rules, its cache of responses and
  the endpoints it hands to other handlers.

  The reverse proxy to the upstream is a parameter: given a request and the body it reads, it
  makes a list of calls on the response writer and changes the world \<open>'u\<close> beyond the proxy.
  An endpoint handler is a parameter too; it works on the same world.  Observations of the
  histogram are the list of their labels; durations and log lines are not modelled, and
  requests are served one after the other.
\<close>

section \<open>State\<close>

record CachedResponse =
  cr_Data :: string
  cr_StatusCode :: nat

record ('g, 'c, 'h) HttpProxy =
  hp_defaultAction :: RuleAction
  hp_rules :: "'g HttpRule list"
  hp_cache :: 'c
  hp_endpointHandlers :: "'h httpProxyEndpointHandler list"
  hp_responseTimeHist :: "string list list option"

record ('g, 'c, 'h, 'u) http_env =
  he_glob :: "'g globber"
  he_cache :: "('c, string, CachedResponse) cache_api"
  he_digest :: "string \<Rightarrow> string"
  he_grow :: "nat \<Rightarrow> nat"
  he_proxy :: "Request \<Rightarrow> string \<Rightarrow> 'u \<Rightarrow> wcall list \<times> 'u"
  he_handle :: "'h \<Rightarrow> ResponseWriter \<Rightarrow> Request \<Rightarrow> 'u \<Rightarrow> ResponseWriter outcome \<times> 'u"

definition NewHttpProxy ::
  "('m, string namespacedKey, CachedResponse) ttlcache \<Rightarrow> ('s, 'o) redis \<Rightarrow> (string \<Rightarrow> err option)
     \<Rightarrow> string \<Rightarrow> string \<Rightarrow> string \<Rightarrow> ('h HttpProxyOptions \<Rightarrow> 'h HttpProxyOptions) list
     \<Rightarrow> err + ('g, ('m, 's) any_cache, 'h) HttpProxy" where
  "NewHttpProxy t r url_Parse name localAddr remoteAddr opts =
     (let cfg = apply_options opts DefaultHttpProxyOptions
      in case url_Parse remoteAddr of
           Some e \<Rightarrow> Inl e
         | None \<Rightarrow> (case setup_cache t r name (so_CacheConfig (ho_Shared cfg)) of
             Inl e \<Rightarrow> Inl e
           | Inr c \<Rightarrow> Inr \<lparr>hp_defaultAction = [], hp_rules = [], hp_cache = c,
               hp_endpointHandlers = ho_EndpointHandlers cfg,
               hp_responseTimeHist =
                 (if so_MetricsEnabled (ho_Shared cfg) then Some [] else None)\<rparr>))"

definition HttpProxy_SetRules ::
  "'g HttpRule list \<Rightarrow> RuleAction \<Rightarrow> ('g, 'c, 'h) HttpProxy \<Rightarrow> ('g, 'c, 'h) HttpProxy" where
  "HttpProxy_SetRules rules defaultAction p =
     p\<lparr>hp_rules := rules, hp_defaultAction := defaultAction\<rparr>"

section \<open>Serving\<close>

definition HttpProxy_observe :: "string list \<Rightarrow> ('g, 'c, 'h) HttpProxy \<Rightarrow> ('g, 'c, 'h) HttpProxy" where
  "HttpProxy_observe labels p =
     p\<lparr>hp_responseTimeHist := map_option (\<lambda>l. l @ [labels]) (hp_responseTimeHist p)\<rparr>"

text \<open>The reverse proxy reads the request's body and writes to the wrapper.\<close>

definition proxy_ServeHTTP ::
  "('g, 'c, 'h, 'u) http_env \<Rightarrow> ResponseWriterWrapper \<Rightarrow> Request \<Rightarrow> reusableReader \<Rightarrow> 'u
     \<Rightarrow> ResponseWriterWrapper \<times> 'u" where
  "proxy_ServeHTTP L ww r body u =
     (case fst (io_ReadAll (he_grow L) body) of
        Inl _ \<Rightarrow> (ww, u)
      | Inr b \<Rightarrow> (case he_proxy L r b u of (cs, u') \<Rightarrow> (wrapper_calls cs ww, u')))"

definition getRequestHash ::
  "('g, 'c, 'h, 'u) http_env \<Rightarrow> Request \<Rightarrow> reusableReader \<Rightarrow> (err + string) \<times> reusableReader" where
  "getRequestHash L req body =
     (case io_ReadAll (he_grow L) body of
        (Inl e, body') \<Rightarrow> (Inl e, body')
      | (Inr b, body') \<Rightarrow> (Inr (Sha256 (he_digest L) (rq_Method req @ rq_URL req @ b)), body'))"

definition HttpProxy_cacheHit ::
  "('g, 'c, 'h, 'u) http_env \<Rightarrow> ResponseWriter \<Rightarrow> Request \<Rightarrow> string \<Rightarrow> ('g, 'c, 'h) HttpProxy
     \<Rightarrow> ResponseWriter \<times> ('g, 'c, 'h) HttpProxy" where
  "HttpProxy_cacheHit L w r requestHash p =
     (case c_get (he_cache L) requestHash (hp_cache p) of
        (Inl err, c) \<Rightarrow> (w, p\<lparr>hp_cache := c\<rparr>)
      | (Inr res, c) \<Rightarrow>
          (WriteData (cr_StatusCode res) (cr_Data res)
             [cacheKey, cacheHit, ''Content-Type'', ''application/json''] w,
           HttpProxy_observe [rq_Method r, Itoa 200, cacheHit, RuleActionAllow] (p\<lparr>hp_cache := c\<rparr>)))"

definition HttpProxy_cacheMiss ::
  "('g, 'c, 'h, 'u) http_env \<Rightarrow> ResponseWriter \<Rightarrow> Request \<Rightarrow> reusableReader \<Rightarrow> string \<Rightarrow> RuleCache
     \<Rightarrow> ('g, 'c, 'h) HttpProxy \<Rightarrow> 'u \<Rightarrow> ResponseWriter \<times> ('g, 'c, 'h) HttpProxy \<times> 'u" where
  "HttpProxy_cacheMiss L w r body requestHash cache p u =
     (let w1 = Header_Add ''Cache'' cacheMiss w
      in case proxy_ServeHTTP L (WrapResponseWriter w1) r body u of
        (ww, u') \<Rightarrow>
          (let status = Wrapper_GetStatusCode ww;
               p1 = HttpProxy_observe [rq_Method r, Itoa (int status), cacheMiss, RuleActionAllow] p
           in if status \<le> 0 then (ww_w ww, p1, u')
              else case Wrapper_GetWrittenBytes ww of
                  (Inl err, ww') \<Rightarrow> (ww_w ww', p1, u')
                | (Inr b, ww') \<Rightarrow>
                    if status \<noteq> 200 \<and> \<not> rc_CacheError cache then (ww_w ww', p1, u')
                    else (case c_set (he_cache L) requestHash
                            \<lparr>cr_Data = b, cr_StatusCode = status\<rparr> (rc_TTL cache) (hp_cache p1) of
                        (err, c) \<Rightarrow> (ww_w ww', p1\<lparr>hp_cache := c\<rparr>, u'))))"

definition HttpProxy_allow ::
  "('g, 'c, 'h, 'u) http_env \<Rightarrow> ResponseWriter \<Rightarrow> Request \<Rightarrow> reusableReader \<Rightarrow> RuleCache option
     \<Rightarrow> ('g, 'c, 'h) HttpProxy \<Rightarrow> 'u \<Rightarrow> ResponseWriter \<times> ('g, 'c, 'h) HttpProxy \<times> 'u" where
  "HttpProxy_allow L w r body cache p u =
     (let plain = (\<lambda>body. case proxy_ServeHTTP L (WrapResponseWriter w) r body u of
          (ww, u') \<Rightarrow> (ww_w ww, HttpProxy_observe [rq_Method r, Itoa (int (Wrapper_GetStatusCode ww)),
              cacheMiss, RuleActionAllow] p, u'))
      in case cache of
           None \<Rightarrow> plain body
         | Some rc \<Rightarrow>
             if \<not> rc_Enable rc then plain body
             else (case getRequestHash L r body of
                 (Inl err, body') \<Rightarrow> plain body'
               | (Inr hash, body') \<Rightarrow>
                   (case c_has (he_cache L) hash (hp_cache p) of
                      ((cached, err), c) \<Rightarrow>
                        if cached then
                          (case HttpProxy_cacheHit L w r hash (p\<lparr>hp_cache := c\<rparr>) of
                             (w', p') \<Rightarrow> (w', p', u))
                        else HttpProxy_cacheMiss L w r body' hash rc (p\<lparr>hp_cache := c\<rparr>) u)))"

definition HttpProxy_deny ::
  "ResponseWriter \<Rightarrow> Request \<Rightarrow> ('g, 'c, 'h) HttpProxy \<Rightarrow> ResponseWriter \<times> ('g, 'c, 'h) HttpProxy" where
  "HttpProxy_deny w r p =
     (WriteError 401 ''unauthorized'' [] w,
      HttpProxy_observe [rq_Method r, Itoa 401, cacheMiss, RuleActionDeny] p)"

fun find_endpoint :: "Request \<Rightarrow> 'h httpProxyEndpointHandler list \<Rightarrow> 'h option" where
  "find_endpoint r [] = None"
| "find_endpoint r (handler # hs) =
     (if list_ex (\<lambda>e. ep_Method e = rq_Method r \<and> ep_Path e = rq_Path r) (eh_Endpoints handler)
      then Some (eh_Handler handler) else find_endpoint r hs)"

fun HttpProxy_rules_loop ::
  "('g, 'c, 'h, 'u) http_env \<Rightarrow> ResponseWriter \<Rightarrow> Request \<Rightarrow> reusableReader \<Rightarrow> 'g HttpRule list
     \<Rightarrow> ('g, 'c, 'h) HttpProxy \<Rightarrow> 'u \<Rightarrow> ResponseWriter \<times> ('g, 'c, 'h) HttpProxy \<times> 'u" where
  "HttpProxy_rules_loop L w r body [] p u =
     (if hp_defaultAction p = RuleActionAllow then HttpProxy_allow L w r body None p u
      else (case HttpProxy_deny w r p of (w', p') \<Rightarrow> (w', p', u)))"
| "HttpProxy_rules_loop L w r body (rule # rules) p u =
     (if HttpRule_Match (he_glob L) rule r then
        if hr_Action rule = RuleActionAllow then HttpProxy_allow L w r body (hr_Cache rule) p u
        else if hr_Action rule = RuleActionDeny then
          (case HttpProxy_deny w r p of (w', p') \<Rightarrow> (w', p', u))
        else HttpProxy_rules_loop L w r body rules p u
      else HttpProxy_rules_loop L w r body rules p u)"

definition HttpProxy_ServeHTTP ::
  "('g, 'c, 'h, 'u) http_env \<Rightarrow> ResponseWriter \<Rightarrow> Request \<Rightarrow> ('g, 'c, 'h) HttpProxy \<Rightarrow> 'u
     \<Rightarrow> ResponseWriter outcome \<times> ('g, 'c, 'h) HttpProxy \<times> 'u" where
  "HttpProxy_ServeHTTP L w r p u =
     (case find_endpoint r (hp_endpointHandlers p) of
        Some handler \<Rightarrow> (case he_handle L handler w r u of (out, u') \<Rightarrow> (out, p, u'))
      | None \<Rightarrow> (case HttpProxy_rules_loop L w r (ReusableReader (rq_Body r)) (hp_rules p) p u of
          (w', p', u') \<Rightarrow> (Ret w', p', u')))"

section \<open>The rule loop implements the policy\<close>

definition HttpProxy_policy ::
  "('g, 'c, 'h, 'u) http_env \<Rightarrow> Request \<Rightarrow> ('g, 'c, 'h) HttpProxy \<Rightarrow> 'g HttpRule verdict outcome" where
  "HttpProxy_policy L r p =
     policy (\<lambda>rule. Ret (HttpRule_Match (he_glob L) rule r)) hr_Action (hp_defaultAction p) (hp_rules p)"

definition verdict_cache :: "'g HttpRule option \<Rightarrow> RuleCache option" where
  "verdict_cache rule = (case rule of None \<Rightarrow> None | Some x \<Rightarrow> hr_Cache x)"

lemma HttpProxy_rules_loop_policy:
  "\<exists>v. policy (\<lambda>rule. Ret (HttpRule_Match (he_glob L) rule r)) hr_Action (hp_defaultAction p) rules = Ret v
     \<and> HttpProxy_rules_loop L w r body rules p u =
      (case v of
         Allowed rule \<Rightarrow> HttpProxy_allow L w r body (verdict_cache rule) p u
       | Denied _ \<Rightarrow> (WriteError 401 ''unauthorized'' [] w,
           HttpProxy_observe [rq_Method r, Itoa 401, cacheMiss, RuleActionDeny] p, u))"
  by (induction rules) (auto simp: verdict_cache_def HttpProxy_deny_def)

text \<open>The HTTP rules never make the goroutine panic.\<close>

definition answered :: "ResponseWriter \<times> 'p \<times> 'u \<Rightarrow> ResponseWriter outcome \<times> 'p \<times> 'u" where
  "answered x = (case x of (w, p, u) \<Rightarrow> (Ret w, p, u))"

lemma answered_simps [simp]:
  "answered (w, p, u) = (Ret w, p, u)"
  "answered x = (out, p', u') \<longleftrightarrow> (\<exists>w. out = Ret w \<and> x = (w, p', u'))"
  by (auto simp: answered_def split: prod.split)

lemma HttpProxy_ServeHTTP_loop:
  "find_endpoint r (hp_endpointHandlers p) = None \<Longrightarrow> HttpProxy_ServeHTTP L w r p u =
     answered (HttpProxy_rules_loop L w r (ReusableReader (rq_Body r)) (hp_rules p) p u)"
  by (simp add: HttpProxy_ServeHTTP_def answered_def)

lemma HttpProxy_policy_returns: "returns (HttpProxy_policy L r p)"
  unfolding HttpProxy_policy_def by (rule policy_returns) simp

lemma HttpProxy_ServeHTTP_verdict:
  assumes "find_endpoint r (hp_endpointHandlers p) = None" and "HttpProxy_policy L r p = Ret v"
  shows "HttpProxy_ServeHTTP L w r p u = answered
    (case v of
       Allowed rule \<Rightarrow> HttpProxy_allow L w r (ReusableReader (rq_Body r)) (verdict_cache rule) p u
     | Denied _ \<Rightarrow> (WriteError 401 ''unauthorized'' [] w,
         HttpProxy_observe [rq_Method r, Itoa 401, cacheMiss, RuleActionDeny] p, u))"
  using HttpProxy_rules_loop_policy [of L r p "hp_rules p" w "ReusableReader (rq_Body r)" u] assms
  by (auto simp: HttpProxy_ServeHTTP_loop HttpProxy_policy_def)

lemma policy_Allowed_in:
  "policy mat act def rules = Ret (Allowed (Some rule)) \<Longrightarrow> rule \<in> set rules"
  by (induction rules) (auto split: outcome.splits bool.splits if_splits)

section \<open>The body is there for the upstream\<close>

lemma ReusableReader_simps [simp]:
  "readBuf (ReusableReader b) = bs_data b" "backBuf (ReusableReader b) = []"
  by (simp_all add: ReusableReader_def)

lemma io_ReadAll_eq:
  "io_ReadAll grow r = (Inr (readBuf r), \<lparr>readBuf = backBuf r @ readBuf r, backBuf = []\<rparr>)"
  by (simp add: io_ReadAll_def ReadAll_loop_spec)

lemma io_ReadAll_rewound: "backBuf r = [] \<Longrightarrow> io_ReadAll grow r = (Inr (readBuf r), r)"
  by (simp add: io_ReadAll_eq)

lemma proxy_ServeHTTP_eq:
  "proxy_ServeHTTP L ww r body u =
     (wrapper_calls (fst (he_proxy L r (readBuf body) u)) ww, snd (he_proxy L r (readBuf body) u))"
  by (simp add: proxy_ServeHTTP_def io_ReadAll_eq split: prod.splits)

definition request_hash :: "('g, 'c, 'h, 'u) http_env \<Rightarrow> Request \<Rightarrow> string \<Rightarrow> string" where
  "request_hash L r b = Sha256 (he_digest L) (rq_Method r @ rq_URL r @ b)"

lemma getRequestHash_eq:
  "backBuf body = [] \<Longrightarrow> getRequestHash L r body = (Inr (request_hash L r (readBuf body)), body)"
  by (simp add: getRequestHash_def request_hash_def io_ReadAll_rewound)

text \<open>The status and the body the wrapper records do not depend on the writer it wraps.\<close>

definition recorded :: "wcall list \<Rightarrow> CachedResponse" where
  "recorded cs = \<lparr>cr_Data = written cs,
     cr_StatusCode = ww_statusCode (wrapper_calls cs (WrapResponseWriter new_writer))\<rparr>"

lemma statusCode_calls:
  "ww_statusCode v = ww_statusCode w \<Longrightarrow>
     ww_statusCode (wrapper_calls cs v) = ww_statusCode (wrapper_calls cs w)"
proof (induction cs arbitrary: v w)
  case (Cons c cs)
  from Cons.prems have "ww_statusCode (wrapper_call c v) = ww_statusCode (wrapper_call c w)"
    by (cases c) (simp_all add: Wrapper_Write_def Wrapper_WriteHeader_def Let_def)
  from Cons.IH [OF this] show ?case by (simp add: wrapper_calls_def)
qed (simp add: wrapper_calls_def)

lemma WrapResponseWriter_simps [simp]:
  "ww_w (WrapResponseWriter w) = w" "ww_buf (WrapResponseWriter w) = []"
  "ww_statusCode (WrapResponseWriter w) = 0"
  by (simp_all add: WrapResponseWriter_def)

lemma recorded_simps [simp]:
  "ww_statusCode (wrapper_calls cs (WrapResponseWriter w)) = cr_StatusCode (recorded cs)"
  "cr_Data (recorded cs) = written cs"
  by (simp_all add: recorded_def statusCode_calls [of "WrapResponseWriter w"
      "WrapResponseWriter new_writer"])

lemma recorded_one_status:
  "one_status cs \<Longrightarrow> w_status w = 0 \<Longrightarrow> cr_StatusCode (recorded cs) = w_status (writer_calls cs w)"
  using one_status_agree [of cs "WrapResponseWriter w"] by simp

section \<open>The four ways a request is answered\<close>

lemma HttpProxy_allow_plain:
  assumes "case rc of None \<Rightarrow> True | Some x \<Rightarrow> \<not> rc_Enable x"
    and "he_proxy L r (readBuf body) u = (cs, u')"
  shows "HttpProxy_allow L w r body rc p u = (writer_calls cs w,
    HttpProxy_observe [rq_Method r, Itoa (int (cr_StatusCode (recorded cs))), cacheMiss,
      RuleActionAllow] p, u')"
  using assms
  by (auto simp: HttpProxy_allow_def proxy_ServeHTTP_eq wrapper_calls_writer
      Wrapper_GetStatusCode_def split: option.splits)

lemma HttpProxy_allow_hit:
  assumes "rc_Enable rc" and "backBuf body = []"
    and "c_has (he_cache L) (request_hash L r (readBuf body)) (hp_cache p) = ((True, err), c1)"
    and "c_get (he_cache L) (request_hash L r (readBuf body)) c1 = (Inr res, c2)"
  shows "HttpProxy_allow L w r body (Some rc) p u =
    (WriteData (cr_StatusCode res) (cr_Data res)
       [cacheKey, cacheHit, ''Content-Type'', ''application/json''] w,
     HttpProxy_observe [rq_Method r, Itoa 200, cacheHit, RuleActionAllow] (p\<lparr>hp_cache := c2\<rparr>), u)"
  using assms by (simp add: HttpProxy_allow_def getRequestHash_eq HttpProxy_cacheHit_def)

lemma HttpProxy_allow_lost:
  assumes "rc_Enable rc" and "backBuf body = []"
    and "c_has (he_cache L) (request_hash L r (readBuf body)) (hp_cache p) = ((True, err), c1)"
    and "c_get (he_cache L) (request_hash L r (readBuf body)) c1 = (Inl e, c2)"
  shows "HttpProxy_allow L w r body (Some rc) p u = (w, p\<lparr>hp_cache := c2\<rparr>, u)"
  using assms by (simp add: HttpProxy_allow_def getRequestHash_eq HttpProxy_cacheHit_def)

lemma HttpProxy_cacheMiss_eq:
  assumes "he_proxy L r (readBuf body) u = (cs, u')"
  shows "HttpProxy_cacheMiss L w r body key rc p u =
    (writer_calls cs (Header_Add ''Cache'' cacheMiss w),
     HttpProxy_observe [rq_Method r, Itoa (int (cr_StatusCode (recorded cs))), cacheMiss, RuleActionAllow]
       (p\<lparr>hp_cache :=
          if cr_StatusCode (recorded cs) = 0
            \<or> cr_StatusCode (recorded cs) \<noteq> 200 \<and> \<not> rc_CacheError rc then hp_cache p
          else snd (c_set (he_cache L) key (recorded cs) (rc_TTL rc) (hp_cache p))\<rparr>),
     u')"
proof -
  have rec: "\<lparr>cr_Data = written cs, cr_StatusCode = cr_StatusCode (recorded cs)\<rparr> = recorded cs"
    by (rule CachedResponse.equality) simp_all
  obtain e c where set: "c_set (he_cache L) key (recorded cs) (rc_TTL rc) (hp_cache p) = (e, c)"
    by (cases "c_set (he_cache L) key (recorded cs) (rc_TTL rc) (hp_cache p)")
  have cache: "hp_cache (HttpProxy_observe ls p) = hp_cache p"
    and upd: "(HttpProxy_observe ls p)\<lparr>hp_cache := c'\<rparr> = HttpProxy_observe ls (p\<lparr>hp_cache := c'\<rparr>)"
    and same: "p\<lparr>hp_cache := hp_cache p\<rparr> = p" for ls c'
    by (simp_all add: HttpProxy_observe_def)
  consider "cr_StatusCode (recorded cs) = 0"
    | "cr_StatusCode (recorded cs) \<noteq> 0" "cr_StatusCode (recorded cs) \<noteq> 200 \<and> \<not> rc_CacheError rc"
    | "cr_StatusCode (recorded cs) \<noteq> 0" "\<not> (cr_StatusCode (recorded cs) \<noteq> 200 \<and> \<not> rc_CacheError rc)"
    by blast
  then show ?thesis
    by cases (auto simp: HttpProxy_cacheMiss_def proxy_ServeHTTP_eq assms wrapper_calls_writer
        wrapper_calls_buf Wrapper_GetStatusCode_def Wrapper_GetWrittenBytes_def Let_def
        cache upd same rec set del: One_nat_def)
qed

lemma HttpProxy_allow_miss:
  assumes "rc_Enable rc" and "backBuf body = []"
    and "c_has (he_cache L) (request_hash L r (readBuf body)) (hp_cache p) = ((False, err), c1)"
  shows "HttpProxy_allow L w r body (Some rc) p u =
    HttpProxy_cacheMiss L w r body (request_hash L r (readBuf body)) rc (p\<lparr>hp_cache := c1\<rparr>) u"
  using assms by (simp add: HttpProxy_allow_def getRequestHash_eq)

section \<open>What the cache holds\<close>

text \<open>
  A cached response is what the upstream answered to some request with that hash; error
  responses are there only if some rule asks for them.
\<close>

definition http_cached ::
  "('g, 'c, 'h, 'u) http_env \<Rightarrow> bool \<Rightarrow> string \<Rightarrow> CachedResponse \<Rightarrow> bool" where
  "http_cached L errors key res \<longleftrightarrow>
     (\<exists>r b u. key = request_hash L r b \<and> res = recorded (fst (he_proxy L r b u)))
     \<and> cr_StatusCode res \<noteq> 0 \<and> (cr_StatusCode res = 200 \<or> errors)"

definition rules_cache_errors :: "'g HttpRule list \<Rightarrow> bool" where
  "rules_cache_errors rules \<longleftrightarrow>
     (\<exists>rule\<in>set rules. \<exists>rc. hr_Cache rule = Some rc \<and> rc_Enable rc \<and> rc_CacheError rc)"

lemma HttpProxy_observe_cache [simp]: "hp_cache (HttpProxy_observe ls p) = hp_cache p"
  by (simp add: HttpProxy_observe_def)

lemma HttpProxy_observe_rules [simp]:
  "hp_rules (HttpProxy_observe ls p) = hp_rules p"
  "hp_defaultAction (HttpProxy_observe ls p) = hp_defaultAction p"
  "hp_endpointHandlers (HttpProxy_observe ls p) = hp_endpointHandlers p"
  by (simp_all add: HttpProxy_observe_def)

locale http_cache = cache_contract api live foreign
  for api :: "('c, string, CachedResponse) cache_api" and live foreign
begin

lemma allow_holds_all:
  assumes api: "he_cache L = api" and P: "holds_all (http_cached L errors) (hp_cache p)"
    and errs: "\<And>rc. cache = Some rc \<Longrightarrow> rc_Enable rc \<Longrightarrow> rc_CacheError rc \<Longrightarrow> errors"
    and fresh: "backBuf body = []"
    and run: "HttpProxy_allow L w r body cache p u = (w', p', u')"
  shows "holds_all (http_cached L errors) (hp_cache p')"
proof (cases "case cache of None \<Rightarrow> True | Some x \<Rightarrow> \<not> rc_Enable x")
  case True
  obtain cs u1 where "he_proxy L r (readBuf body) u = (cs, u1)" by fastforce
  from HttpProxy_allow_plain [OF True this] run P show ?thesis by auto
next
  case False
  then obtain rc where rc: "cache = Some rc" "rc_Enable rc" by (auto split: option.splits)
  let ?key = "request_hash L r (readBuf body)"
  obtain b err c1 where has: "c_has api ?key (hp_cache p) = ((b, err), c1)"
    by (metis surj_pair)
  have P1: "holds_all (http_cached L errors) c1" using holds_all_has [OF P has] .
  show ?thesis
  proof (cases b)
    case True
    obtain x c2 where get: "c_get api ?key c1 = (x, c2)" by fastforce
    have "hp_cache p' = c2"
      using HttpProxy_allow_hit [of rc body L r p err c1 _ c2 w u]
        HttpProxy_allow_lost [of rc body L r p err c1 _ c2 w u] rc fresh has get run True api
      by (cases x) auto
    with holds_all_get [OF P1 get] show ?thesis by simp
  next
    case False
    obtain cs u1 where up: "he_proxy L r (readBuf body) u = (cs, u1)" by fastforce
    obtain e c2 where set: "c_set api ?key (recorded cs) (rc_TTL rc) c1 = (e, c2)" by fastforce
    have "hp_cache p' = (if cr_StatusCode (recorded cs) = 0
        \<or> cr_StatusCode (recorded cs) \<noteq> 200 \<and> \<not> rc_CacheError rc then c1 else c2)"
      using HttpProxy_allow_miss [of rc body L r p err c1 w u] rc fresh has run False api set
      by (auto simp: HttpProxy_cacheMiss_eq [OF up])
    moreover have "http_cached L errors ?key (recorded cs)"
      if "\<not> (cr_StatusCode (recorded cs) = 0
        \<or> cr_StatusCode (recorded cs) \<noteq> 200 \<and> \<not> rc_CacheError rc)"
      using that errs [OF rc] up unfolding http_cached_def by (metis fst_conv)
    ultimately show ?thesis using P1 holds_all_set [OF P1 _ set] by auto
  qed
qed

lemma ServeHTTP_holds_all:
  assumes api: "he_cache L = api"
    and P: "holds_all (http_cached L (rules_cache_errors (hp_rules p))) (hp_cache p)"
    and run: "HttpProxy_ServeHTTP L w r p u = (out, p', u')"
  shows "holds_all (http_cached L (rules_cache_errors (hp_rules p))) (hp_cache p')"
proof (cases "find_endpoint r (hp_endpointHandlers p)")
  case (Some h)
  with run P show ?thesis by (auto simp: HttpProxy_ServeHTTP_def split: prod.splits)
next
  case None
  obtain v where v: "HttpProxy_policy L r p = Ret v"
    using HttpProxy_policy_returns by (rule returnsE)
  note run' = run [unfolded HttpProxy_ServeHTTP_verdict [OF None v]]
  show ?thesis
  proof (cases v)
    case (Denied x)
    with run' P show ?thesis by auto
  next
    case (Allowed rule)
    have "rules_cache_errors (hp_rules p)"
      if "verdict_cache rule = Some rc" "rc_Enable rc" "rc_CacheError rc" for rc
      using that v Allowed unfolding HttpProxy_policy_def rules_cache_errors_def verdict_cache_def
      by (cases rule) (auto dest: policy_Allowed_in)
    moreover obtain w' where "HttpProxy_allow L w r (ReusableReader (rq_Body r)) (verdict_cache rule) p u
        = (w', p', u')"
      using run' Allowed by auto
    ultimately show ?thesis using P api
      by (intro allow_holds_all [of L _ p "verdict_cache rule" "ReusableReader (rq_Body r)" w r u w' p' u'])
        auto
  qed
qed

lemma hit_holds_all:
  assumes "holds_all (http_cached L errors) c" and "c_get api key c = (Inr res, c')"
  shows "http_cached L errors key res"
  using holds_all_value assms .

end

text \<open>The contract is met by the cache that the options choose, whichever it is.\<close>

locale http_backends = cache_backends t t_live r mp "\<lambda>k. k" r_live others
  for t :: "('m, string namespacedKey, CachedResponse) ttlcache" and t_live
    and r :: "('s, 'o) redis" and mp and r_live others

sublocale http_backends \<subseteq> http: http_cache "any_cache_api t r mp (\<lambda>k. k)"
  "any_cache_live t_live mp (\<lambda>k. k) r_live" "RedisCache_foreign mp (\<lambda>k. k) others"
  by unfold_locales

context http_backends
begin

lemma ServeHTTP_live:
  assumes "he_cache L = any_cache_api t r mp (\<lambda>k. k)"
    and "\<And>k v. any_cache_live t_live mp (\<lambda>k. k) r_live (hp_cache p) k = Some v \<or>
        RedisCache_foreign mp (\<lambda>k. k) others k v \<Longrightarrow>
      http_cached L (rules_cache_errors (hp_rules p)) k v"
    and "HttpProxy_ServeHTTP L w q p u = (out, p', u')"
    and "any_cache_live t_live mp (\<lambda>k. k) r_live (hp_cache p') k = Some v"
  shows "http_cached L (rules_cache_errors (hp_rules p)) k v"
  using http.ServeHTTP_holds_all [OF assms(1) _ assms(3)] assms(2,4)
  unfolding both.holds_all_def by blast

end

definition response_msgpack :: "CachedResponse msgpack" where
  "response_msgpack = \<lparr>
     mp_Marshal = (\<lambda>x. Inr (nat_digits (cr_StatusCode x) @ '':'' @ cr_Data x)),
     mp_Unmarshal = (\<lambda>s. case digits_val 0 (takeWhile (\<lambda>c. c \<noteq> CHR '':'') s) of
         None \<Rightarrow> Inl (ErrText ''malformed'')
       | Some n \<Rightarrow> Inr \<lparr>cr_Data = tl (dropWhile (\<lambda>c. c \<noteq> CHR '':'') s), cr_StatusCode = n\<rparr>)\<rparr>"

lemma response_msgpack_roundtrip:
  assumes "mp_Marshal response_msgpack x = Inr b"
  shows "mp_Unmarshal response_msgpack b = Inr x"
proof -
  have no: "\<forall>c\<in>set (nat_digits n). c \<noteq> CHR '':''" for n
    using nat_digits_not [of "CHR '':''" n] by (auto simp: digit_val_def)
  from assms have "b = nat_digits (cr_StatusCode x) @ '':'' @ cr_Data x"
    by (simp add: response_msgpack_def)
  with no [of "cr_StatusCode x"] show ?thesis
    by (simp add: response_msgpack_def takeWhile_append dropWhile_append digits_val_nat_digits)
qed

interpretation ref_http: http_backends ref_ttlcache ref_live ref_redis response_msgpack ref_live "\<lambda>_ _. False"
  by unfold_locales
    (auto simp: ref_redis_def Let_def ref_live_put response_msgpack_roundtrip
      dest: ref_live_tick split: if_splits option.splits)

section \<open>Requests and configured rules\<close>

definition HttpRule_applies :: "'g globber \<Rightarrow> 'g HttpRule \<Rightarrow> Request \<Rightarrow> bool" where
  "HttpRule_applies gl r req \<longleftrightarrow>
     (hr_Methods r = [] \<or> list_ex (\<lambda>m. EqualFold m (rq_Method req)) (hr_Methods r))
     \<and> (hr_Paths r = [] \<or> list_ex (\<lambda>p. pattern_matches gl ''/'' p (rq_Path req)) (hr_Paths r))"

lemma HttpRule_compiled_applies:
  "HttpRule_Compile gl r = Ret r' \<Longrightarrow> Ret (HttpRule_Match gl r' req) = Ret (HttpRule_applies gl r req)
     \<and> hr_Action r' = hr_Action r"
  by (simp add: HttpRule_Match_compiled HttpRule_Compile_fields HttpRule_applies_def list_ex_iff)

lemma HttpRule_Compile_cache: "HttpRule_Compile gl r = Ret r' \<Longrightarrow> hr_Cache r' = hr_Cache r"
  by (auto simp: HttpRule_Compile_def bind_o_Ret_iff split: if_splits)

lemma HttpProxy_policy_first:
  assumes "Compile_each (HttpRule_Compile (he_glob L)) (us @ rule # vs) = Ret (hp_rules p)"
    and "\<forall>x\<in>set us. \<not> (HttpRule_applies (he_glob L) x r \<and> recognised (hr_Action x))"
    and "HttpRule_applies (he_glob L) rule r" and "recognised (hr_Action rule)"
  obtains rule' where "hr_Cache rule' = hr_Cache rule" "hr_Action rule' = hr_Action rule"
    and "HttpProxy_policy L r p = Ret (rule_verdict hr_Action rule')"
  using policy_Compile_each [OF assms(1) HttpRule_compiled_applies [of "he_glob L" _ _ r] assms(2-4),
      of "hp_defaultAction p"]
    HttpRule_Compile_cache HttpRule_Compile_fields
  unfolding HttpProxy_policy_def by metis

section \<open>Two requests with the same key\<close>

lemma HttpProxy_miss_then_hit:
  assumes api: "he_cache L = any_cache_api ref_ttlcache rd mp (\<lambda>k. k)"
    and m: "hp_cache p = Inl m" "quiet m"
    and no_ep: "find_endpoint r1 (hp_endpointHandlers p) = None"
      "find_endpoint r2 (hp_endpointHandlers p) = None"
    and v1: "HttpProxy_policy L r1 p = Ret (Allowed (Some a1))" "hr_Cache a1 = Some rc1" "rc_Enable rc1"
    and v2: "HttpProxy_policy L r2 p = Ret (Allowed (Some a2))" "hr_Cache a2 = Some rc2" "rc_Enable rc2"
    and key: "request_hash L r1 (bs_data (rq_Body r1)) = request_hash L r2 (bs_data (rq_Body r2))"
    and new: "MemoryCache_live ref_live m (request_hash L r1 (bs_data (rq_Body r1))) = None"
    and up: "he_proxy L r1 (bs_data (rq_Body r1)) u1 = (cs, u1')"
    and ok: "cr_StatusCode (recorded cs) = 200"
  shows "\<exists>p1 p2. HttpProxy_ServeHTTP L w1 r1 p u1 =
        (Ret (writer_calls cs (Header_Add ''Cache'' cacheMiss w1)), p1, u1')
    \<and> HttpProxy_ServeHTTP L w2 r2 p1 u2 =
        (Ret (WriteData 200 (written cs) [cacheKey, cacheHit, ''Content-Type'', ''application/json''] w2), p2, u2)"
proof -
  let ?key = "request_hash L r1 (bs_data (rq_Body r1))"
  let ?m = "mem_put ?key (recorded cs) (rc_TTL rc1) m"
  let ?p1 = "HttpProxy_observe [rq_Method r1, Itoa 200, cacheMiss, RuleActionAllow] (p\<lparr>hp_cache := Inl ?m\<rparr>)"
  have c_has: "c_has (he_cache L) ?key (hp_cache p) = ((False, None), hp_cache p)"
    using new by (simp add: api m quiet_memory)
  have first: "HttpProxy_ServeHTTP L w1 r1 p u1 =
      (Ret (writer_calls cs (Header_Add ''Cache'' cacheMiss w1)), ?p1, u1')"
    using HttpProxy_ServeHTTP_verdict [OF no_ep(1) v1(1), of w1 u1]
      HttpProxy_allow_miss [OF v1(3), of "ReusableReader (rq_Body r1)" L r1 p None _ w1 u1] c_has ok
    by (simp add: verdict_cache_def v1(2) m api quiet_memory up
        HttpProxy_cacheMiss_eq [of L r1 "ReusableReader (rq_Body r1)" u1 cs u1'])
  have p1: "find_endpoint r2 (hp_endpointHandlers ?p1) = None"
    "HttpProxy_policy L r2 ?p1 = Ret (Allowed (Some a2))" "hp_cache ?p1 = Inl ?m"
    using no_ep(2) v2(1) by (simp_all add: HttpProxy_policy_def)
  have live: "MemoryCache_live ref_live ?m ?key = Some (recorded cs)" "quiet ?m"
    by (simp_all add: quiet_mem_put m)
  have "c_has (he_cache L) (request_hash L r2 (bs_data (rq_Body r2))) (hp_cache ?p1) = ((True, None), Inl ?m)"
    and "c_get (he_cache L) (request_hash L r2 (bs_data (rq_Body r2))) (Inl ?m) = (Inr (recorded cs), Inl ?m)"
    using live by (simp_all add: api p1(3) quiet_memory flip: key)
  then have "\<exists>p2. HttpProxy_ServeHTTP L w2 r2 ?p1 u2 = (Ret (WriteData 200 (written cs)
      [cacheKey, cacheHit, ''Content-Type'', ''application/json''] w2), p2, u2)"
    using HttpProxy_ServeHTTP_verdict [OF p1(1,2), of w2 u2] ok
      HttpProxy_allow_hit [OF v2(3), of "ReusableReader (rq_Body r2)" L r2 ?p1 None "Inl ?m" "recorded cs"
        "Inl ?m" w2 u2]
    by (simp add: verdict_cache_def v2(2))
  with first show ?thesis by blast
qed

lemma hex_EncodeToString_inj: "hex_EncodeToString a = hex_EncodeToString b \<Longrightarrow> a = b"
proof (induction a arbitrary: b)
  case Nil
  then show ?case by (cases b) (simp_all add: hex_EncodeToString_def)
next
  case (Cons c a)
  have inj: "m = n" if "hex_digit m = hex_digit n" "m < 16" "n < 16" for m n
    using arg_cong [OF that(1), of "of_char :: char \<Rightarrow> nat"] that(2,3)
    by (auto simp: of_char_hex_digit split: if_splits)
  from Cons.prems obtain d b' where b: "b = d # b'"
    by (cases b) (simp_all add: hex_EncodeToString_def)
  with Cons.prems have "hex_digit (of_char c div 16) = hex_digit (of_char d div 16)"
    "hex_digit (of_char c mod 16) = hex_digit (of_char d mod 16)"
    "hex_EncodeToString a = hex_EncodeToString b'"
    by (simp_all add: hex_EncodeToString_def)
  moreover have "of_char x div 16 < (16 :: nat)" for x :: char
    by (simp add: div_less_iff_less_mult)
  ultimately have "of_char c div 16 = (of_char d :: nat) div 16" "of_char c mod 16 = (of_char d :: nat) mod 16"
    "a = b'"
    using inj Cons.IH by simp_all
  then have "(of_char c :: nat) = of_char d" by (metis div_mult_mod_eq)
  with b \<open>a = b'\<close> show ?case by simp
qed

lemma request_hash_eq_iff:
  "inj (he_digest L) \<Longrightarrow> request_hash L r1 b1 = request_hash L r2 b2 \<longleftrightarrow>
     rq_Method r1 @ rq_URL r1 @ b1 = rq_Method r2 @ rq_URL r2 @ b2"
  by (auto simp: request_hash_def Sha256_def dest!: hex_EncodeToString_inj injD)

section \<open>A concrete proxy\<close>

text \<open>
  An upstream that answers with the path of the request and counts its calls, and a proxy with
  the memory cache and given rules, for concrete runs.
\<close>

type_synonym demo_cache =
  "((string namespacedKey, CachedResponse) ref_store, (string, string) ref_store) any_cache"

definition demo_env :: "(string, demo_cache, unit, nat) http_env" where
  "demo_env = \<lparr>he_glob = exact_glob,
     he_cache = any_cache_api ref_ttlcache ref_redis response_msgpack (\<lambda>k. k),
     he_digest = (\<lambda>b. b), he_grow = (\<lambda>n. n),
     he_proxy = (\<lambda>r b u. ([CallWriteHeader 200, CallWrite (rq_Path r)], Suc u)),
     he_handle = (\<lambda>_ w _ u. (Ret w, u))\<rparr>"

definition demo_get :: "string \<Rightarrow> string \<Rightarrow> Request" where
  "demo_get path b = \<lparr>rq_Method = ''GET'', rq_Path = path, rq_URL = path,
     rq_Body = \<lparr>bs_data = b, bs_error = None\<rparr>, rq_Header = [], rq_RemoteAddr = []\<rparr>"

definition demo_rule :: "RuleAction \<Rightarrow> string list \<Rightarrow> RuleCache option \<Rightarrow> string HttpRule" where
  "demo_rule a paths c = \<lparr>hr_Priority = 0, hr_Action = a, hr_Paths = paths, hr_Methods = [],
     hr_Cache = c, hr_PathGlobs = paths\<rparr>"

definition demo_cached :: "RuleCache option" where
  "demo_cached = Some \<lparr>rc_Enable = True, rc_TTL = 60, rc_CacheError = False, rc_CacheEmptyResult = False\<rparr>"

definition demo_proxy :: "string HttpRule list \<Rightarrow> (string, demo_cache, unit) HttpProxy" where
  "demo_proxy rules = \<lparr>hp_defaultAction = RuleActionDeny, hp_rules = rules,
     hp_cache = Inl \<lparr>mc_Namespace = ''lcd'', mc_cache = ref_empty 5\<rparr>,
     hp_endpointHandlers = [], hp_responseTimeHist = None\<rparr>"

lemmas demo_http = demo_env_def demo_get_def demo_rule_def demo_cached_def demo_proxy_def

lemma demo_empty_cache: "MemoryCache_live ref_live \<lparr>mc_Namespace = ns, mc_cache = ref_empty d\<rparr> k = None"
  by (simp add: MemoryCache_live_def MemoryCache_key_def ref_live_def ref_empty_def)

lemma demo_recorded:
  "recorded [CallWriteHeader 200, CallWrite b] = \<lparr>cr_Data = b, cr_StatusCode = 200\<rparr>"
  by (simp add: recorded_def written_def wrapper_calls_def Wrapper_WriteHeader_def Wrapper_Write_def
      Let_def)

section \<open>Properties\<close>

text \<open>
  C2: The first configured rule that applies to the request and has a recognised action decides.
  The proxy holds the compiled rules; whether a rule applies is said of the configured one: one
  of its methods is the request's up to case, and one of its path patterns matches the path (an
  empty list puts no condition).  An allowing rule passes its cache settings on; a denying rule
  answers 401 without an upstream call.
\<close>

theorem http_first_rule_decides:
  assumes "find_endpoint r (hp_endpointHandlers p) = None"
    and "Compile_each (HttpRule_Compile (he_glob L)) (us @ rule # vs) = Ret (hp_rules p)"
    and "\<forall>x\<in>set us. \<not> (HttpRule_applies (he_glob L) x r \<and> recognised (hr_Action x))"
    and "HttpRule_applies (he_glob L) rule r" and "recognised (hr_Action rule)"
  shows "HttpProxy_ServeHTTP L w r p u = answered
    (if hr_Action rule = RuleActionAllow
     then HttpProxy_allow L w r (ReusableReader (rq_Body r)) (hr_Cache rule) p u
     else (WriteError 401 ''unauthorized'' [] w,
       HttpProxy_observe [rq_Method r, Itoa 401, cacheMiss, RuleActionDeny] p, u))"
proof -
  obtain rule' where "hr_Cache rule' = hr_Cache rule" "hr_Action rule' = hr_Action rule"
    "HttpProxy_policy L r p = Ret (rule_verdict hr_Action rule')"
    using HttpProxy_policy_first [OF assms(2-5)] .
  with HttpProxy_ServeHTTP_verdict [OF assms(1), of L "rule_verdict hr_Action rule'" w u]
  show ?thesis by (simp add: rule_verdict_def verdict_cache_def)
qed

theorem http_first_rule_decides_witness:
  "HttpProxy_ServeHTTP demo_env new_writer (demo_get ''/b'' [])
     (demo_proxy [demo_rule RuleActionAllow [''/a''] None, demo_rule RuleActionDeny [''/b''] None]) 0
   = (Ret (WriteError 401 ''unauthorized'' [] new_writer),
       demo_proxy [demo_rule RuleActionAllow [''/a''] None, demo_rule RuleActionDeny [''/b''] None], 0)"
  using http_first_rule_decides [of "demo_get ''/b'' []"
      "demo_proxy [demo_rule RuleActionAllow [''/a''] None, demo_rule RuleActionDeny [''/b''] None]"
      demo_env "[demo_rule RuleActionAllow [''/a''] None]" "demo_rule RuleActionDeny [''/b''] None" "[]"
      new_writer 0]
  by (simp add: demo_http HttpRule_Compile_def MustCompile_def exact_glob_def HttpRule_applies_def
      pattern_matches_def recognised_def HttpProxy_observe_def)

text \<open>
  C4: A denied request gets status 401 and the body \<open>unauthorized\<close>, whether a rule or the
  default denied it; the upstream is not called and the cache is neither read nor written.
\<close>

theorem http_denied_untouched:
  assumes "find_endpoint r (hp_endpointHandlers p) = None"
    and "HttpProxy_policy L r p = Ret (Denied x)" and "w_status w = 0"
  shows "\<exists>w' p'. HttpProxy_ServeHTTP L w r p u = (Ret w', p', u)
    \<and> w_status w' = 401 \<and> w_body w' = w_body w @ ''unauthorized'' \<and> hp_cache p' = hp_cache p"
  using HttpProxy_ServeHTTP_verdict [OF assms(1,2), of w u] WriteError_sends [OF assms(3), of 401]
  by simp

theorem http_denied_untouched_witness:
  "\<exists>w' p'. HttpProxy_ServeHTTP demo_env new_writer (demo_get ''/b'' []) (demo_proxy []) 0 = (Ret w', p', 0)
    \<and> w_status w' = 401 \<and> w_body w' = ''unauthorized'' \<and> hp_cache p' = hp_cache (demo_proxy [])"
  using http_denied_untouched [of "demo_get ''/b'' []" "demo_proxy []" demo_env None new_writer 0]
  by (simp add: demo_http HttpProxy_policy_def new_writer_def)

text \<open>
  C9: A request that is allowed without caching is forwarded once, with the body the client
  sent, and the client gets exactly the headers, status and bytes the upstream produced.
\<close>

theorem http_allowed_transparent:
  assumes "find_endpoint r (hp_endpointHandlers p) = None"
    and "HttpProxy_policy L r p = Ret (Allowed x)"
    and "case verdict_cache x of None \<Rightarrow> True | Some rc \<Rightarrow> \<not> rc_Enable rc"
    and "he_proxy L r (bs_data (rq_Body r)) u = (cs, u')"
  shows "\<exists>p'. HttpProxy_ServeHTTP L w r p u = (Ret (writer_calls cs w), p', u')
    \<and> hp_cache p' = hp_cache p"
  using HttpProxy_ServeHTTP_verdict [OF assms(1,2), of w u]
    HttpProxy_allow_plain [OF assms(3), of L r "ReusableReader (rq_Body r)" u cs u' w p] assms(4)
  by simp

theorem http_allowed_transparent_witness:
  "\<exists>p'. HttpProxy_ServeHTTP demo_env new_writer (demo_get ''/a'' ''x'')
       (demo_proxy [demo_rule RuleActionAllow [] None]) 0
     = (Ret (writer_calls [CallWriteHeader 200, CallWrite ''/a''] new_writer), p', 1)
    \<and> hp_cache p' = hp_cache (demo_proxy [])"
  using http_allowed_transparent [of "demo_get ''/a'' ''x''" "demo_proxy [demo_rule RuleActionAllow [] None]"
      demo_env "Some (demo_rule RuleActionAllow [] None)" 0 "[CallWriteHeader 200, CallWrite ''/a'']" 1
      new_writer]
  by (simp add: demo_http HttpProxy_policy_def HttpRule_Match_def verdict_cache_def)

text \<open>
  C6: For either cache the options may choose, over libraries that behave as documented, every
  cached response is one the upstream gave to some request with that key, and none is an error
  response unless a rule enables caching of errors; serving a request keeps this.  A shared
  Redis server must start from and be written to by others with such entries only.
\<close>

theorem http_cache_sound:
  assumes "http_backends t t_live rd mp r_live others"
    and "he_cache L = any_cache_api t rd mp (\<lambda>k. k)"
    and "\<And>k v. any_cache_live t_live mp (\<lambda>k. k) r_live (hp_cache p) k = Some v \<or>
        RedisCache_foreign mp (\<lambda>k. k) others k v \<Longrightarrow>
      http_cached L (rules_cache_errors (hp_rules p)) k v"
    and "HttpProxy_ServeHTTP L w r p u = (out, p', u')"
    and "any_cache_live t_live mp (\<lambda>k. k) r_live (hp_cache p') k = Some v"
  shows "http_cached L (rules_cache_errors (hp_rules p)) k v"
  using http_backends.ServeHTTP_live [OF assms] .


theorem http_cache_sound_witness:
  "\<exists>w' p'. HttpProxy_ServeHTTP demo_env new_writer (demo_get ''/a'' [])
       (demo_proxy [demo_rule RuleActionAllow [] demo_cached]) 0 = (Ret w', p', 1)
    \<and> (\<forall>k v. any_cache_live ref_live response_msgpack (\<lambda>k. k) ref_live (hp_cache p') k = Some v \<longrightarrow>
        http_cached demo_env False k v)"
proof -
  let ?p = "demo_proxy [demo_rule RuleActionAllow [] demo_cached]"
  have none: "any_cache_live ref_live response_msgpack (\<lambda>k. k) ref_live (hp_cache ?p) k = None" for k
    by (simp add: demo_http any_cache_live_def demo_empty_cache)
  have errs: "rules_cache_errors (hp_rules ?p) = False"
    by (simp add: rules_cache_errors_def demo_http)
  have run: "\<exists>w' p'. HttpProxy_ServeHTTP demo_env new_writer (demo_get ''/a'' []) ?p 0 = (Ret w', p', 1)"
    using HttpProxy_miss_then_hit [of demo_env ref_redis response_msgpack ?p
        "\<lparr>mc_Namespace = ''lcd'', mc_cache = ref_empty 5\<rparr>" "demo_get ''/a'' []" "demo_get ''/a'' []"
        "demo_rule RuleActionAllow [] demo_cached" _ "demo_rule RuleActionAllow [] demo_cached" _ 0
        "[CallWriteHeader 200, CallWrite ''/a'']" 1 new_writer new_writer 0]
    by (simp add: demo_http ref_empty_def HttpProxy_policy_def HttpRule_Match_def demo_recorded
        demo_empty_cache [unfolded ref_empty_def]) blast
  then obtain w' p' where run: "HttpProxy_ServeHTTP demo_env new_writer (demo_get ''/a'' []) ?p 0 = (Ret w', p', 1)"
    by blast
  have "http_cached demo_env False k v"
    if "any_cache_live ref_live response_msgpack (\<lambda>k. k) ref_live (hp_cache p') k = Some v" for k v
    using http_cache_sound [OF ref_http.http_backends_axioms _ _ run that] none errs
    by (simp add: RedisCache_foreign_def demo_env_def)
  with run show ?thesis by blast
qed

text \<open>
  C10: A cached response is served.  With the memory cache and no time passing, the first of two
  equal requests under a caching rule is forwarded; the second gets the same status and bytes,
  marked as a hit, whatever the upstream would say by then, and the upstream is not called.
\<close>

theorem http_second_request_hits:
  assumes "he_cache L = any_cache_api ref_ttlcache rd mp (\<lambda>k. k)"
    and "hp_cache p = Inl m" "quiet m" and "find_endpoint r (hp_endpointHandlers p) = None"
    and "HttpProxy_policy L r p = Ret (Allowed (Some a))" "hr_Cache a = Some rc" "rc_Enable rc"
    and "MemoryCache_live ref_live m (request_hash L r (bs_data (rq_Body r))) = None"
    and "he_proxy L r (bs_data (rq_Body r)) u = (cs, u')" and "cr_StatusCode (recorded cs) = 200"
  shows "\<exists>p1 p2. HttpProxy_ServeHTTP L w1 r p u =
        (Ret (writer_calls cs (Header_Add ''Cache'' cacheMiss w1)), p1, u')
    \<and> HttpProxy_ServeHTTP L w2 r p1 u2 =
        (Ret (WriteData 200 (written cs) [cacheKey, cacheHit, ''Content-Type'', ''application/json''] w2), p2, u2)"
  using HttpProxy_miss_then_hit [OF assms(1-4) assms(4-7) assms(5-7) refl assms(8-10)] .

theorem http_second_request_hits_witness:
  "\<exists>p1 p2. HttpProxy_ServeHTTP demo_env new_writer (demo_get ''/a'' [])
       (demo_proxy [demo_rule RuleActionAllow [] demo_cached]) 0 =
       (Ret (writer_calls [CallWriteHeader 200, CallWrite ''/a''] (Header_Add ''Cache'' cacheMiss new_writer)), p1, 1)
    \<and> HttpProxy_ServeHTTP demo_env new_writer (demo_get ''/a'' []) p1 1 =
       (Ret (WriteData 200 ''/a'' [cacheKey, cacheHit, ''Content-Type'', ''application/json''] new_writer), p2, 1)"
  using http_second_request_hits [of demo_env ref_redis response_msgpack
      "demo_proxy [demo_rule RuleActionAllow [] demo_cached]"
      "\<lparr>mc_Namespace = ''lcd'', mc_cache = ref_empty 5\<rparr>" "demo_get ''/a'' []"
      "demo_rule RuleActionAllow [] demo_cached" _ 0
      "[CallWriteHeader 200, CallWrite ''/a'']" 1 new_writer new_writer 1]
  by (simp add: demo_http ref_empty_def HttpProxy_policy_def HttpRule_Match_def demo_recorded
      demo_empty_cache [unfolded ref_empty_def] written_def)

text \<open>
  C26: The cache key runs the URL and the body together, so two requests for different URLs can
  share it: when the URL of one followed by its body spells the URL of the other, the second is
  answered with what the upstream said to the first.
\<close>

theorem http_cache_key_confusion:
  assumes "he_cache L = any_cache_api ref_ttlcache rd mp (\<lambda>k. k)"
    and "hp_cache p = Inl m" "quiet m"
    and "find_endpoint r1 (hp_endpointHandlers p) = None" "find_endpoint r2 (hp_endpointHandlers p) = None"
    and "HttpProxy_policy L r1 p = Ret (Allowed (Some a1))" "hr_Cache a1 = Some rc1" "rc_Enable rc1"
    and "HttpProxy_policy L r2 p = Ret (Allowed (Some a2))" "hr_Cache a2 = Some rc2" "rc_Enable rc2"
    and "rq_Method r1 = rq_Method r2"
    and "rq_URL r1 @ bs_data (rq_Body r1) = rq_URL r2 @ bs_data (rq_Body r2)"
    and "MemoryCache_live ref_live m (request_hash L r1 (bs_data (rq_Body r1))) = None"
    and "he_proxy L r1 (bs_data (rq_Body r1)) u = (cs, u')" and "cr_StatusCode (recorded cs) = 200"
  shows "\<exists>p1 p2. HttpProxy_ServeHTTP L w1 r1 p u =
        (Ret (writer_calls cs (Header_Add ''Cache'' cacheMiss w1)), p1, u')
    \<and> HttpProxy_ServeHTTP L w2 r2 p1 u2 =
        (Ret (WriteData 200 (written cs) [cacheKey, cacheHit, ''Content-Type'', ''application/json''] w2), p2, u2)"
proof -
  have "request_hash L r1 (bs_data (rq_Body r1)) = request_hash L r2 (bs_data (rq_Body r2))"
    by (simp add: request_hash_def assms(12,13))
  from HttpProxy_miss_then_hit [OF assms(1-11) this assms(14-16)] show ?thesis .
qed

theorem http_cache_key_confusion_witness:
  "\<exists>p1 p2. HttpProxy_ServeHTTP demo_env new_writer (demo_get ''/a'' ''b'')
       (demo_proxy [demo_rule RuleActionAllow [] demo_cached]) 0 =
       (Ret (writer_calls [CallWriteHeader 200, CallWrite ''/a''] (Header_Add ''Cache'' cacheMiss new_writer)), p1, 1)
    \<and> HttpProxy_ServeHTTP demo_env new_writer (demo_get ''/ab'' []) p1 1 =
       (Ret (WriteData 200 ''/a'' [cacheKey, cacheHit, ''Content-Type'', ''application/json''] new_writer), p2, 1)"
  using http_cache_key_confusion [of demo_env ref_redis response_msgpack
      "demo_proxy [demo_rule RuleActionAllow [] demo_cached]"
      "\<lparr>mc_Namespace = ''lcd'', mc_cache = ref_empty 5\<rparr>" "demo_get ''/a'' ''b''" "demo_get ''/ab'' []"
      "demo_rule RuleActionAllow [] demo_cached" _ "demo_rule RuleActionAllow [] demo_cached" _ 0
      "[CallWriteHeader 200, CallWrite ''/a'']" 1 new_writer new_writer 1]
  by (simp add: demo_http ref_empty_def HttpProxy_policy_def HttpRule_Match_def demo_recorded
      demo_empty_cache [unfolded ref_empty_def] written_def)

end
