(* ===== verification/CoreProps.thy ===== *)
theory CoreProps
  imports ProxyOptions HttpProxy
begin

text \<open>
  Properties of the parts the handlers share: the generator of ids, the caches, messages, rules
  and the configuration.
\<close>

section \<open>Rules on parameters\<close>

definition demo_param_rule :: "any \<Rightarrow> string JsonRpcRule" where
  "demo_param_rule ps = \<lparr>jq_Priority = 0, jq_Action = RuleActionAllow, jq_Methods = [], jq_Params = ps,
     jq_Cache = None, jq_MethodGlobs = [], jq_ParamsGlobs = [], jq_ParamsMap = False, jq_ParamsSlice = False\<rparr>"

definition demo_call :: "any \<Rightarrow> JsonRpcMsg" where
  "demo_call ps = zero_msg\<lparr>jm_Method := ''m'', jm_Params := ps\<rparr>"

lemma demo_map_compile:
  "JsonRpcRule_Compile exact_glob (demo_param_rule (GMap [(''p'', GStr ''v'')])) =
     Ret ((demo_param_rule (GMap [(''p'', GStr ''v'')]))\<lparr>jq_ParamsMap := True, jq_ParamsGlobs := [(''p'', ''v'')]\<rparr>)"
  by (simp add: JsonRpcRule_Compile_def JsonRpcRule_Compile_params_def demo_param_rule_def exact_glob_def
      MustCompile_def)

lemma demo_slice_compile:
  "JsonRpcRule_Compile exact_glob (demo_param_rule (GSlice [GBool True, GBool False])) =
     Ret ((demo_param_rule (GSlice [GBool True, GBool False]))\<lparr>jq_ParamsSlice := True\<rparr>)"
  by (simp add: JsonRpcRule_Compile_def JsonRpcRule_Compile_params_def demo_param_rule_def)

lemma demo_uncompiled: "uncompiled (demo_param_rule ps)"
  by (simp add: uncompiled_def demo_param_rule_def)

text \<open>
  C23: A rule on named parameters matches a request with named parameters exactly when the method
  matches one of its patterns and each of its parameters agrees with the request's: a string
  as a glob, any other scalar by equality, a missing one reading as nil.
\<close>

theorem rule_named_params:
  assumes "JsonRpcRule_Compile gl r = Ret r'" and "uncompiled r"
    and "jq_Params r = GMap m" and "gm_wf m" and "m \<noteq> []" and "scalar_params (GMap m)"
    and "jm_Params req = GMap reqp"
  shows "JsonRpcRule_Match gl r' req =
    Ret (method_ok gl r (jm_Method req)
      \<and> list_all (\<lambda>(key, v). param_ok gl v (any_of (gm_get reqp key))) m)"
  by (rule JsonRpcRule_Match_map [OF assms])

theorem rule_named_params_witness:
  "JsonRpcRule_Match exact_glob
     ((demo_param_rule (GMap [(''p'', GStr ''v'')]))\<lparr>jq_ParamsMap := True, jq_ParamsGlobs := [(''p'', ''v'')]\<rparr>)
     (demo_call (GMap [(''q'', GNil), (''p'', GStr ''v'')])) = Ret True"
  using rule_named_params [OF demo_map_compile demo_uncompiled, of "[(''p'', GStr ''v'')]"
      "demo_call (GMap [(''q'', GNil), (''p'', GStr ''v'')])" "[(''q'', GNil), (''p'', GStr ''v'')]"]
  by (simp add: demo_param_rule_def demo_call_def scalar_params_def scalar_def method_ok_def param_ok_def
      any_of_def pattern_matches_def exact_glob_def)

text \<open>
  C24: A rule on positional parameters compares them one by one with the request's; when the
  request has fewer and those agree, matching panics with an index out of range.
\<close>

theorem rule_positional_params:
  assumes "JsonRpcRule_Compile gl r = Ret r'" and "uncompiled r"
    and "jq_Params r = GSlice vs" and "vs \<noteq> []" and "scalar_params (GSlice vs)"
    and "jm_Params req = GSlice reqp"
  shows "JsonRpcRule_Match gl r' req =
    (if method_ok gl r (jm_Method req) \<and> list_all (\<lambda>(v, w). param_ok gl v w) (zip vs reqp) then
       (if length vs \<le> length reqp then Ret True else Panic ''index out of range'')
     else Ret False)"
  by (rule JsonRpcRule_Match_slice [OF assms])

theorem rule_positional_params_witness:
  "JsonRpcRule_Match exact_glob
     ((demo_param_rule (GSlice [GBool True, GBool False]))\<lparr>jq_ParamsSlice := True\<rparr>)
     (demo_call (GSlice [GBool True])) = Panic ''index out of range''"
  using rule_positional_params [OF demo_slice_compile demo_uncompiled, of "[GBool True, GBool False]"
      "demo_call (GSlice [GBool True])" "[GBool True]"]
  by (simp add: demo_param_rule_def demo_call_def scalar_params_def scalar_def method_ok_def param_ok_def)

text \<open>
  C37: A rule on named parameters does not look at positional ones: it matches every request of
  its methods whose parameters are a list.
\<close>

theorem rule_named_params_ignore_positional:
  assumes "JsonRpcRule_Compile gl r = Ret r'" and "uncompiled r"
    and "jq_Params r = GMap m" and "jm_Params req = GSlice reqp"
  shows "JsonRpcRule_Match gl r' req = Ret (method_ok gl r (jm_Method req))"
  by (rule JsonRpcRule_Match_other_shape [OF assms])

theorem rule_named_params_ignore_positional_witness:
  "JsonRpcRule_Match exact_glob
     ((demo_param_rule (GMap [(''p'', GStr ''v'')]))\<lparr>jq_ParamsMap := True, jq_ParamsGlobs := [(''p'', ''v'')]\<rparr>)
     (demo_call (GSlice [GStr ''other''])) = Ret True"
  using rule_named_params_ignore_positional [OF demo_map_compile demo_uncompiled, of "[(''p'', GStr ''v'')]"
      "demo_call (GSlice [GStr ''other''])" "[GStr ''other'']"]
  by (simp add: demo_param_rule_def demo_call_def method_ok_def)

text \<open>
  A parameter written as an integer in the configuration file matches no request: numbers of
  a request are floating point, and the two types are never equal.
\<close>

theorem rule_int_param_never_matches:
  assumes "JsonRpcRule_Compile gl r = Ret r'" and "uncompiled r"
    and "jq_Params r = GMap m" and "gm_wf m" and "scalar_params (GMap m)"
    and "(key, GInt n) \<in> set m" and "jm_Params req = GMap reqp" and "json_params reqp"
  shows "JsonRpcRule_Match gl r' req = Ret False"
proof -
  have "\<not> param_ok gl (GInt n) (any_of (gm_get reqp key))"
    by (rule int_param_not_json [OF assms(8)])
  with assms(6) have "\<not> list_all (\<lambda>(key, v). param_ok gl v (any_of (gm_get reqp key))) m"
    by (auto simp: list_all_iff)
  moreover have "m \<noteq> []" using assms(6) by auto
  ultimately show ?thesis
    using JsonRpcRule_Match_map [OF assms(1-4) _ assms(5,7)] by simp
qed

theorem rule_int_param_never_matches_witness:
  "JsonRpcRule_Match exact_glob ((demo_param_rule (GMap [(''h'', GInt 5)]))\<lparr>jq_ParamsMap := True\<rparr>)
     (demo_call (GMap [(''h'', GFloat (Fin 5))])) = Ret False"
proof -
  have "JsonRpcRule_Compile exact_glob (demo_param_rule (GMap [(''h'', GInt 5)])) =
      Ret ((demo_param_rule (GMap [(''h'', GInt 5)]))\<lparr>jq_ParamsMap := True\<rparr>)"
    by (simp add: JsonRpcRule_Compile_def JsonRpcRule_Compile_params_def demo_param_rule_def)
  from rule_int_param_never_matches [OF this demo_uncompiled, of "[(''h'', GInt 5)]" "''h''" 5
      "demo_call (GMap [(''h'', GFloat (Fin 5))])" "[(''h'', GFloat (Fin 5))]"]
  show ?thesis
    by (simp add: demo_param_rule_def demo_call_def scalar_params_def scalar_def json_params_def)
qed

text \<open>
  In a list sorted by priority the rule that decides an HTTP request has the least priority
  value among all the rules that match the request with a recognised action.
\<close>

theorem rule_least_priority_decides:
  assumes "HttpProxy_policy L r p = Ret v" and "sorted (map hr_Priority (hp_rules p))"
    and "rule' \<in> set (hp_rules p)" and "HttpRule_Match (he_glob L) rule' r" and "recognised (hr_Action rule')"
  shows "\<exists>rule\<in>set (hp_rules p). HttpRule_Match (he_glob L) rule r \<and> recognised (hr_Action rule)
    \<and> v = rule_verdict hr_Action rule \<and> hr_Priority rule \<le> hr_Priority rule'"
  using http_rules.least_priority [OF assms(1) [unfolded HttpProxy_policy_def] assms(2,3)] assms(4,5)
  by (auto simp: deciding_def)

theorem rule_least_priority_decides_witness:
  "\<exists>rule\<in>set [demo_rule RuleActionDeny [] None, (demo_rule RuleActionAllow [] None)\<lparr>hr_Priority := 7\<rparr>].
    rule_verdict hr_Action (demo_rule RuleActionDeny [] None) = rule_verdict hr_Action rule
    \<and> hr_Priority rule \<le> 7"
  using rule_least_priority_decides [of demo_env "demo_get ''/a'' []"
      "demo_proxy [demo_rule RuleActionDeny [] None, (demo_rule RuleActionAllow [] None)\<lparr>hr_Priority := 7\<rparr>]"
      "rule_verdict hr_Action (demo_rule RuleActionDeny [] None)"
      "(demo_rule RuleActionAllow [] None)\<lparr>hr_Priority := 7\<rparr>"]
  by (auto simp: demo_http HttpProxy_policy_def HttpRule_Match_def recognised_def rule_verdict_def)

section \<open>Configuration\<close>

text \<open>
  However the library breaks ties, reading the configuration leaves each of the seven lists
  of rules sorted by the priorities it read.
\<close>

theorem config_rules_sorted:
  assumes "slice_sort (cl_pdq cl)" and "prepare_config cl cfg = Ret cfg'"
  shows "rules_sorted cfg'"
  by (rule prepare_config_sorted [OF assms])

text \<open>A library that fills in the default priority.\<close>

definition fill_http :: "'g HttpRule list \<Rightarrow> 'g HttpRule list" where
  "fill_http = map (\<lambda>r. if hr_Priority r = 0 then r\<lparr>hr_Priority := 1000\<rparr> else r)"

definition fill_jsonrpc :: "'g JsonRpcRule list \<Rightarrow> 'g JsonRpcRule list" where
  "fill_jsonrpc = map (\<lambda>r. if jq_Priority r = 0 then r\<lparr>jq_Priority := 1000\<rparr> else r)"

definition fill_grpc :: "'g GrpcRule list \<Rightarrow> 'g GrpcRule list" where
  "fill_grpc = map (\<lambda>r. if gr_Priority r = 0 then r\<lparr>gr_Priority := 1000\<rparr> else r)"

definition fill_priorities :: "'g Config \<Rightarrow> 'g Config" where
  "fill_priorities cfg = cfg\<lparr>
     cfg_LCD := (cfg_LCD cfg)\<lparr>lcd_Rules := fill_http (lcd_Rules (cfg_LCD cfg))\<rparr>,
     cfg_GRPC := (cfg_GRPC cfg)\<lparr>grpc_Rules := fill_grpc (grpc_Rules (cfg_GRPC cfg))\<rparr>,
     cfg_RPC := (cfg_RPC cfg)\<lparr>rpc_Rules := fill_http (rpc_Rules (cfg_RPC cfg)),
       rpc_JsonRpc := (rpc_JsonRpc (cfg_RPC cfg))\<lparr>jc_Rules := fill_jsonrpc (jc_Rules (rpc_JsonRpc (cfg_RPC cfg)))\<rparr>\<rparr>,
     cfg_EVM := (cfg_EVM cfg)\<lparr>
       evm_RPC := (evm_RPC (cfg_EVM cfg))\<lparr>er_Rules := fill_jsonrpc (er_Rules (evm_RPC (cfg_EVM cfg))),
         er_HttpRules := fill_http (er_HttpRules (evm_RPC (cfg_EVM cfg)))\<rparr>,
       evm_WS := (evm_WS (cfg_EVM cfg))\<lparr>ew_Rules := fill_jsonrpc (ew_Rules (evm_WS (cfg_EVM cfg)))\<rparr>\<rparr>\<rparr>"

lemma fill_fills:
  "fills hr_Priority hr_Action rs (fill_http rs)" "fills gr_Priority gr_Action gs (fill_grpc gs)"
  "fills jq_Priority jq_Action js (fill_jsonrpc js)"
  by (auto simp: fills_def fill_http_def fill_grpc_def fill_jsonrpc_def list_all2_conv_all_nth)

definition demo_config_lib :: "string HttpRule list \<Rightarrow> string config_lib" where
  "demo_config_lib rs = \<lparr>cl_ReadFile = Inr, cl_Unmarshal = (\<lambda>_. Inr (lcd_config rs)),
     cl_SetDefaults = (\<lambda>cfg. (fill_priorities cfg, None)), cl_pdq = insertion_pdq, cl_glob = exact_glob\<rparr>"

theorem config_rules_sorted_witness:
  "\<exists>cfg. prepare_config (demo_config_lib []) (lcd_config [(demo_rule RuleActionAllow [] None)\<lparr>hr_Priority := 9\<rparr>,
      demo_rule RuleActionDeny [] None]) = Ret cfg \<and> rules_sorted cfg
    \<and> map hr_Priority (lcd_Rules (cfg_LCD cfg)) = [0, 9]"
proof -
  let ?rs = "[(demo_rule RuleActionAllow [] None)\<lparr>hr_Priority := 9\<rparr>, demo_rule RuleActionDeny [] None]"
  have "insertion_pdq [9, 0] = [1, 0]" by code_simp
  moreover have "insertion_pdq [] = []" by code_simp
  ultimately obtain cfg where cfg: "prepare_config (demo_config_lib []) (lcd_config ?rs) = Ret cfg"
    "map hr_Priority (lcd_Rules (cfg_LCD cfg)) = [0, 9]"
    by (simp add: prepare_config_def prepare_rules_def sort_Slice_def lcd_config_def zero_config_def
        demo_config_lib_def HttpRule_Compile_def demo_rule_def)
  from config_rules_sorted [OF _ cfg(1)] insertion.slice_sort_axioms cfg show ?thesis
    by (auto simp: demo_config_lib_def)
qed

text \<open>
  C27: The default priority comes too late.  In each of the seven lists of any configuration that is
  read, the rules are sorted by the priorities of the file, a rule without one as 0, and only then
  the default of 1000 is filled in: a rule without a priority stands before every rule with a
  positive one, though its priority is 1000 in the end, and after those with a negative one.
\<close>

theorem config_default_priority_after_sort:
  assumes "slice_sort (cl_pdq cl)" and "defaults_rules (cl_SetDefaults cl)"
    and "cl_ReadFile cl path = Inr f" and "cl_Unmarshal cl f = Inr configured"
    and "ReadConfigFromFile cl path = Ret (Some cfg, None)"
  shows "each_list (late_default hr_Priority hr_Action) (late_default gr_Priority gr_Action)
    (late_default jq_Priority jq_Action) configured cfg"
proof -
  obtain cfg1 where "prepare_config cl configured = Ret cfg1" "cl_SetDefaults cl cfg1 = (cfg, None)"
    using assms(3-5) by (auto simp: ReadConfigFromFile_def bind_o_Ret_iff case_prod_beta prod_eq_iff)
  with assms(2) prepare_config_late_default [OF assms(1)] show ?thesis unfolding defaults_rules_def by blast
qed

theorem config_default_priority_after_sort_witness:
  "\<exists>cfg. ReadConfigFromFile (demo_config_lib [(demo_rule RuleActionDeny [] None)\<lparr>hr_Priority := 10\<rparr>,
      demo_rule RuleActionAllow [] None]) ''cosmoguard.yml'' = Ret (Some cfg, None)
    \<and> map hr_Priority (lcd_Rules (cfg_LCD cfg)) = [1000, 10]
    \<and> late_default hr_Priority hr_Action [(demo_rule RuleActionDeny [] None)\<lparr>hr_Priority := 10\<rparr>,
      demo_rule RuleActionAllow [] None] (lcd_Rules (cfg_LCD cfg))"
proof -
  let ?rs = "[(demo_rule RuleActionDeny [] None)\<lparr>hr_Priority := 10\<rparr>, demo_rule RuleActionAllow [] None]"
  let ?cl = "demo_config_lib ?rs"
  have "insertion_pdq [10, 0] = [1, 0]" by code_simp
  moreover have "insertion_pdq [] = []" by code_simp
  ultimately obtain cfg where cfg: "ReadConfigFromFile ?cl ''cosmoguard.yml'' = Ret (Some cfg, None)"
    "map hr_Priority (lcd_Rules (cfg_LCD cfg)) = [1000, 10]"
    by (simp add: ReadConfigFromFile_def prepare_config_def prepare_rules_def sort_Slice_def lcd_config_def
        zero_config_def demo_config_lib_def HttpRule_Compile_def demo_rule_def fill_priorities_def fill_http_def)
  have "slice_sort (cl_pdq ?cl)" "defaults_rules (cl_SetDefaults ?cl)"
    using insertion.slice_sort_axioms
    by (simp_all add: demo_config_lib_def defaults_rules_def each_list_def fill_priorities_def fill_fills)
  from config_default_priority_after_sort [OF this _ _ cfg(1), of "''cosmoguard.yml''" "lcd_config ?rs"] cfg
  show ?thesis by (auto simp: demo_config_lib_def each_list_def lcd_config_def)
qed

section \<open>Ids\<close>

text \<open>
  Ids taken one after the other from the generator are distinct and none of them was
  outstanding; afterwards exactly they are outstanding too.  The search returns if and only if
  one of the numbers drawn is free.
\<close>

theorem ids_unique:
  "(unique.take_many n rs g = Some (is, g', rs') \<longrightarrow>
      distinct is \<and> (\<forall>i\<in>set is. \<not> outstanding g i)
      \<and> (\<forall>i. outstanding g' i \<longleftrightarrow> outstanding g i \<or> i \<in> set is))
    \<and> (UniqueID_ID rs g \<noteq> None \<longleftrightarrow> (\<exists>r\<in>set rs. \<not> outstanding g (Itoa r)))"
  using unique.take_many_fresh [of n rs g "is" g' rs'] UniqueID_ID_returns [of rs g] by blast

theorem ids_unique_witness:
  "\<exists>is g'. unique.take_many 2 [7, 7, 8] UniqueID_empty = Some (is, g', []) \<and> distinct is \<and> is = [''7'', ''8'']"
proof -
  have "Itoa 7 = ''7''" "Itoa 8 = ''8''" by code_simp+
  then have "unique.take_many 2 [7, 7, 8] UniqueID_empty =
      Some ([''7'', ''8''], [(''7'', True), (''8'', True)], [])"
    by (simp add: numeral_2_eq_2 UniqueID_empty_def Let_def)
  with ids_unique [of 2 "[7, 7, 8]" UniqueID_empty "[''7'', ''8'']" "[(''7'', True), (''8'', True)]" "[]"]
  show ?thesis by blast
qed

text \<open>
  Two goroutines can hold the same id: between looking an id up and storing it, another
  goroutine may do the same.
\<close>

theorem ids_race:
  "\<exists>s i. id_reach s \<and> id_pcs s 0 = Holds i \<and> id_pcs s 1 = Holds i"
  using id_reach_twice by fastforce

section \<open>Bodies, writers and caches\<close>

text \<open>
  C39: The body of a request can be read to its end any number of times; every read gives the
  bytes the client sent, however the reading buffer grows.
\<close>

theorem body_read_again:
  "body.read_times grow n (ReusableReader b) = replicate n (Inr (bs_data b))"
  using body.read_times_const [of "ReusableReader b" grow n] by simp

text \<open>
  The wrapper passes every call on, records exactly the bytes that are sent, and, for a
  handler that sets its final status once and before writing, records the status that is sent.
\<close>

theorem wrapper_records_response:
  assumes "one_status cs" and "w_status w = 0"
  shows "ww_w (wrapper_calls cs (WrapResponseWriter w)) = writer_calls cs w
    \<and> w_body (writer_calls cs w) = w_body w @ ww_buf (wrapper_calls cs (WrapResponseWriter w))
    \<and> Wrapper_GetStatusCode (wrapper_calls cs (WrapResponseWriter w)) = w_status (writer_calls cs w)"
  using one_status_agree [OF assms(1), of "WrapResponseWriter w"] assms(2)
  by (simp add: wrapper_calls_writer wrapper_calls_buf writer_calls_body Wrapper_GetStatusCode_def
      del: recorded_simps)

theorem wrapper_records_response_witness:
  "Wrapper_GetStatusCode (wrapper_calls [CallSet ''k'' ''v'', CallWriteHeader 404, CallWrite ''no'']
      (WrapResponseWriter new_writer)) = 404"
  using wrapper_records_response [of "[CallSet ''k'' ''v'', CallWriteHeader 404, CallWrite ''no'']" new_writer]
  by (simp add: no_status_def new_writer_def writer_calls_def Header_Set_def Writer_WriteHeader_def
      Writer_Write_def)

text \<open>
  A value set in the memory cache is returned until its time to live has passed: the one
  given to \<open>Set\<close>, or the configured default when that is zero.
\<close>

theorem memory_cache_time_to_live:
  assumes "rf_delays (mc_cache c) = [a, b]"
    and "c' = snd (MemoryCache_Set ref_ttlcache k v ttl c)"
    and "ttl' = effective_ttl (rf_default (mc_cache c)) ttl"
  shows "fst (MemoryCache_Get ref_ttlcache k c') =
    (if 0 < ttl' \<and> ttl' < int b then Inl ErrNotFound else Inr v)"
  by (rule MemoryCache_set_get [OF assms])

theorem memory_cache_time_to_live_witness:
  "fst (MemoryCache_Get ref_ttlcache ''k'' (snd (MemoryCache_Set ref_ttlcache ''k'' ''v'' 0
      \<lparr>mc_Namespace = [], mc_cache = (ref_empty 5)\<lparr>rf_delays := [1, 6]\<rparr>\<rparr>))) = (Inl ErrNotFound :: err + string)"
  using memory_cache_time_to_live [OF _ refl refl, of "\<lparr>mc_Namespace = [], mc_cache = (ref_empty 5)\<lparr>rf_delays := [1, 6]\<rparr>\<rparr>"
      1 6 "''k''" "''v''" 0]
  by (simp add: effective_ttl_def ref_empty_def)

text \<open>
  C40: Two proxies that share a Redis server use disjoint keys when their namespaces differ, whatever
  requests they store answers to: the keys of two HTTP proxies, of two JSON-RPC handlers, and
  of an HTTP proxy and a handler.
\<close>

theorem redis_namespaces_disjoint:
  assumes "rc_namespace c \<noteq> rc_namespace c'"
  shows "RedisCache_getKey (\<lambda>k. k) c (Sha256 digest x) \<noteq> RedisCache_getKey (\<lambda>k. k) c' (Sha256 digest y)
    \<and> RedisCache_getKey fmt_uint64 c v \<noteq> RedisCache_getKey fmt_uint64 c' v'
    \<and> RedisCache_getKey (\<lambda>k. k) c (Sha256 digest x) \<noteq> RedisCache_getKey fmt_uint64 c' v'"
  using assms RedisCache_getKey_sep [of "\<lambda>k. k" c "Sha256 digest x" "\<lambda>k. k" c' "Sha256 digest y"]
    RedisCache_getKey_sep [of fmt_uint64 c v fmt_uint64 c' v']
    RedisCache_getKey_sep [of "\<lambda>k. k" c "Sha256 digest x" fmt_uint64 c' v']
    Sha256_no_colon fmt_uint64_no_colon by blast

definition demo_redis :: "string \<Rightarrow> unit RedisCache" where
  "demo_redis ns = \<lparr>rc_client = (), rc_cfg = defaultOptions, rc_namespace = ns\<rparr>"

theorem redis_namespaces_disjoint_witness:
  "let http = RedisCache_getKey (\<lambda>k. k) (demo_redis ''lcd'') (Sha256 (\<lambda>b. b) ''a'');
       http' = RedisCache_getKey (\<lambda>k. k) (demo_redis ''rpc'') (Sha256 (\<lambda>b. b) ''a'');
       rpc = RedisCache_getKey fmt_uint64 (demo_redis ''rpc'') 61
   in http = ''lcd:61'' \<and> http' = ''rpc:61'' \<and> rpc = ''rpc:61'' \<and> http \<noteq> http' \<and> http \<noteq> rpc"
proof -
  have "RedisCache_getKey (\<lambda>k. k) (demo_redis ''lcd'') (Sha256 (\<lambda>b. b) ''a'') = ''lcd:61''"
    "RedisCache_getKey (\<lambda>k. k) (demo_redis ''rpc'') (Sha256 (\<lambda>b. b) ''a'') = ''rpc:61''"
    "RedisCache_getKey fmt_uint64 (demo_redis ''rpc'') 61 = ''rpc:61''"
    by code_simp+
  moreover have "rc_namespace (demo_redis ''lcd'') \<noteq> rc_namespace (demo_redis ''rpc'')" by (simp add: demo_redis_def)
  note redis_namespaces_disjoint [OF this, of "\<lambda>b. b" "''a''" "''a''" 61 61]
  ultimately show ?thesis by (simp add: Let_def)
qed

text \<open>
  The id of a message survives decoding: an absent id is nil, an integer is an integer, and a
  string without quotes, backslashes and line breaks is that string.
\<close>

theorem message_id_decoded:
  assumes "decode j b = (j1, raw, None)"
    and "raw = [] \<and> i = GNil \<or> (\<exists>n. int64 n \<and> raw = Itoa n \<and> i = GInt n)
      \<or> (\<exists>s. list_all plain_char s \<and> raw = dquote # s @ [dquote] \<and> i = GStr s)"
  shows "JsonRpcMsg_UnmarshalJSON decode j b = (j1\<lparr>jm_ID := i\<rparr>, None)"
  using assms(2)
proof (elim disjE exE conjE)
  assume "raw = []" "i = GNil"
  with UnmarshalJSON_ID(1) [of decode j b j1 raw] assms(1) show ?thesis by simp
next
  fix n assume "int64 n" "raw = Itoa n" "i = GInt n"
  with UnmarshalJSON_ID(2) [of decode j b j1 raw n] assms(1) show ?thesis by simp
next
  fix s assume "list_all plain_char s" "raw = dquote # s @ [dquote]" "i = GStr s"
  with UnmarshalJSON_ID(3) [of decode j b j1 raw s] assms(1) show ?thesis by simp
qed

theorem message_id_decoded_witness:
  "JsonRpcMsg_UnmarshalJSON (\<lambda>j b. (j, b, None)) zero_msg (Itoa (-12)) = (zero_msg\<lparr>jm_ID := GInt (-12)\<rparr>, None)"
  using message_id_decoded [of "\<lambda>j b. (j, b, None)" zero_msg "Itoa (-12)" zero_msg "Itoa (-12)" "GInt (-12)"]
  by (simp add: int64_def)

end
