(* ===== verification/GrpcProxy.thy ===== *)
theory GrpcProxy
  imports ProxyOptions
begin

text \<open>
  \<open>src/pkg/cosmoguard/grpc_proxy.go\<close>: the director of the gRPC proxy.  For each call it
  returns the context and the connection the library forwards the call with, or an error.  A
  context is what the director uses of it: the incoming metadata, the outgoing metadata (the
  metadata a call made with this context sends), and the peer.  Dialling, listening and the
  transparent forwarding are the library's.
\<close>

section \<open>State\<close>

type_synonym metadata = "(string, string list) gomap"

record grpc_ctx =
  gx_incoming :: metadata
  gx_outgoing :: metadata
  gx_peer :: "string option"

record ('g, 'n) GrpcProxy =
  gp_defaultAction :: RuleAction
  gp_rules :: "'g GrpcRule list"
  gp_client :: 'n

definition NewGrpcProxy ::
  "(string \<Rightarrow> err option) \<Rightarrow> (string \<Rightarrow> err + 'n) \<Rightarrow> string \<Rightarrow> string \<Rightarrow> string
     \<Rightarrow> (GrpcProxyOptions \<Rightarrow> GrpcProxyOptions) list \<Rightarrow> err + ('g, 'n) GrpcProxy" where
  "NewGrpcProxy net_Listen grpc_Dial name localAddr remoteAddr opts =
     (let cfg = apply_options opts DefaultGrpcProxyOptions
      in case net_Listen localAddr of
           Some e \<Rightarrow> Inl e
         | None \<Rightarrow> (case grpc_Dial remoteAddr of
             Inl e \<Rightarrow> Inl e
           | Inr conn \<Rightarrow> Inr \<lparr>gp_defaultAction = [], gp_rules = [], gp_client = conn\<rparr>))"

definition GrpcProxy_SetRules ::
  "'g GrpcRule list \<Rightarrow> RuleAction \<Rightarrow> ('g, 'n) GrpcProxy \<Rightarrow> ('g, 'n) GrpcProxy" where
  "GrpcProxy_SetRules rules defaultAction p =
     p\<lparr>gp_rules := rules, gp_defaultAction := defaultAction\<rparr>"

section \<open>The director\<close>

text \<open>\<open>status.Errorf(codes.Unavailable, ...)\<close>; the code is 14.\<close>

type_synonym grpc_status = "nat \<times> string"

definition grpc_unauthorized :: grpc_status where
  "grpc_unauthorized = (14, ''Unauthorized'')"

fun GrpcProxy_rules_loop ::
  "'g globber \<Rightarrow> grpc_ctx \<Rightarrow> string \<Rightarrow> 'g GrpcRule list \<Rightarrow> ('g, 'n) GrpcProxy
     \<Rightarrow> grpc_ctx \<times> 'n option \<times> grpc_status option" where
  "GrpcProxy_rules_loop gl ctx meth [] p =
     (if gp_defaultAction p = RuleActionAllow then (ctx, Some (gp_client p), None)
      else (ctx, None, Some grpc_unauthorized))"
| "GrpcProxy_rules_loop gl ctx meth (rule # rules) p =
     (if GrpcRule_Match gl rule meth then
        if gr_Action rule = RuleActionAllow then (ctx, Some (gp_client p), None)
        else if gr_Action rule = RuleActionDeny then (ctx, None, Some grpc_unauthorized)
        else GrpcProxy_rules_loop gl ctx meth rules p
      else GrpcProxy_rules_loop gl ctx meth rules p)"

definition GrpcProxy_Handle ::
  "'g globber \<Rightarrow> grpc_ctx \<Rightarrow> string \<Rightarrow> ('g, 'n) GrpcProxy
     \<Rightarrow> grpc_ctx \<times> 'n option \<times> grpc_status option" where
  "GrpcProxy_Handle gl ctx meth p =
     (let outCtx = ctx\<lparr>gx_outgoing := gx_incoming ctx\<rparr>
      in if HasPrefix meth ''/grpc.reflection'' then (outCtx, Some (gp_client p), None)
         else GrpcProxy_rules_loop gl ctx meth (gp_rules p) p)"

section \<open>The loop implements the policy\<close>

definition GrpcProxy_policy ::
  "'g globber \<Rightarrow> string \<Rightarrow> ('g, 'n) GrpcProxy \<Rightarrow> 'g GrpcRule verdict outcome" where
  "GrpcProxy_policy gl meth p =
     policy (\<lambda>rule. Ret (GrpcRule_Match gl rule meth)) gr_Action (gp_defaultAction p) (gp_rules p)"

lemma GrpcProxy_rules_loop_policy:
  "policy (\<lambda>rule. Ret (GrpcRule_Match gl rule meth)) gr_Action (gp_defaultAction p) rules = Ret v \<Longrightarrow>
     GrpcProxy_rules_loop gl ctx meth rules p =
      (case v of Allowed _ \<Rightarrow> (ctx, Some (gp_client p), None)
       | Denied _ \<Rightarrow> (ctx, None, Some grpc_unauthorized))"
  by (induction rules) (auto split: if_splits bool.splits)

lemma GrpcProxy_Handle_verdict:
  assumes "\<not> HasPrefix meth ''/grpc.reflection''" and "GrpcProxy_policy gl meth p = Ret v"
  shows "GrpcProxy_Handle gl ctx meth p =
      (case v of Allowed _ \<Rightarrow> (ctx, Some (gp_client p), None)
       | Denied _ \<Rightarrow> (ctx, None, Some grpc_unauthorized))"
  using assms GrpcProxy_rules_loop_policy [of gl meth p "gp_rules p" v ctx]
  by (simp add: GrpcProxy_Handle_def GrpcProxy_policy_def)

definition GrpcRule_applies :: "'g globber \<Rightarrow> 'g GrpcRule \<Rightarrow> string \<Rightarrow> bool" where
  "GrpcRule_applies gl r meth \<longleftrightarrow>
     gr_Methods r = [] \<or> list_ex (\<lambda>p. pattern_matches gl ''/'' p meth) (gr_Methods r)"

lemma GrpcRule_compiled_applies:
  "GrpcRule_Compile gl r = Ret r' \<Longrightarrow> Ret (GrpcRule_Match gl r' meth) = Ret (GrpcRule_applies gl r meth)
     \<and> gr_Action r' = gr_Action r"
  by (simp add: GrpcRule_Match_compiled GrpcRule_Compile_fields GrpcRule_applies_def list_ex_iff)

section \<open>Properties\<close>

definition demo_grpc_rule :: "RuleAction \<Rightarrow> string list \<Rightarrow> string GrpcRule" where
  "demo_grpc_rule a ms = \<lparr>gr_Priority = 0, gr_Action = a, gr_Methods = ms, gr_MethodGlobs = ms\<rparr>"

definition demo_grpc :: "(string, unit) GrpcProxy" where
  "demo_grpc = \<lparr>gp_defaultAction = RuleActionAllow,
     gp_rules = [demo_grpc_rule ''log'' [], demo_grpc_rule RuleActionDeny [''/a.B/C'']], gp_client = ()\<rparr>"

definition demo_ctx :: grpc_ctx where
  "demo_ctx = \<lparr>gx_incoming = [(''x-cosmos-block-height'', [''5''])], gx_outgoing = [], gx_peer = None\<rparr>"

lemmas demo_grpc_defs = demo_grpc_def demo_grpc_rule_def demo_ctx_def

text \<open>
  C22: The first configured gRPC rule that applies to the method and has a recognised action
  decides: the call goes to the upstream connection, or it fails with \<open>Unavailable\<close> and no
  connection.  Reflection services are outside the rules.
\<close>

theorem grpc_first_rule_decides:
  assumes "\<not> HasPrefix meth ''/grpc.reflection''"
    and "Compile_each (GrpcRule_Compile gl) (us @ rule # vs) = Ret (gp_rules p)"
    and "\<forall>x\<in>set us. \<not> (GrpcRule_applies gl x meth \<and> recognised (gr_Action x))"
    and "GrpcRule_applies gl rule meth" and "recognised (gr_Action rule)"
  shows "GrpcProxy_Handle gl ctx meth p =
    (if gr_Action rule = RuleActionAllow then (ctx, Some (gp_client p), None)
     else (ctx, None, Some grpc_unauthorized))"
proof -
  obtain rule' where "GrpcRule_Compile gl rule = Ret rule'"
    "GrpcProxy_policy gl meth p = Ret (rule_verdict gr_Action rule')"
    using policy_Compile_each [OF assms(2) GrpcRule_compiled_applies [of gl _ _ meth] assms(3-5),
        of "gp_defaultAction p"]
    unfolding GrpcProxy_policy_def by metis
  then show ?thesis
    using GrpcProxy_Handle_verdict [OF assms(1), of gl p "rule_verdict gr_Action rule'" ctx]
      GrpcRule_Compile_fields [of gl rule rule']
    by (simp add: rule_verdict_def)
qed

theorem grpc_first_rule_decides_witness:
  "GrpcProxy_Handle exact_glob demo_ctx ''/a.B/C'' demo_grpc = (demo_ctx, None, Some grpc_unauthorized)"
  using grpc_first_rule_decides [of "''/a.B/C''" exact_glob "[demo_grpc_rule ''log'' []]"
      "demo_grpc_rule RuleActionDeny [''/a.B/C'']" "[]" demo_grpc demo_ctx]
  by (simp add: demo_grpc_defs GrpcRule_Compile_def MustCompile_def exact_glob_def GrpcRule_applies_def
      pattern_matches_def recognised_def RuleActionAllow_def RuleActionDeny_def)

text \<open>
  The metadata of an allowed call is not forwarded: the director builds a context whose
  outgoing metadata is a copy of the incoming one, but returns it for the reflection services
  only.  Every other allowed call leaves with the outgoing metadata its context came with.
\<close>

theorem grpc_metadata_forwarded_iff_reflection:
  assumes "GrpcProxy_Handle gl ctx meth p = (ctx', Some conn, e)"
    and "gx_incoming ctx \<noteq> gx_outgoing ctx"
  shows "gx_outgoing ctx' = gx_incoming ctx \<longleftrightarrow> HasPrefix meth ''/grpc.reflection''"
proof (cases "HasPrefix meth ''/grpc.reflection''")
  case True
  with assms(1) show ?thesis by (auto simp: GrpcProxy_Handle_def)
next
  case False
  obtain v where "GrpcProxy_policy gl meth p = Ret v"
    using policy_returns [of "gp_rules p" "\<lambda>rule. Ret (GrpcRule_Match gl rule meth)"]
    unfolding GrpcProxy_policy_def by (metis returns.simps(1) returnsE)
  from GrpcProxy_Handle_verdict [OF False this] assms False show ?thesis
    by (cases v) auto
qed

theorem grpc_metadata_forwarded_iff_reflection_witness:
  "gx_outgoing (fst (GrpcProxy_Handle exact_glob demo_ctx ''/a.B/D'' demo_grpc)) \<noteq> gx_incoming demo_ctx"
  using grpc_metadata_forwarded_iff_reflection [of exact_glob demo_ctx "''/a.B/D''" demo_grpc demo_ctx "()" None]
  by (simp add: demo_grpc_defs GrpcProxy_Handle_def GrpcRule_Match_def exact_glob_def
      RuleActionAllow_def RuleActionDeny_def)

end
