(* ===== verification/JsonRpcHandler.thy ===== *)
theory JsonRpcHandler
  imports HttpProxy
begin

text \<open>
  \<open>src/pkg/cosmoguard/jsonrpc_handler.go\<close>: JSON-RPC over HTTP, single requests and batches.

  \<open>next\<close>, the reverse proxy the caller passes, and the WebSocket proxy are parameters.  A call
  of the handler returns what became of the response (\<open>Panic\<close> when the goroutine died; \<open>net/http\<close>
  recovers and closes the connection) and, in either case, the next state of the handler: a
  panic does not undo what was done before it.  \<open>jh_readers\<close> counts the read locks of
  \<open>rulesMutex\<close> that are held between requests; requests are served one after the other.
  Cached messages are values: no code changes a message after it was cached.  The WebSocket proxy has
  the handler's cache, not one of its own: it gets the cache and hands it back.
\<close>

section \<open>State\<close>

record ('g, 'c, 'x) JsonRpcHandler =
  jh_cache :: 'c
  jh_defaultAction :: RuleAction
  jh_wsProxy :: "'x option"
  jh_wsPath :: string
  jh_rules :: "'g JsonRpcRule list"
  jh_readers :: nat
  jh_responseTimeHist :: "string list list option"
  jh_batchResTimeHist :: "string list list option"

record ('g, 'c, 'x, 'u) rpc_env =
  jl_glob :: "'g globber"
  jl_cache :: "('c, 64 word, JsonRpcMsg) cache_api"
  jl_codec :: codec
  jl_grow :: "nat \<Rightarrow> nat"
  jl_next :: "Request \<Rightarrow> string \<Rightarrow> 'u \<Rightarrow> wcall list \<times> 'u"
  jl_ws_handle :: "'x \<Rightarrow> 'c \<Rightarrow> ResponseWriter \<Rightarrow> Request \<Rightarrow> 'u
     \<Rightarrow> ResponseWriter outcome \<times> 'x \<times> 'c \<times> 'u"
  jl_ws_SetRules :: "'g JsonRpcRule list \<Rightarrow> RuleAction \<Rightarrow> 'x \<Rightarrow> 'x"

definition NewJsonRpcHandler ::
  "('m, 64 word namespacedKey, JsonRpcMsg) ttlcache \<Rightarrow> ('s, 'o) redis
     \<Rightarrow> (string \<Rightarrow> JsonRpcHandlerOptions \<Rightarrow> 'x) \<Rightarrow> string
     \<Rightarrow> (JsonRpcHandlerOptions \<Rightarrow> JsonRpcHandlerOptions) list
     \<Rightarrow> err + ('g, ('m, 's) any_cache, 'x) JsonRpcHandler" where
  "NewJsonRpcHandler t r newWs name opts =
     (let cfg = apply_options opts DefaultJsonRpcHandlerOptions;
          hist = (if so_MetricsEnabled (jo_Shared cfg) then Some [] else None)
      in case setup_cache t r name (so_CacheConfig (jo_Shared cfg)) of
           Inl e \<Rightarrow> Inl e
         | Inr c \<Rightarrow> Inr \<lparr>jh_cache = c, jh_defaultAction = [],
             jh_wsProxy = (if jo_WebsocketEnabled cfg then Some (newWs name cfg) else None),
             jh_wsPath = jo_WebsocketPath cfg, jh_rules = [], jh_readers = 0,
             jh_responseTimeHist = hist, jh_batchResTimeHist = hist\<rparr>)"

text \<open>
  \<open>SetRules\<close> takes the write lock.  While a read lock that nobody will release is held it never
  returns, which is \<open>None\<close>.
\<close>

definition JsonRpcHandler_SetRules ::
  "('g, 'c, 'x, 'u) rpc_env \<Rightarrow> 'g JsonRpcRule list \<Rightarrow> RuleAction \<Rightarrow> ('g, 'c, 'x) JsonRpcHandler
     \<Rightarrow> ('g, 'c, 'x) JsonRpcHandler option" where
  "JsonRpcHandler_SetRules L rules defaultAction h =
     (if jh_readers h > 0 then None
      else Some (h\<lparr>jh_rules := rules, jh_defaultAction := defaultAction,
        jh_wsProxy := map_option (jl_ws_SetRules L rules defaultAction) (jh_wsProxy h)\<rparr>))"

definition JsonRpcHandler_observe ::
  "string list \<Rightarrow> ('g, 'c, 'x) JsonRpcHandler \<Rightarrow> ('g, 'c, 'x) JsonRpcHandler" where
  "JsonRpcHandler_observe labels h =
     h\<lparr>jh_responseTimeHist := map_option (\<lambda>l. l @ [labels]) (jh_responseTimeHist h)\<rparr>"

section \<open>A single request\<close>

definition writeSingleResponse :: "codec \<Rightarrow> ResponseWriter \<Rightarrow> JsonRpcMsg \<Rightarrow> ResponseWriter" where
  "writeSingleResponse cd w res =
     (case JsonRpcMsg_Marshal cd res of
        Inl err \<Rightarrow> Writer_WriteHeader 500 w
      | Inr b \<Rightarrow> Writer_Write b (Header_Set ''Content-Type'' ''application/json'' w))"

definition next_wrapped ::
  "('g, 'c, 'x, 'u) rpc_env \<Rightarrow> ResponseWriterWrapper \<Rightarrow> Request \<Rightarrow> reusableReader \<Rightarrow> 'u
     \<Rightarrow> ResponseWriterWrapper \<times> 'u" where
  "next_wrapped L ww r body u =
     (case fst (io_ReadAll (jl_grow L) body) of
        Inl _ \<Rightarrow> (ww, u)
      | Inr b \<Rightarrow> (case jl_next L r b u of (cs, u') \<Rightarrow> (wrapper_calls cs ww, u')))"

definition next_plain ::
  "('g, 'c, 'x, 'u) rpc_env \<Rightarrow> ResponseWriter \<Rightarrow> Request \<Rightarrow> reusableReader \<Rightarrow> 'u
     \<Rightarrow> ResponseWriter \<times> 'u" where
  "next_plain L w r body u =
     (case fst (io_ReadAll (jl_grow L) body) of
        Inl _ \<Rightarrow> (w, u)
      | Inr b \<Rightarrow> (case jl_next L r b u of (cs, u') \<Rightarrow> (writer_calls cs w, u')))"

text \<open>
  The upstream's answer goes to the client while it is recorded; it is cached when it parses
  as a single message and is cacheable.  An answer that is a batch leaves \<open>res\<close> nil.
\<close>

definition getSingleUpstreamResponse ::
  "('g, 'c, 'x, 'u) rpc_env \<Rightarrow> ResponseWriter \<Rightarrow> Request \<Rightarrow> reusableReader \<Rightarrow> 64 word \<Rightarrow> RuleCache
     \<Rightarrow> ('g, 'c, 'x) JsonRpcHandler \<Rightarrow> 'u
     \<Rightarrow> ResponseWriter outcome \<times> ('g, 'c, 'x) JsonRpcHandler \<times> 'u" where
  "getSingleUpstreamResponse L w r body hash cache h u =
     (case next_wrapped L (WrapResponseWriter w) r body u of
        (ww, u') \<Rightarrow> (case Wrapper_GetWrittenBytes ww of
            (Inl err, ww') \<Rightarrow> (Ret (ww_w ww'), h, u')
          | (Inr b, ww') \<Rightarrow> (case ParseJsonRpcMessage (jl_codec L) b of
                (None, _, _) \<Rightarrow> (Panic ''nil pointer dereference'', h, u')
              | (Some res, _, _) \<Rightarrow>
                  if jm_Error res \<noteq> None \<and> \<not> rc_CacheError cache then (Ret (ww_w ww'), h, u')
                  else if jm_Result res = GNil \<and> \<not> rc_CacheEmptyResult cache then (Ret (ww_w ww'), h, u')
                  else (case c_set (jl_cache L) hash res (rc_TTL cache) (jh_cache h) of
                      (err, c) \<Rightarrow> (Ret (ww_w ww'), h\<lparr>jh_cache := c\<rparr>, u')))))"

definition single_labels :: "JsonRpcMsg \<Rightarrow> string \<Rightarrow> RuleAction \<Rightarrow> string list" where
  "single_labels request cached action =
     [jm_Method request, JsonRpcMsg_MaybeGetPath request, cached, action]"

definition single_upstream ::
  "('g, 'c, 'x, 'u) rpc_env \<Rightarrow> JsonRpcMsg \<Rightarrow> ResponseWriter \<Rightarrow> Request \<Rightarrow> reusableReader \<Rightarrow> RuleCache
     \<Rightarrow> ('g, 'c, 'x) JsonRpcHandler \<Rightarrow> 'u
     \<Rightarrow> ResponseWriter outcome \<times> ('g, 'c, 'x) JsonRpcHandler \<times> 'u" where
  "single_upstream L request w r body rc h u =
     (case getSingleUpstreamResponse L w r body (JsonRpcMsg_Hash (jl_codec L) request) rc h u of
        (Panic p, h', u') \<Rightarrow> (Panic p, h', u')
      | (Ret w', h', u') \<Rightarrow>
          (Ret w', JsonRpcHandler_observe (single_labels request cacheMiss RuleActionAllow) h', u'))"

text \<open>The branch of an allowing rule with a \<open>cache\<close> section.\<close>

definition single_cached ::
  "('g, 'c, 'x, 'u) rpc_env \<Rightarrow> JsonRpcMsg \<Rightarrow> ResponseWriter \<Rightarrow> Request \<Rightarrow> reusableReader \<Rightarrow> RuleCache
     \<Rightarrow> ('g, 'c, 'x) JsonRpcHandler \<Rightarrow> 'u
     \<Rightarrow> ResponseWriter outcome \<times> ('g, 'c, 'x) JsonRpcHandler \<times> 'u" where
  "single_cached L request w r body rc h u =
     (let hash = JsonRpcMsg_Hash (jl_codec L) request
      in case c_has (jl_cache L) hash (jh_cache h) of
        ((cached, err), c) \<Rightarrow>
          if cached then
            (case c_get (jl_cache L) hash c of
               (Inr res, c') \<Rightarrow>
                 (Ret (writeSingleResponse (jl_codec L) w (JsonRpcMsg_CloneWithID (jm_ID request) res)),
                  JsonRpcHandler_observe (single_labels request cacheHit RuleActionAllow)
                    (h\<lparr>jh_cache := c'\<rparr>), u)
             | (Inl e, c') \<Rightarrow> single_upstream L request w r body rc (h\<lparr>jh_cache := c'\<rparr>) u)
          else single_upstream L request w r body rc (h\<lparr>jh_cache := c\<rparr>) u)"

definition single_forward ::
  "('g, 'c, 'x, 'u) rpc_env \<Rightarrow> JsonRpcMsg \<Rightarrow> ResponseWriter \<Rightarrow> Request \<Rightarrow> reusableReader
     \<Rightarrow> ('g, 'c, 'x) JsonRpcHandler \<Rightarrow> 'u
     \<Rightarrow> ResponseWriter outcome \<times> ('g, 'c, 'x) JsonRpcHandler \<times> 'u" where
  "single_forward L request w r body h u =
     (case next_plain L w r body u of (w', u') \<Rightarrow>
        (Ret w', JsonRpcHandler_observe (single_labels request cacheMiss RuleActionAllow) h, u'))"

definition single_denied ::
  "('g, 'c, 'x, 'u) rpc_env \<Rightarrow> JsonRpcMsg \<Rightarrow> ResponseWriter \<Rightarrow> ('g, 'c, 'x) JsonRpcHandler \<Rightarrow> 'u
     \<Rightarrow> ResponseWriter outcome \<times> ('g, 'c, 'x) JsonRpcHandler \<times> 'u" where
  "single_denied L request w h u =
     (Ret (writeSingleResponse (jl_codec L) w (UnauthorizedResponse request)),
      JsonRpcHandler_observe (single_labels request cacheMiss RuleActionDeny) h, u)"

fun single_rules_loop ::
  "('g, 'c, 'x, 'u) rpc_env \<Rightarrow> JsonRpcMsg \<Rightarrow> ResponseWriter \<Rightarrow> Request \<Rightarrow> reusableReader
     \<Rightarrow> 'g JsonRpcRule list \<Rightarrow> ('g, 'c, 'x) JsonRpcHandler \<Rightarrow> 'u
     \<Rightarrow> ResponseWriter outcome \<times> ('g, 'c, 'x) JsonRpcHandler \<times> 'u" where
  "single_rules_loop L request w r body [] h u =
     (if jh_defaultAction h = RuleActionAllow then single_forward L request w r body h u
      else single_denied L request w h u)"
| "single_rules_loop L request w r body (rule # rules) h u =
     (case JsonRpcRule_Match (jl_glob L) rule request of
        Panic p \<Rightarrow> (Panic p, h, u)
      | Ret False \<Rightarrow> single_rules_loop L request w r body rules h u
      | Ret True \<Rightarrow>
          if jq_Action rule = RuleActionAllow then
            (case jq_Cache rule of
               Some rc \<Rightarrow> single_cached L request w r body rc h u
             | None \<Rightarrow> single_forward L request w r body h u)
          else if jq_Action rule = RuleActionDeny then single_denied L request w h u
          else single_rules_loop L request w r body rules h u)"

text \<open>The read lock is taken, and released by \<open>defer\<close>: after a panic too.\<close>

definition handleHttpSingle ::
  "('g, 'c, 'x, 'u) rpc_env \<Rightarrow> JsonRpcMsg \<Rightarrow> ResponseWriter \<Rightarrow> Request \<Rightarrow> reusableReader
     \<Rightarrow> ('g, 'c, 'x) JsonRpcHandler \<Rightarrow> 'u
     \<Rightarrow> ResponseWriter outcome \<times> ('g, 'c, 'x) JsonRpcHandler \<times> 'u" where
  "handleHttpSingle L request w r body h u =
     (case single_rules_loop L request w r body (jh_rules h) (h\<lparr>jh_readers := jh_readers h + 1\<rparr>) u of
        (out, h', u') \<Rightarrow> (out, h'\<lparr>jh_readers := jh_readers h' - 1\<rparr>, u'))"

section \<open>A batch\<close>

text \<open>
  The state of the loop over the requests: the responses so far, the cache and the counters.
  A step returns the message of a panic, if there was one, and the state it left.
\<close>

record 'c batch =
  bt_responses :: JsonRpcResponses
  bt_cache :: 'c
  bt_cacheHits :: nat
  bt_cacheMisses :: nat
  bt_allowed :: nat
  bt_denied :: nat

definition batch_default ::
  "RuleAction \<Rightarrow> msg_ptr \<Rightarrow> 'c batch \<Rightarrow> 'c batch" where
  "batch_default defaultAction req st =
     (if defaultAction = RuleActionAllow then
        st\<lparr>bt_responses := Responses_AddPending req (bt_responses st), bt_allowed := bt_allowed st + 1\<rparr>
      else
        st\<lparr>bt_responses := Responses_Deny req (bt_responses st), bt_denied := bt_denied st + 1\<rparr>)"

definition batch_allow ::
  "('g, 'c, 'x, 'u) rpc_env \<Rightarrow> 'g JsonRpcRule \<Rightarrow> msg_ptr \<Rightarrow> 'c batch \<Rightarrow> 'c batch" where
  "batch_allow L rule req st =
     (let hash = JsonRpcMsg_Hash (jl_codec L) (snd req);
          st1 = st\<lparr>bt_allowed := bt_allowed st + 1\<rparr>;
          pending = (\<lambda>c. st1\<lparr>bt_cache := c, bt_cacheMisses := bt_cacheMisses st1 + 1,
            bt_responses := Responses_AddPendingWithCacheConfig req hash (jq_Cache rule) (bt_responses st1)\<rparr>)
      in case c_has (jl_cache L) hash (bt_cache st1) of
           ((cached, Some err), c) \<Rightarrow> pending c
         | ((cached, None), c) \<Rightarrow>
             if cached then
               (case c_get (jl_cache L) hash c of
                  (Inr res, c') \<Rightarrow> st1\<lparr>bt_cache := c', bt_cacheHits := bt_cacheHits st1 + 1,
                    bt_responses := Responses_AddResponse req res (bt_responses st1)\<rparr>
                | (Inl err, c') \<Rightarrow> pending c')
             else pending c)"

text \<open>
  The inner loop.  A matching rule with an unrecognised action ends it (the \<open>break\<close> after the
  switch), and the default action applies.
\<close>

fun batch_rules ::
  "('g, 'c, 'x, 'u) rpc_env \<Rightarrow> RuleAction \<Rightarrow> 'g JsonRpcRule list \<Rightarrow> msg_ptr \<Rightarrow> 'c batch
     \<Rightarrow> string option \<times> 'c batch" where
  "batch_rules L defaultAction [] req st = (None, batch_default defaultAction req st)"
| "batch_rules L defaultAction (rule # rules) req st =
     (case JsonRpcRule_Match (jl_glob L) rule (snd req) of
        Panic p \<Rightarrow> (Some p, st)
      | Ret False \<Rightarrow> batch_rules L defaultAction rules req st
      | Ret True \<Rightarrow>
          if jq_Action rule = RuleActionAllow then (None, batch_allow L rule req st)
          else if jq_Action rule = RuleActionDeny then
            (None, st\<lparr>bt_denied := bt_denied st + 1,
               bt_responses := Responses_Deny req (bt_responses st)\<rparr>)
          else (None, batch_default defaultAction req st))"

text \<open>One request; \<open>i\<close> is its index, which stands for its address.  A nil request panics.\<close>

definition batch_request ::
  "('g, 'c, 'x, 'u) rpc_env \<Rightarrow> RuleAction \<Rightarrow> 'g JsonRpcRule list \<Rightarrow> nat \<Rightarrow> JsonRpcMsg option
     \<Rightarrow> 'c batch \<Rightarrow> string option \<times> 'c batch" where
  "batch_request L defaultAction rules i request st =
     (case request of
        None \<Rightarrow> (Some ''nil pointer dereference'', st)
      | Some m \<Rightarrow>
          if rules = [] then
            (None, batch_default defaultAction (i, m) (st\<lparr>bt_cacheMisses := bt_cacheMisses st + 1\<rparr>))
          else batch_rules L defaultAction rules (i, m) st)"

fun batch_loop ::
  "('g, 'c, 'x, 'u) rpc_env \<Rightarrow> RuleAction \<Rightarrow> 'g JsonRpcRule list \<Rightarrow> nat \<Rightarrow> JsonRpcMsg option list
     \<Rightarrow> 'c batch \<Rightarrow> string option \<times> 'c batch" where
  "batch_loop L defaultAction rules i [] st = (None, st)"
| "batch_loop L defaultAction rules i (r # rs) st =
     (case batch_request L defaultAction rules i r st of
        (Some p, st') \<Rightarrow> (Some p, st')
      | (None, st') \<Rightarrow> batch_loop L defaultAction rules (Suc i) rs st')"

text \<open>
  The pending requests are sent as one batch; a single message in answer counts as a batch of
  one when the answer is no batch or an empty one.
\<close>

definition getResponsesFromUpstream ::
  "('g, 'c, 'x, 'u) rpc_env \<Rightarrow> Request \<Rightarrow> msg_ptr list \<Rightarrow> 'u
     \<Rightarrow> (err + JsonRpcMsg option list) \<times> 'u" where
  "getResponsesFromUpstream L httpRequest requests u =
     (case JsonRpcMsgs_Marshal (jl_codec L) (map snd requests) of
        Inl err \<Rightarrow> (Inl (ErrText ''error marshalling requests to upstream''), u)
      | Inr b \<Rightarrow>
          (let req = httpRequest\<lparr>rq_Body := \<lparr>bs_data = b, bs_error = None\<rparr>\<rparr>
           in case jl_next L req b u of (cs, u') \<Rightarrow>
             (case ParseJsonRpcMessage (jl_codec L) (w_body (writer_calls cs new_writer)) of
                (single, responses, _) \<Rightarrow>
                  (Inr (if responses = [] \<and> single \<noteq> None then [single] else responses), u'))))"

definition batch_upstream ::
  "('g, 'c, 'x, 'u) rpc_env \<Rightarrow> Request \<Rightarrow> JsonRpcResponses \<Rightarrow> 'c \<Rightarrow> 'u
     \<Rightarrow> (err + JsonRpcResponses) outcome \<times> 'c \<times> 'u" where
  "batch_upstream L r responses c u =
     (let pendingRequests = Responses_GetPendingRequests responses
      in if length pendingRequests > 0 then
           (case getResponsesFromUpstream L r pendingRequests u of
              (Inl err, u') \<Rightarrow> (Ret (Inl err), c, u')
            | (Inr upstreamResponses, u') \<Rightarrow>
                if length upstreamResponses = length pendingRequests then
                  (case Responses_Set pendingRequests upstreamResponses responses of
                     Panic p \<Rightarrow> (Panic p, c, u')
                   | Ret responses' \<Rightarrow>
                       (case Responses_StoreInCache (jl_cache L) responses' c of
                          (err, c') \<Rightarrow> (Ret (Inr responses'), c', u')))
                else (Ret (Inr responses), c, u'))
         else (Ret (Inr responses), c, u))"

definition batch_labels :: "nat \<Rightarrow> 'c batch \<Rightarrow> string list" where
  "batch_labels n st = map (\<lambda>k. Itoa (int k))
     [n, bt_allowed st, bt_denied st, bt_cacheHits st, bt_cacheMisses st]"

definition empty_batch :: "'c \<Rightarrow> 'c batch" where
  "empty_batch c = \<lparr>bt_responses = [], bt_cache = c, bt_cacheHits = 0, bt_cacheMisses = 0,
     bt_allowed = 0, bt_denied = 0\<rparr>"

text \<open>
  \<open>handleHttpBatch\<close> releases the read lock after the loop, not by \<open>defer\<close>: a panic in the
  loop leaves it held.
\<close>

definition handleHttpBatch ::
  "('g, 'c, 'x, 'u) rpc_env \<Rightarrow> JsonRpcMsg option list \<Rightarrow> ResponseWriter \<Rightarrow> Request
     \<Rightarrow> ('g, 'c, 'x) JsonRpcHandler \<Rightarrow> 'u
     \<Rightarrow> ResponseWriter outcome \<times> ('g, 'c, 'x) JsonRpcHandler \<times> 'u" where
  "handleHttpBatch L requests w r h u =
     (let h1 = h\<lparr>jh_readers := jh_readers h + 1\<rparr>
      in case batch_loop L (jh_defaultAction h1) (jh_rules h1) 0 requests (empty_batch (jh_cache h1)) of
           (Some p, st) \<Rightarrow> (Panic p, h1\<lparr>jh_cache := bt_cache st\<rparr>, u)
         | (None, st) \<Rightarrow>
             (let h2 = h1\<lparr>jh_readers := jh_readers h1 - 1\<rparr>
              in case batch_upstream L r (bt_responses st) (bt_cache st) u of
                   (Panic p, c, u') \<Rightarrow> (Panic p, h2\<lparr>jh_cache := c\<rparr>, u')
                 | (Ret (Inl err), c, u') \<Rightarrow>
                     (Ret (WriteError 500 ''error getting responses from upstream'' [] w),
                      h2\<lparr>jh_cache := c\<rparr>, u')
                 | (Ret (Inr responses), c, u') \<Rightarrow>
                     (case JsonRpcMsgs_Marshal (jl_codec L) (Responses_GetFinal responses) of
                        Inl err \<Rightarrow> (Ret (Writer_WriteHeader 500 w), h2\<lparr>jh_cache := c\<rparr>, u')
                      | Inr b \<Rightarrow> (Ret (WriteData 200 b [''Content-Type'', ''application/json''] w),
                          h2\<lparr>jh_cache := c,
                             jh_batchResTimeHist := map_option
                               (\<lambda>l. l @ [batch_labels (length requests) st]) (jh_batchResTimeHist h2)\<rparr>, u'))))"

section \<open>The handler\<close>

definition handleHttp ::
  "('g, 'c, 'x, 'u) rpc_env \<Rightarrow> ResponseWriter \<Rightarrow> Request \<Rightarrow> ('g, 'c, 'x) JsonRpcHandler \<Rightarrow> 'u
     \<Rightarrow> ResponseWriter outcome \<times> ('g, 'c, 'x) JsonRpcHandler \<times> 'u" where
  "handleHttp L w r h u =
     (case io_ReadAll (jl_grow L) (ReusableReader (rq_Body r)) of
        (Inl err, body) \<Rightarrow> (Ret (WriteError 400 ''bad request'' [] w), h, u)
      | (Inr b, body) \<Rightarrow>
          (case ParseJsonRpcMessage (jl_codec L) b of
             (Some req, requests, _) \<Rightarrow> handleHttpSingle L req w r body h u
           | (None, requests, _) \<Rightarrow> handleHttpBatch L requests w r h u))"

definition JsonRpcHandler_ServeHTTP ::
  "('g, 'c, 'x, 'u) rpc_env \<Rightarrow> ResponseWriter \<Rightarrow> Request \<Rightarrow> ('g, 'c, 'x) JsonRpcHandler \<Rightarrow> 'u
     \<Rightarrow> ResponseWriter outcome \<times> ('g, 'c, 'x) JsonRpcHandler \<times> 'u" where
  "JsonRpcHandler_ServeHTTP L w r h u =
     (if rq_Method r = ''POST'' \<and> rq_Path r = ''/'' then handleHttp L w r h u
      else (case jh_wsProxy h of
          Some ws \<Rightarrow>
            if rq_Path r = jh_wsPath h \<and> rq_Method r = ''GET'' then
              (case jl_ws_handle L ws (jh_cache h) w r u of
                 (out, ws', c, u') \<Rightarrow> (out, h\<lparr>jh_wsProxy := Some ws', jh_cache := c\<rparr>, u'))
            else (Ret (WriteError 400 ''unexpected request'' [] w), h, u)
        | None \<Rightarrow> (Ret (WriteError 400 ''unexpected request'' [] w), h, u)))"

end
