(* ===== verification/JsonRpcHandlerSpec.thy ===== *)
theory JsonRpcHandlerSpec
  imports JsonRpcHandler
begin

text \<open>
  What the JSON-RPC handler promises: its rule loops against the policy, the responses of a
  batch, the lock, and what the cache holds.
\<close>

section \<open>A single request\<close>

definition rpc_policy ::
  "'g globber \<Rightarrow> JsonRpcMsg \<Rightarrow> RuleAction \<Rightarrow> 'g JsonRpcRule list \<Rightarrow> 'g JsonRpcRule verdict outcome" where
  "rpc_policy gl m def rules = policy (\<lambda>rule. JsonRpcRule_Match gl rule m) jq_Action def rules"

definition rule_cache_of :: "'g JsonRpcRule option \<Rightarrow> RuleCache option" where
  "rule_cache_of x = (case x of None \<Rightarrow> None | Some rule \<Rightarrow> jq_Cache rule)"

definition single_allowed ::
  "('g, 'c, 'x, 'u) rpc_env \<Rightarrow> JsonRpcMsg \<Rightarrow> ResponseWriter \<Rightarrow> Request \<Rightarrow> reusableReader
     \<Rightarrow> RuleCache option \<Rightarrow> ('g, 'c, 'x) JsonRpcHandler \<Rightarrow> 'u
     \<Rightarrow> ResponseWriter outcome \<times> ('g, 'c, 'x) JsonRpcHandler \<times> 'u" where
  "single_allowed L request w r body rc h u =
     (case rc of Some x \<Rightarrow> single_cached L request w r body x h u
      | None \<Rightarrow> single_forward L request w r body h u)"

lemma single_rules_loop_policy:
  "single_rules_loop L q w r body rules h u =
     (case rpc_policy (jl_glob L) q (jh_defaultAction h) rules of
        Panic p \<Rightarrow> (Panic p, h, u)
      | Ret (Allowed x) \<Rightarrow> single_allowed L q w r body (rule_cache_of x) h u
      | Ret (Denied x) \<Rightarrow> single_denied L q w h u)"
proof (induction rules)
  case Nil
  then show ?case by (simp add: rpc_policy_def single_allowed_def rule_cache_of_def)
next
  case (Cons rule rules)
  show ?case
  proof (cases "JsonRpcRule_Match (jl_glob L) rule q")
    case (Ret b)
    with Cons show ?thesis
      by (cases b) (auto simp: rpc_policy_def single_allowed_def rule_cache_of_def)
  qed (simp add: rpc_policy_def)
qed

lemma single_frame:
  "single_allowed L q w r body rc h u = (out, h', u') \<Longrightarrow> jh_readers h' = jh_readers h
     \<and> jh_rules h' = jh_rules h \<and> jh_defaultAction h' = jh_defaultAction h \<and> jh_wsProxy h' = jh_wsProxy h"
  by (auto simp: single_allowed_def single_cached_def single_forward_def single_upstream_def
      getSingleUpstreamResponse_def JsonRpcHandler_observe_def Let_def
      split: option.splits prod.splits if_splits sum.splits outcome.splits)

lemma single_denied_frame:
  "single_denied L q w h u = (out, h', u') \<Longrightarrow> jh_readers h' = jh_readers h
     \<and> jh_rules h' = jh_rules h \<and> jh_defaultAction h' = jh_defaultAction h \<and> jh_wsProxy h' = jh_wsProxy h
     \<and> jh_cache h' = jh_cache h"
  by (auto simp: single_denied_def JsonRpcHandler_observe_def)

lemma handleHttpSingle_verdict:
  "handleHttpSingle L q w r body h u =
    (case case rpc_policy (jl_glob L) q (jh_defaultAction h) (jh_rules h) of
        Panic p \<Rightarrow> (Panic p, h\<lparr>jh_readers := jh_readers h + 1\<rparr>, u)
      | Ret (Allowed x) \<Rightarrow>
          single_allowed L q w r body (rule_cache_of x) (h\<lparr>jh_readers := jh_readers h + 1\<rparr>) u
      | Ret (Denied x) \<Rightarrow> single_denied L q w (h\<lparr>jh_readers := jh_readers h + 1\<rparr>) u
     of (out, h', u') \<Rightarrow> (out, h'\<lparr>jh_readers := jh_readers h' - 1\<rparr>, u'))"
proof -
  have default: "jh_defaultAction (h\<lparr>jh_readers := n\<rparr>) = jh_defaultAction h" for n by simp
  show ?thesis by (simp only: handleHttpSingle_def single_rules_loop_policy default)
qed

lemma handleHttpSingle_readers:
  assumes "handleHttpSingle L q w r body h u = (out, h', u')"
  shows "jh_readers h' = jh_readers h"
  using assms
  by (auto simp: handleHttpSingle_verdict dest: single_frame single_denied_frame
      split: outcome.splits verdict.splits prod.splits)

section \<open>The decision on a request of a batch\<close>

text \<open>The first rule that matches decides, by the default action when its own is unrecognised.\<close>

fun batch_policy ::
  "('r \<Rightarrow> bool outcome) \<Rightarrow> ('r \<Rightarrow> RuleAction) \<Rightarrow> RuleAction \<Rightarrow> 'r list \<Rightarrow> 'r verdict outcome" where
  "batch_policy mat act def [] = Ret (default_verdict def)"
| "batch_policy mat act def (r # rs) =
     (case mat r of
        Panic p \<Rightarrow> Panic p
      | Ret False \<Rightarrow> batch_policy mat act def rs
      | Ret True \<Rightarrow> Ret (if recognised (act r) then rule_verdict act r else default_verdict def))"

lemma batch_policy_eq:
  "list_all (\<lambda>r. recognised (act r)) rs \<Longrightarrow> batch_policy mat act def rs = policy mat act def rs"
  by (induction rs)
    (auto simp: default_verdict_def rule_verdict_def recognised_def split: outcome.split bool.split)

definition rpc_batch_policy ::
  "'g globber \<Rightarrow> JsonRpcMsg \<Rightarrow> RuleAction \<Rightarrow> 'g JsonRpcRule list \<Rightarrow> 'g JsonRpcRule verdict outcome" where
  "rpc_batch_policy gl m def rules = batch_policy (\<lambda>rule. JsonRpcRule_Match gl rule m) jq_Action def rules"

text \<open>
  What the loop makes of one request, given the verdict on it: an entry for that request, with
  the denial, or open, or with a cached message under the request's id.
\<close>

fun entry_ok ::
  "('g, 'c, 'x, 'u) rpc_env \<Rightarrow> RuleAction \<Rightarrow> 'g JsonRpcRule list \<Rightarrow> nat \<times> JsonRpcMsg option
     \<Rightarrow> JsonRpcResponse \<Rightarrow> bool" where
  "entry_ok L def rules (i, None) e = False"
| "entry_ok L def rules (i, Some m) e \<longleftrightarrow> jr_Request e = (i, m) \<and>
     (case rpc_batch_policy (jl_glob L) m def rules of
        Panic _ \<Rightarrow> False
      | Ret (Denied _) \<Rightarrow> jr_Response e = Some (UnauthorizedResponse m) \<and> jr_Cache e = None
      | Ret (Allowed x) \<Rightarrow>
          (jr_Response e = None
             \<and> (jr_Cache e = None \<or> jr_Cache e = rule_cache_of x \<and> jr_CacheKey e = JsonRpcMsg_Hash (jl_codec L) m))
          \<or> (\<exists>res. jr_Response e = Some (JsonRpcMsg_CloneWithID (jm_ID m) res) \<and> jr_Cache e = None))"

definition batch_step_ok ::
  "('g, 'c, 'x, 'u) rpc_env \<Rightarrow> RuleAction \<Rightarrow> 'g JsonRpcRule list \<Rightarrow> nat \<times> JsonRpcMsg option
     \<Rightarrow> 'c batch \<Rightarrow> 'c batch \<Rightarrow> bool" where
  "batch_step_ok L def rules q st st' \<longleftrightarrow>
     (\<exists>e. bt_responses st' = bt_responses st @ [e] \<and> entry_ok L def rules q e)"

lemma batch_default_responses:
  "\<exists>e. bt_responses (batch_default def (i, m) st) = bt_responses st @ [e] \<and> jr_Request e = (i, m)
     \<and> jr_Cache e = None
     \<and> (case default_verdict def of Denied _ \<Rightarrow> jr_Response e = Some (UnauthorizedResponse m)
        | Allowed _ \<Rightarrow> jr_Response e = None)"
  by (auto simp: batch_default_def default_verdict_def responses_add)

lemma batch_allow_responses:
  "\<exists>e. bt_responses (batch_allow L rule (i, m) st) = bt_responses st @ [e] \<and> jr_Request e = (i, m)
     \<and> ((jr_Response e = None \<and> jr_Cache e = jq_Cache rule \<and> jr_CacheKey e = JsonRpcMsg_Hash (jl_codec L) m)
      \<or> (\<exists>res. jr_Response e = Some (JsonRpcMsg_CloneWithID (jm_ID m) res) \<and> jr_Cache e = None))"
  by (auto simp: batch_allow_def responses_add Let_def split: prod.split option.split sum.split)

lemma batch_rules_ok:
  assumes "batch_rules L def rules (i, m) st = (None, st')"
  shows "\<exists>v e. rpc_batch_policy (jl_glob L) m def rules = Ret v
    \<and> bt_responses st' = bt_responses st @ [e] \<and> jr_Request e = (i, m)
    \<and> (case v of Denied _ \<Rightarrow> jr_Response e = Some (UnauthorizedResponse m) \<and> jr_Cache e = None
       | Allowed x \<Rightarrow> (jr_Response e = None
             \<and> (jr_Cache e = None \<or> jr_Cache e = rule_cache_of x \<and> jr_CacheKey e = JsonRpcMsg_Hash (jl_codec L) m))
          \<or> (\<exists>res. jr_Response e = Some (JsonRpcMsg_CloneWithID (jm_ID m) res) \<and> jr_Cache e = None))"
  using assms
proof (induction rules)
  case Nil
  with batch_default_responses [of def i m st] show ?case
    by (auto simp: rpc_batch_policy_def split: verdict.splits)
next
  case (Cons rule rules)
  show ?case
  proof (cases "JsonRpcRule_Match (jl_glob L) rule m")
    case (Panic p)
    with Cons.prems show ?thesis by simp
  next
    case (Ret b)
    show ?thesis
    proof (cases b)
      case False
      with Ret Cons show ?thesis by (simp add: rpc_batch_policy_def)
    next
      case True
      consider "jq_Action rule = RuleActionAllow" | "jq_Action rule = RuleActionDeny"
        | "\<not> recognised (jq_Action rule)"
        by (auto simp: recognised_def)
      then show ?thesis
      proof cases
        case 1
        with Ret True Cons.prems(1) batch_allow_responses [of L rule i m st] show ?thesis
          by (auto simp: rpc_batch_policy_def recognised_def rule_verdict_def rule_cache_of_def)
      next
        case 2
        with Ret True Cons.prems(1) show ?thesis
          by (auto simp: rpc_batch_policy_def recognised_def rule_verdict_def responses_add)
      next
        case 3
        with Ret True Cons.prems(1) batch_default_responses [of def i m st] show ?thesis
          by (auto simp: rpc_batch_policy_def recognised_def split: verdict.splits)
      qed
    qed
  qed
qed

lemma batch_request_ok:
  assumes "batch_request L def rules i q st = (None, st')"
  shows "\<exists>e. bt_responses st' = bt_responses st @ [e] \<and> entry_ok L def rules (i, q) e"
proof (cases q)
  case None
  with assms show ?thesis by (simp add: batch_request_def)
next
  case (Some m)
  show ?thesis
  proof (cases "rules = []")
    case True
    with Some assms batch_default_responses [of def i m "st\<lparr>bt_cacheMisses := bt_cacheMisses st + 1\<rparr>"]
    show ?thesis
      by (auto simp: batch_request_def rpc_batch_policy_def split: verdict.splits)
  next
    case False
    with Some assms have "batch_rules L def rules (i, m) st = (None, st')"
      by (simp add: batch_request_def)
    from batch_rules_ok [OF this] Some show ?thesis by auto
  qed
qed

lemma batch_loop_ok:
  "batch_loop L def rules i reqs st = (None, st') \<Longrightarrow>
     \<exists>es. bt_responses st' = bt_responses st @ es
       \<and> list_all2 (entry_ok L def rules) (enumerate i reqs) es"
proof (induction reqs arbitrary: i st)
  case Nil
  then show ?case by simp
next
  case (Cons q reqs)
  obtain st1 where st1: "batch_request L def rules i q st = (None, st1)"
    and rest: "batch_loop L def rules (Suc i) reqs st1 = (None, st')"
    using Cons.prems by (auto split: prod.splits option.splits)
  obtain e where e: "bt_responses st1 = bt_responses st @ [e]" "entry_ok L def rules (i, q) e"
    using batch_request_ok [OF st1] by blast
  obtain es where "bt_responses st' = bt_responses st1 @ es"
    "list_all2 (entry_ok L def rules) (enumerate (Suc i) reqs) es"
    using Cons.IH [OF rest] by blast
  with e have "bt_responses st' = bt_responses st @ e # es
      \<and> list_all2 (entry_ok L def rules) (enumerate i (q # reqs)) (e # es)"
    by simp
  then show ?case by blast
qed

lemma entry_ok_request: "entry_ok L def rules q e \<Longrightarrow> fst (jr_Request e) = fst q \<and> snd q = Some (snd (jr_Request e))"
  by (cases q; cases "snd q") auto

lemma entries_requests:
  "list_all2 (entry_ok L def rules) qs es \<Longrightarrow> addresses es = map fst qs \<and> map (Some \<circ> snd \<circ> jr_Request) es = map snd qs"
  by (induction rule: list_all2_induct) (auto dest: entry_ok_request)

lemma entries_distinct:
  "list_all2 (entry_ok L def rules) (enumerate i reqs) es \<Longrightarrow> distinct (addresses es)"
  by (simp add: entries_requests)

text \<open>Only allowed requests are open.\<close>

lemma pending_allowed:
  assumes "list_all2 (entry_ok L def rules) (enumerate i reqs) es"
    and "m \<in> snd ` set (Responses_GetPendingRequests es)"
  shows "Some m \<in> set reqs \<and> (\<exists>x. rpc_batch_policy (jl_glob L) m def rules = Ret (Allowed x))"
proof -
  from assms(2) obtain e where e: "e \<in> set es" "jr_Response e = None" "snd (jr_Request e) = m"
    by (auto simp: GetPendingRequests_set)
  then obtain k where k: "k < length es" "es ! k = e" by (auto simp: in_set_conv_nth)
  with assms(1) have "entry_ok L def rules (enumerate i reqs ! k) e" and len: "k < length reqs"
    by (auto simp: list_all2_conv_all_nth)
  then have ok: "entry_ok L def rules (i + k, reqs ! k) e" by (simp add: nth_enumerate_eq)
  then have q: "reqs ! k = Some m" using entry_ok_request [OF ok] e by simp
  with len have "Some m \<in> set reqs" by (metis nth_mem)
  moreover from ok q e have "\<exists>x. rpc_batch_policy (jl_glob L) m def rules = Ret (Allowed x)"
    by (auto split: outcome.splits verdict.splits)
  ultimately show ?thesis by blast
qed

text \<open>What is sent to the upstream.\<close>

lemma batch_upstream_world:
  assumes "batch_upstream L r es c u = (x, c', u')"
  shows "u' = u \<or> (\<exists>b. JsonRpcMsgs_Marshal (jl_codec L) (map snd (Responses_GetPendingRequests es)) = Inr b
    \<and> Responses_GetPendingRequests es \<noteq> []
    \<and> u' = snd (jl_next L (r\<lparr>rq_Body := \<lparr>bs_data = b, bs_error = None\<rparr>\<rparr>) b u))"
  using assms
  by (auto simp: batch_upstream_def getResponsesFromUpstream_def Let_def
      split: if_splits prod.splits sum.splits outcome.splits)

lemma batch_upstream_set:
  assumes "distinct (addresses es)" and "batch_upstream L r es c u = (x, c', u')"
  shows "returns x"
proof (cases "getResponsesFromUpstream L r (Responses_GetPendingRequests es) u")
  case (Pair y u1)
  show ?thesis
  proof (cases y)
    case (Inl e)
    with assms(2) Pair show ?thesis
      by (auto simp: batch_upstream_def Let_def split: if_splits)
  next
    case (Inr ms)
    with assms Pair Responses_Set_fill [OF assms(1), of ms] show ?thesis
      by (auto simp: batch_upstream_def Let_def split: if_splits prod.splits)
  qed
qed

section \<open>The outcome of a batch\<close>

lemma handleHttpBatch_panic:
  assumes "batch_loop L (jh_defaultAction h) (jh_rules h) 0 requests (empty_batch (jh_cache h)) = (Some p, st)"
  shows "handleHttpBatch L requests w r h u =
    (Panic p, h\<lparr>jh_readers := jh_readers h + 1, jh_cache := bt_cache st\<rparr>, u)"
  using assms by (simp add: handleHttpBatch_def Let_def)

lemma handleHttpBatch_returns:
  assumes "batch_loop L (jh_defaultAction h) (jh_rules h) 0 requests (empty_batch (jh_cache h)) = (None, st)"
    and "handleHttpBatch L requests w r h u = (out, h', u')"
  shows "returns out" and "jh_readers h' = jh_readers h"
    and "u' = snd (snd (batch_upstream L r (bt_responses st) (bt_cache st) u))"
    and "jh_cache h' = fst (snd (batch_upstream L r (bt_responses st) (bt_cache st) u))"
proof -
  obtain x c u1 where up: "batch_upstream L r (bt_responses st) (bt_cache st) u = (x, c, u1)"
    by (metis surj_pair)
  obtain es where "bt_responses st = es" "list_all2 (entry_ok L (jh_defaultAction h) (jh_rules h)) (enumerate 0 requests) es"
    using batch_loop_ok [OF assms(1)] by (auto simp: empty_batch_def)
  with batch_upstream_set [OF _ up] have "returns x" by (simp add: entries_distinct)
  then obtain y where y: "x = Ret y" by (rule returnsE)
  note run = assms(2) [unfolded handleHttpBatch_def Let_def]
  have all: "returns out \<and> jh_readers h' = jh_readers h \<and> u' = u1 \<and> jh_cache h' = c"
  proof (cases y)
    case (Inl e)
    with run up y assms(1) show ?thesis by auto
  next
    case (Inr l)
    with run up y assms(1) show ?thesis
      by (cases "JsonRpcMsgs_Marshal (jl_codec L) (Responses_GetFinal l)") auto
  qed
  then show "returns out" "jh_readers h' = jh_readers h"
    "u' = snd (snd (batch_upstream L r (bt_responses st) (bt_cache st) u))"
    "jh_cache h' = fst (snd (batch_upstream L r (bt_responses st) (bt_cache st) u))"
    by (simp_all add: up)
qed

lemma handleHttpBatch_readers:
  assumes "handleHttpBatch L requests w r h u = (out, h', u')"
  shows "jh_readers h' = (case out of Ret _ \<Rightarrow> jh_readers h | Panic _ \<Rightarrow> jh_readers h + 1)"
proof (cases "batch_loop L (jh_defaultAction h) (jh_rules h) 0 requests (empty_batch (jh_cache h))")
  case (Pair a st)
  show ?thesis
  proof (cases a)
    case None
    with Pair have loop: "batch_loop L (jh_defaultAction h) (jh_rules h) 0 requests
      (empty_batch (jh_cache h)) = (None, st)" by simp
    from handleHttpBatch_returns(1,2) [OF loop assms] show ?thesis by (cases out) auto
  next
    case (Some p)
    with Pair assms handleHttpBatch_panic [of L h requests p st w r u] show ?thesis by auto
  qed
qed

lemma batch_loop_nil:
  "\<exists>p st'. batch_loop L def rules i (pre @ None # post) st = (Some p, st')"
proof (induction pre arbitrary: i st)
  case Nil
  then show ?case by (simp add: batch_request_def)
next
  case (Cons q pre)
  obtain a st1 where "batch_request L def rules i q st = (a, st1)" by fastforce
  with Cons.IH [of "Suc i" st1] show ?case by (cases a) auto
qed

text \<open>What a batch sends to the upstream, if anything.\<close>

lemma handleHttpBatch_world:
  assumes "handleHttpBatch L requests w r h u = (out, h', u')"
  shows "u' = u \<or> (\<exists>sent b. sent \<noteq> [] \<and> JsonRpcMsgs_Marshal (jl_codec L) sent = Inr b
    \<and> u' = snd (jl_next L (r\<lparr>rq_Body := \<lparr>bs_data = b, bs_error = None\<rparr>\<rparr>) b u)
    \<and> (\<forall>m\<in>set sent. Some m \<in> set requests
        \<and> (\<exists>x. rpc_batch_policy (jl_glob L) m (jh_defaultAction h) (jh_rules h) = Ret (Allowed x))))"
proof -
  obtain a st where loop: "batch_loop L (jh_defaultAction h) (jh_rules h) 0 requests
      (empty_batch (jh_cache h)) = (a, st)" by fastforce
  show ?thesis
  proof (cases a)
    case (Some p)
    with assms loop handleHttpBatch_panic [of L h requests p st w r u] show ?thesis by auto
  next
    case None
    let ?es = "bt_responses st"
    have es: "list_all2 (entry_ok L (jh_defaultAction h) (jh_rules h)) (enumerate 0 requests) ?es"
      using batch_loop_ok [OF loop [unfolded None]] by (auto simp: empty_batch_def)
    have u': "u' = snd (snd (batch_upstream L r ?es (bt_cache st) u))"
      using handleHttpBatch_returns(3) [OF loop [unfolded None] assms] .
    obtain x c u1 where up: "batch_upstream L r ?es (bt_cache st) u = (x, c, u1)" by (metis surj_pair)
    with u' have u1: "u1 = u'" by simp
    show ?thesis
    proof (cases "u' = u")
      case False
      with batch_upstream_world [OF up] u1 obtain b where
        "JsonRpcMsgs_Marshal (jl_codec L) (map snd (Responses_GetPendingRequests ?es)) = Inr b"
        "map snd (Responses_GetPendingRequests ?es) \<noteq> []"
        "u' = snd (jl_next L (r\<lparr>rq_Body := \<lparr>bs_data = b, bs_error = None\<rparr>\<rparr>) b u)"
        by auto
      moreover have "\<forall>m\<in>set (map snd (Responses_GetPendingRequests ?es)). Some m \<in> set requests
          \<and> (\<exists>x. rpc_batch_policy (jl_glob L) m (jh_defaultAction h) (jh_rules h) = Ret (Allowed x))"
        using pending_allowed [OF es] by simp
      ultimately show ?thesis by blast
    qed simp
  qed
qed

lemma ServeHTTP_readers:
  assumes "JsonRpcHandler_ServeHTTP L w r h u = (out, h', u')"
  shows "jh_readers h \<le> jh_readers h'"
  using assms
  by (auto simp: JsonRpcHandler_ServeHTTP_def handleHttp_def io_ReadAll_eq
      dest: handleHttpSingle_readers handleHttpBatch_readers
      split: if_splits option.splits prod.splits outcome.splits)

fun serve_all ::
  "('g, 'c, 'x, 'u) rpc_env \<Rightarrow> Request list \<Rightarrow> ('g, 'c, 'x) JsonRpcHandler \<Rightarrow> 'u
     \<Rightarrow> ('g, 'c, 'x) JsonRpcHandler \<times> 'u" where
  "serve_all L [] h u = (h, u)"
| "serve_all L (r # rs) h u =
     (case JsonRpcHandler_ServeHTTP L new_writer r h u of (_, h', u') \<Rightarrow> serve_all L rs h' u')"

lemma serve_all_readers: "serve_all L rs h u = (h', u') \<Longrightarrow> jh_readers h \<le> jh_readers h'"
proof (induction rs arbitrary: h u)
  case (Cons r rs)
  then show ?case by (auto split: prod.splits dest!: ServeHTTP_readers) (meson le_trans)
qed simp

section \<open>The reply to a batch\<close>

lemma batch_upstream_answered:
  assumes "distinct (addresses es)" and "Responses_GetPendingRequests es \<noteq> []"
    and "getResponsesFromUpstream L r (Responses_GetPendingRequests es) u = (Inr ms, u')"
    and "length ms = length (Responses_GetPendingRequests es)"
  shows "batch_upstream L r es c u = (Ret (Inr (fill_pending es ms)),
    snd (Responses_StoreInCache (jl_cache L) (fill_pending es ms) c), u')"
  using assms Responses_Set_fill [OF assms(1,4)]
  by (simp add: batch_upstream_def Let_def split: prod.split)

lemma fill_pending_none: "Responses_GetPendingRequests es = [] \<Longrightarrow> fill_pending es ms = es"
  by (induction es) (auto split: if_splits)

lemma GetFinal_pending_length:
  "length (Responses_GetFinal es) + length (Responses_GetPendingRequests es) = length es"
  by (induction es) (auto split: option.splits)

end
