(* ===== verification/JsonRpcCache.thy ===== *)
theory JsonRpcCache
  imports JsonRpcHandlerSpec
begin

text \<open>
  What the cache of the JSON-RPC handler holds, and a run of two requests with the same method
  and parameters.
\<close>

section \<open>Where a cached message comes from\<close>

text \<open>
  Either the upstream answered it to a forwarded single request with that key, or it stands in
  an answer to a forwarded batch at the position of a request with that key.
\<close>

definition rpc_cached :: "('g, 'c, 'x, 'u) rpc_env \<Rightarrow> 64 word \<Rightarrow> JsonRpcMsg \<Rightarrow> bool" where
  "rpc_cached L key res \<longleftrightarrow>
     (\<exists>r b u m. fst (ParseJsonRpcMessage (jl_codec L) b) = Some m \<and> key = JsonRpcMsg_Hash (jl_codec L) m
        \<and> fst (ParseJsonRpcMessage (jl_codec L) (written (fst (jl_next L r b u)))) = Some res)
   \<or> (\<exists>r ms u ans u' i. getResponsesFromUpstream L r ms u = (Inr ans, u') \<and> length ans = length ms
        \<and> i < length ms \<and> key = JsonRpcMsg_Hash (jl_codec L) (snd (ms ! i)) \<and> ans ! i = Some res)"

lemma next_wrapped_eq:
  "next_wrapped L ww r body u =
     (wrapper_calls (fst (jl_next L r (readBuf body) u)) ww, snd (jl_next L r (readBuf body) u))"
  by (simp add: next_wrapped_def io_ReadAll_eq split: prod.splits)

lemma next_plain_eq:
  "next_plain L w r body u =
     (writer_calls (fst (jl_next L r (readBuf body) u)) w, snd (jl_next L r (readBuf body) u))"
  by (simp add: next_plain_def io_ReadAll_eq split: prod.splits)

lemma JsonRpcHandler_observe_simps [simp]:
  "jh_cache (JsonRpcHandler_observe ls h) = jh_cache h"
  "jh_readers (JsonRpcHandler_observe ls h) = jh_readers h"
  "jh_rules (JsonRpcHandler_observe ls h) = jh_rules h"
  "jh_defaultAction (JsonRpcHandler_observe ls h) = jh_defaultAction h"
  by (simp_all add: JsonRpcHandler_observe_def)

lemma getSingleUpstreamResponse_eq:
  assumes "jl_next L r (readBuf body) u = (cs, u')"
  shows "getSingleUpstreamResponse L w r body hash rc h u =
    (case fst (ParseJsonRpcMessage (jl_codec L) (written cs)) of
       None \<Rightarrow> (Panic ''nil pointer dereference'', h, u')
     | Some res \<Rightarrow> (Ret (writer_calls cs w),
         if cacheable rc res
         then h\<lparr>jh_cache := snd (c_set (jl_cache L) hash res (rc_TTL rc) (jh_cache h))\<rparr> else h, u'))"
proof -
  obtain p ms e where parse: "ParseJsonRpcMessage (jl_codec L) (written cs) = (p, ms, e)"
    by (metis surj_pair)
  show ?thesis
  proof (cases p)
    case None
    with parse assms show ?thesis
      by (simp add: getSingleUpstreamResponse_def next_wrapped_eq Wrapper_GetWrittenBytes_def
          wrapper_calls_buf)
  next
    case (Some res)
    obtain x c where "c_set (jl_cache L) hash res (rc_TTL rc) (jh_cache h) = (x, c)" by fastforce
    with parse assms Some show ?thesis
      by (auto simp: getSingleUpstreamResponse_def next_wrapped_eq Wrapper_GetWrittenBytes_def
          wrapper_calls_buf wrapper_calls_writer cacheable_def)
  qed
qed

text \<open>The entries that may be stored after the answers came, with their keys.\<close>

lemma fill_pending_stored:
  assumes "\<And>e. e \<in> set es \<Longrightarrow> jr_Cache e \<noteq> None \<Longrightarrow>
      jr_Response e = None \<and> jr_CacheKey e = H (snd (jr_Request e))"
    and "length ms = length (Responses_GetPendingRequests es)"
    and "e' \<in> set (fill_pending es ms)" and "jr_Cache e' \<noteq> None" and "jr_Response e' = Some x"
  shows "\<exists>i<length ms. ms ! i = Some x \<and> jr_CacheKey e' = H (snd (Responses_GetPendingRequests es ! i))"
  using assms
proof (induction es arbitrary: ms)
  case Nil
  then show ?case by simp
next
  case (Cons e es)
  show ?case
  proof (cases "jr_Response e")
    case (Some y)
    with Cons.prems(1) [of e] have "jr_Cache e = None" by (cases "jr_Cache e") auto
    with Some Cons.prems(3,4) have "e' \<in> set (fill_pending es ms)" by auto
    with Cons.IH [of ms] Cons.prems Some show ?thesis by simp
  next
    case None
    with Cons.prems(2) obtain a ms' where ms: "ms = a # ms'" "length ms' = length (Responses_GetPendingRequests es)"
      by (cases ms) auto
    from Cons.prems(3) None ms consider "e' = e\<lparr>jr_Response := a\<rparr>" | "e' \<in> set (fill_pending es ms')"
      by auto
    then show ?thesis
    proof cases
      case 1
      with Cons.prems(1) [of e] Cons.prems(4,5) None ms show ?thesis by (intro exI [of _ 0]) auto
    next
      case 2
      with Cons.IH [of ms'] Cons.prems ms(2) obtain i where "i < length ms'" "ms' ! i = Some x"
        "jr_CacheKey e' = H (snd (Responses_GetPendingRequests es ! i))" by auto
      with None ms show ?thesis by (intro exI [of _ "Suc i"]) auto
    qed
  qed
qed

lemma entry_ok_cache:
  "entry_ok L def rules q e \<Longrightarrow> jr_Cache e \<noteq> None \<Longrightarrow>
     jr_Response e = None \<and> jr_CacheKey e = JsonRpcMsg_Hash (jl_codec L) (snd (jr_Request e))"
  by (cases q; cases "snd q") (auto split: outcome.splits verdict.splits)

context msg_cache
begin

lemma single_upstream_holds:
  assumes imp: "\<And>k v. rpc_cached L k v \<Longrightarrow> P k v"
    and api: "jl_cache L = api" and P: "holds_all P (jh_cache h)"
    and q: "fst (ParseJsonRpcMessage (jl_codec L) (readBuf body)) = Some q"
    and run: "single_upstream L q w r body rc h u = (out, h', u')"
  shows "holds_all P (jh_cache h')"
proof -
  obtain cs u1 where up: "jl_next L r (readBuf body) u = (cs, u1)" by fastforce
  let ?key = "JsonRpcMsg_Hash (jl_codec L) q"
  show ?thesis
  proof (cases "fst (ParseJsonRpcMessage (jl_codec L) (written cs))")
    case None
    with run P show ?thesis by (auto simp: single_upstream_def getSingleUpstreamResponse_eq [OF up])
  next
    case (Some res)
    obtain e c where set: "c_set api ?key res (rc_TTL rc) (jh_cache h) = (e, c)" by fastforce
    from run Some set api have "jh_cache h' = jh_cache h \<or> jh_cache h' = c"
      by (auto simp: single_upstream_def getSingleUpstreamResponse_eq [OF up] split: if_splits)
    moreover have "P ?key res"
      by (rule imp) (use q Some up in \<open>unfold rpc_cached_def, metis fst_conv\<close>)
    ultimately show ?thesis using P holds_all_set [OF P _ set] by auto
  qed
qed

lemma single_allowed_holds:
  assumes imp: "\<And>k v. rpc_cached L k v \<Longrightarrow> P k v"
    and api: "jl_cache L = api" and P: "holds_all P (jh_cache h)"
    and q: "fst (ParseJsonRpcMessage (jl_codec L) (readBuf body)) = Some q"
    and run: "single_allowed L q w r body rc h u = (out, h', u')"
  shows "holds_all P (jh_cache h')"
proof (cases rc)
  case None
  with run P show ?thesis by (auto simp: single_allowed_def single_forward_def split: prod.splits)
next
  case (Some x)
  let ?key = "JsonRpcMsg_Hash (jl_codec L) q"
  obtain b e c where has: "c_has api ?key (jh_cache h) = ((b, e), c)" by (metis surj_pair)
  have P1: "holds_all P c" using holds_all_has [OF P has] .
  obtain y c' where get: "c_get api ?key c = (y, c')" by fastforce
  have P2: "holds_all P c'" using holds_all_get [OF P1 get] .
  note run' = run [unfolded single_allowed_def Some option.case single_cached_def Let_def api has prod.case]
  show ?thesis
  proof (cases b)
    case False
    with run' have "single_upstream L q w r body x (h\<lparr>jh_cache := c\<rparr>) u = (out, h', u')" by simp
    from single_upstream_holds [OF imp api _ q this] P1 show ?thesis by simp
  next
    case True
    show ?thesis
    proof (cases y)
      case (Inl err)
      with True get run' have "single_upstream L q w r body x (h\<lparr>jh_cache := c'\<rparr>) u = (out, h', u')" by simp
      from single_upstream_holds [OF imp api _ q this] P2 show ?thesis by simp
    next
      case (Inr res)
      with True get run' P2 show ?thesis by auto
    qed
  qed
qed

lemma handleHttpSingle_holds:
  assumes imp: "\<And>k v. rpc_cached L k v \<Longrightarrow> P k v"
    and api: "jl_cache L = api" and P: "holds_all P (jh_cache h)"
    and q: "fst (ParseJsonRpcMessage (jl_codec L) (readBuf body)) = Some q"
    and run: "handleHttpSingle L q w r body h u = (out, h', u')"
  shows "holds_all P (jh_cache h')"
proof (cases "rpc_policy (jl_glob L) q (jh_defaultAction h) (jh_rules h)")
  case (Panic p)
  with run P show ?thesis by (auto simp: handleHttpSingle_verdict)
next
  case (Ret v)
  show ?thesis
  proof (cases v)
    case (Denied x)
    with Ret run P show ?thesis by (auto simp: handleHttpSingle_verdict single_denied_def)
  next
    case (Allowed x)
    obtain o1 h1 u1 where run1: "single_allowed L q w r body (rule_cache_of x)
        (h\<lparr>jh_readers := jh_readers h + 1\<rparr>) u = (o1, h1, u1)" by (metis surj_pair)
    from single_allowed_holds [OF imp api _ q run1] P
    have "holds_all P (jh_cache h1)" by simp
    with Ret Allowed run run1 show ?thesis by (auto simp: handleHttpSingle_verdict)
  qed
qed

lemma batch_allow_holds:
  assumes api: "jl_cache L = api" and P: "holds_all P (bt_cache st)"
  shows "holds_all P (bt_cache (batch_allow L rule req st))"
proof -
  let ?key = "JsonRpcMsg_Hash (jl_codec L) (snd req)"
  obtain b e c where has: "c_has api ?key (bt_cache st) = ((b, e), c)" by (metis surj_pair)
  obtain y c' where get: "c_get api ?key c = (y, c')" by fastforce
  have "bt_cache (batch_allow L rule req st) = c \<or> bt_cache (batch_allow L rule req st) = c'"
    by (auto simp: batch_allow_def api has get Let_def split: option.split sum.split)
  then show ?thesis
    using holds_all_has [OF P has] holds_all_get [OF holds_all_has [OF P has] get] by auto
qed

lemma batch_rules_holds:
  assumes "jl_cache L = api" and "holds_all P (bt_cache st)"
  shows "holds_all P (bt_cache (snd (batch_rules L def rules req st)))"
  using assms
  by (induction rules)
    (auto simp: batch_default_def batch_allow_holds split: outcome.split bool.split)

lemma batch_loop_holds:
  assumes api: "jl_cache L = api"
  shows "holds_all P (bt_cache st) \<Longrightarrow> batch_loop L def rules i reqs st = (a, st') \<Longrightarrow>
    holds_all P (bt_cache st')"
proof (induction reqs arbitrary: i st)
  case Nil
  then show ?case by simp
next
  case (Cons q reqs)
  obtain a1 st1 where step: "batch_request L def rules i q st = (a1, st1)" by fastforce
  have "holds_all P (bt_cache st1)"
  proof (cases q)
    case None
    with step Cons.prems(1) show ?thesis by (auto simp: batch_request_def)
  next
    case (Some m)
    with step batch_rules_holds [OF api Cons.prems(1), of def rules "(i, m)"] Cons.prems(1) show ?thesis
      by (auto simp: batch_request_def batch_default_def split: if_splits)
  qed
  with Cons.IH [of st1 "Suc i"] Cons.prems(2) step show ?case by (cases a1) auto
qed

lemma batch_upstream_holds:
  assumes imp: "\<And>k v. rpc_cached L k v \<Longrightarrow> P k v"
    and api: "jl_cache L = api" and P: "holds_all P c"
    and es: "list_all2 (entry_ok L def rules) (enumerate i reqs) es"
    and run: "batch_upstream L r es c u = (x, c', u')"
  shows "holds_all P c'"
proof (cases "\<exists>ms u1. Responses_GetPendingRequests es \<noteq> []
    \<and> getResponsesFromUpstream L r (Responses_GetPendingRequests es) u = (Inr ms, u1)
    \<and> length ms = length (Responses_GetPendingRequests es)")
  case False
  obtain y u1 where up: "getResponsesFromUpstream L r (Responses_GetPendingRequests es) u = (y, u1)" by fastforce
  with False run have "c' = c"
    by (cases y) (auto simp: batch_upstream_def Let_def split: if_splits)
  with P show ?thesis by simp
next
  case True
  then obtain ms u1 where ne: "Responses_GetPendingRequests es \<noteq> []"
    and up: "getResponsesFromUpstream L r (Responses_GetPendingRequests es) u = (Inr ms, u1)"
    and len: "length ms = length (Responses_GetPendingRequests es)"
    by blast
  let ?es = "fill_pending es ms"
  obtain e c1 where store: "Responses_StoreInCache api ?es c = (e, c1)" by fastforce
  have "c' = c1"
    using batch_upstream_answered [OF entries_distinct [OF es] ne up len, of c] run store api by simp
  moreover have "holds_all P c1"
  proof (rule StoreInCache_holds_all [OF P store])
    fix e' m rc assume e': "e' \<in> set ?es" "jr_Response e' = Some m" "jr_Cache e' = Some rc"
    have "\<And>e. e \<in> set es \<Longrightarrow> jr_Cache e \<noteq> None \<Longrightarrow> jr_Response e = None
        \<and> jr_CacheKey e = JsonRpcMsg_Hash (jl_codec L) (snd (jr_Request e))"
      using es by (metis entry_ok_cache in_set_conv_nth list_all2_conv_all_nth)
    from fill_pending_stored [of es "JsonRpcMsg_Hash (jl_codec L)", OF this len e'(1) _ e'(2)] e'(3)
    obtain j where "j < length ms" "ms ! j = Some m"
      "jr_CacheKey e' = JsonRpcMsg_Hash (jl_codec L) (snd (Responses_GetPendingRequests es ! j))"
      by auto
    with up len have "rpc_cached L (jr_CacheKey e') m"
      unfolding rpc_cached_def by metis
    then show "P (jr_CacheKey e') m" by (rule imp)
  qed
  ultimately show ?thesis by simp
qed

lemma handleHttpBatch_holds:
  assumes imp: "\<And>k v. rpc_cached L k v \<Longrightarrow> P k v"
    and api: "jl_cache L = api" and P: "holds_all P (jh_cache h)"
    and run: "handleHttpBatch L requests w r h u = (out, h', u')"
  shows "holds_all P (jh_cache h')"
proof -
  obtain a st where loop: "batch_loop L (jh_defaultAction h) (jh_rules h) 0 requests
      (empty_batch (jh_cache h)) = (a, st)" by fastforce
  have P1: "holds_all P (bt_cache st)"
    by (rule batch_loop_holds [OF api _ loop]) (simp add: empty_batch_def P)
  show ?thesis
  proof (cases a)
    case (Some p)
    with loop run handleHttpBatch_panic [of L h requests p st w r u] P1 show ?thesis by auto
  next
    case None
    obtain x c u1 where up: "batch_upstream L r (bt_responses st) (bt_cache st) u = (x, c, u1)"
      by (metis surj_pair)
    obtain es where "bt_responses st = es"
      "list_all2 (entry_ok L (jh_defaultAction h) (jh_rules h)) (enumerate 0 requests) es"
      using batch_loop_ok [OF loop [unfolded None]] by (auto simp: empty_batch_def)
    with batch_upstream_holds [OF imp api P1 _ up] have "holds_all P c" by blast
    with handleHttpBatch_returns(4) [OF loop [unfolded None] run] up show ?thesis by simp
  qed
qed

lemma handleHttp_holds:
  assumes imp: "\<And>k v. rpc_cached L k v \<Longrightarrow> P k v"
    and api: "jl_cache L = api" and P: "holds_all P (jh_cache h)"
    and run: "handleHttp L w r h u = (out, h', u')"
  shows "holds_all P (jh_cache h')"
proof -
  let ?body = "ReusableReader (rq_Body r)"
  obtain p ms e where parse: "ParseJsonRpcMessage (jl_codec L) (bs_data (rq_Body r)) = (p, ms, e)"
    by (metis surj_pair)
  have body: "io_ReadAll (jl_grow L) ?body = (Inr (bs_data (rq_Body r)), ?body)"
    by (simp add: io_ReadAll_rewound)
  show ?thesis
  proof (cases p)
    case None
    with parse body run handleHttpBatch_holds [OF imp api P] show ?thesis by (auto simp: handleHttp_def)
  next
    case (Some q)
    with parse body run handleHttpSingle_holds [OF imp api P, of ?body q] show ?thesis
      by (auto simp: handleHttp_def)
  qed
qed

end

section \<open>Two requests with the same method and parameters\<close>

lemma single_miss_then_hit:
  assumes api: "jl_cache L = any_cache_api ref_ttlcache rd mp fmt" and m: "jh_cache h = Inl m" "quiet m"
    and v1: "rpc_policy (jl_glob L) q1 (jh_defaultAction h) (jh_rules h) = Ret (Allowed (Some a1))"
      "jq_Cache a1 = Some rc1"
    and v2: "rpc_policy (jl_glob L) q2 (jh_defaultAction h) (jh_rules h) = Ret (Allowed (Some a2))"
      "jq_Cache a2 = Some rc2"
    and key: "JsonRpcMsg_Hash (jl_codec L) q1 = JsonRpcMsg_Hash (jl_codec L) q2"
    and new: "MemoryCache_live ref_live m (JsonRpcMsg_Hash (jl_codec L) q1) = None"
    and up: "jl_next L r1 (readBuf body1) u1 = (cs, u1')"
    and res: "fst (ParseJsonRpcMessage (jl_codec L) (written cs)) = Some res" and ok: "cacheable rc1 res"
  shows "\<exists>h1 h2. handleHttpSingle L q1 w1 r1 body1 h u1 = (Ret (writer_calls cs w1), h1, u1')
    \<and> handleHttpSingle L q2 w2 r2 body2 h1 u2 =
        (Ret (writeSingleResponse (jl_codec L) w2 (JsonRpcMsg_CloneWithID (jm_ID q2) res)), h2, u2)"
proof -
  let ?key = "JsonRpcMsg_Hash (jl_codec L) q1"
  let ?m = "mem_put ?key res (rc_TTL rc1) m"
  have first: "\<exists>h1. handleHttpSingle L q1 w1 r1 body1 h u1 = (Ret (writer_calls cs w1), h1, u1')
      \<and> jh_cache h1 = Inl ?m \<and> jh_rules h1 = jh_rules h \<and> jh_defaultAction h1 = jh_defaultAction h"
    by (simp add: handleHttpSingle_verdict v1 single_allowed_def rule_cache_of_def single_cached_def
        api m quiet_memory new single_upstream_def getSingleUpstreamResponse_eq [OF up] res ok)
  then obtain h1 where h1: "handleHttpSingle L q1 w1 r1 body1 h u1 = (Ret (writer_calls cs w1), h1, u1')"
    "jh_cache h1 = Inl ?m" "jh_rules h1 = jh_rules h" "jh_defaultAction h1 = jh_defaultAction h" by blast
  have live: "MemoryCache_live ref_live ?m ?key = Some res" "quiet ?m"
    by (simp_all add: quiet_mem_put m)
  have "\<exists>h2. handleHttpSingle L q2 w2 r2 body2 h1 u2 =
      (Ret (writeSingleResponse (jl_codec L) w2 (JsonRpcMsg_CloneWithID (jm_ID q2) res)), h2, u2)"
    by (simp add: handleHttpSingle_verdict v2 h1(2-4) single_allowed_def rule_cache_of_def
        single_cached_def api quiet_memory live flip: key)
  with h1(1) show ?thesis by blast
qed

end
