(* ===== verification/JsonRpcBatch.thy ===== *)
theory JsonRpcBatch
  imports JsonRpcHandlerSpec
begin

text \<open>
  The reply to a batch, request by request.  \<open>batch_slots\<close> says what becomes of each request: it is
  refused, or answered from the cache, or sent to the upstream; \<open>merge_replies\<close> puts the answers
  of the upstream where they belong.  The handler's loop over pointers and its \<open>Set\<close> compute
  just that.
\<close>

section \<open>What becomes of each request\<close>

datatype slot = Refused | FromCache JsonRpcMsg | ToUpstream

text \<open>
  A request allowed by a rule is looked up in the cache, whether the rule has a \<open>cache\<close> section
  or not; one allowed by the default action is not.
\<close>

definition cache_slot ::
  "('g, 'c, 'x, 'u) rpc_env \<Rightarrow> JsonRpcMsg \<Rightarrow> 'c \<Rightarrow> slot \<times> 'c" where
  "cache_slot L m c =
     (case c_has (jl_cache L) (JsonRpcMsg_Hash (jl_codec L) m) c of
        ((True, None), c1) \<Rightarrow>
          (case c_get (jl_cache L) (JsonRpcMsg_Hash (jl_codec L) m) c1 of
             (Inr res, c2) \<Rightarrow> (FromCache res, c2)
           | (Inl err, c2) \<Rightarrow> (ToUpstream, c2))
      | (_, c1) \<Rightarrow> (ToUpstream, c1))"

definition request_slot ::
  "('g, 'c, 'x, 'u) rpc_env \<Rightarrow> 'g JsonRpcRule verdict \<Rightarrow> JsonRpcMsg \<Rightarrow> 'c \<Rightarrow> slot \<times> 'c" where
  "request_slot L v m c = (case v of
      Denied _ \<Rightarrow> (Refused, c)
    | Allowed None \<Rightarrow> (ToUpstream, c)
    | Allowed (Some rule) \<Rightarrow> cache_slot L m c)"

fun batch_slots ::
  "('g, 'c, 'x, 'u) rpc_env \<Rightarrow> RuleAction \<Rightarrow> 'g JsonRpcRule list \<Rightarrow> JsonRpcMsg list \<Rightarrow> 'c
     \<Rightarrow> (slot list \<times> 'c) outcome" where
  "batch_slots L def rules [] c = Ret ([], c)"
| "batch_slots L def rules (m # ms) c =
     bind_o (rpc_batch_policy (jl_glob L) m def rules) (\<lambda>v.
       case request_slot L v m c of (s, c1) \<Rightarrow>
         bind_o (batch_slots L def rules ms c1) (\<lambda>(ss, c2). Ret (s # ss, c2)))"

fun upstream_part :: "JsonRpcMsg list \<Rightarrow> slot list \<Rightarrow> JsonRpcMsg list" where
  "upstream_part (m # ms) (ToUpstream # ss) = m # upstream_part ms ss"
| "upstream_part (m # ms) (s # ss) = upstream_part ms ss"
| "upstream_part _ _ = []"

text \<open>
  The replies in the order of the requests: the 401 message, the cached message under the
  request's id, or the next answer of the upstream.
\<close>

fun merge_replies :: "JsonRpcMsg list \<Rightarrow> slot list \<Rightarrow> JsonRpcMsg list \<Rightarrow> JsonRpcMsg list" where
  "merge_replies (m # ms) (Refused # ss) ans =
     zero_msg\<lparr>jm_Version := ''2.0'', jm_ID := jm_ID m,
       jm_Error := Some \<lparr>je_Code = 401, je_Message = ''unauthorized access'', je_Data = GNil\<rparr>\<rparr>
     # merge_replies ms ss ans"
| "merge_replies (m # ms) (FromCache res # ss) ans = res\<lparr>jm_ID := jm_ID m\<rparr> # merge_replies ms ss ans"
| "merge_replies (m # ms) (ToUpstream # ss) (a # ans) = a # merge_replies ms ss ans"
| "merge_replies _ _ _ = []"

section \<open>The loop\<close>

fun slot_reply :: "JsonRpcMsg \<Rightarrow> slot \<Rightarrow> JsonRpcMsg option" where
  "slot_reply m Refused = Some (UnauthorizedResponse m)"
| "slot_reply m (FromCache res) = Some (JsonRpcMsg_CloneWithID (jm_ID m) res)"
| "slot_reply m ToUpstream = None"

text \<open>One entry more, for the request, with the reply of its slot; the cache as \<open>batch_slots\<close> has it.\<close>

definition adds_entry :: "nat \<Rightarrow> JsonRpcMsg \<Rightarrow> slot \<times> 'c \<Rightarrow> 'c batch \<Rightarrow> 'c batch \<Rightarrow> bool" where
  "adds_entry i m sc st st' \<longleftrightarrow> bt_cache st' = snd sc
     \<and> (\<exists>e. bt_responses st' = bt_responses st @ [e] \<and> jr_Request e = (i, m)
           \<and> jr_Response e = slot_reply m (fst sc))"

lemma batch_default_entry:
  "adds_entry i m (request_slot L (default_verdict def) m (bt_cache st)) st (batch_default def (i, m) st)"
  by (auto simp: adds_entry_def batch_default_def default_verdict_def request_slot_def responses_add)

lemma batch_allow_entry:
  "adds_entry i m (cache_slot L m (bt_cache st)) st (batch_allow L rule (i, m) st)"
proof -
  let ?key = "JsonRpcMsg_Hash (jl_codec L) m"
  obtain b e c where has: "c_has (jl_cache L) ?key (bt_cache st) = ((b, e), c)" by (metis surj_pair)
  obtain y c' where get: "c_get (jl_cache L) ?key c = (y, c')" by fastforce
  show ?thesis
    by (cases b; cases e; cases y)
      (simp_all add: adds_entry_def cache_slot_def batch_allow_def has get Let_def responses_add)
qed

lemma batch_rules_entry:
  "rpc_batch_policy (jl_glob L) m def rules = Ret v \<Longrightarrow>
     \<exists>st'. batch_rules L def rules (i, m) st = (None, st')
       \<and> adds_entry i m (request_slot L v m (bt_cache st)) st st'"
proof (induction rules)
  case Nil
  then show ?case using batch_default_entry [of i m L def st] by (auto simp: rpc_batch_policy_def)
next
  case (Cons rule rules)
  from Cons.prems obtain b where b: "JsonRpcRule_Match (jl_glob L) rule m = Ret b"
    by (cases "JsonRpcRule_Match (jl_glob L) rule m") (auto simp: rpc_batch_policy_def)
  show ?case
  proof (cases b)
    case False
    with b Cons show ?thesis by (simp add: rpc_batch_policy_def)
  next
    case True
    with b Cons.prems have v: "v = (if recognised (jq_Action rule) then rule_verdict jq_Action rule else default_verdict def)"
      by (simp add: rpc_batch_policy_def)
    consider "jq_Action rule = RuleActionAllow" | "jq_Action rule = RuleActionDeny"
      | "\<not> recognised (jq_Action rule)"
      by (auto simp: recognised_def)
    then show ?thesis
    proof cases
      case 1
      with v b True show ?thesis
        using batch_allow_entry [of i m L st rule]
        by (simp add: recognised_def rule_verdict_def request_slot_def)
    next
      case 2
      with v b True show ?thesis
        by (simp add: recognised_def rule_verdict_def request_slot_def adds_entry_def responses_add)
    next
      case 3
      with v b True show ?thesis
        using batch_default_entry [of i m L def st] by (auto simp: recognised_def)
    qed
  qed
qed

lemma batch_request_entry:
  assumes "rpc_batch_policy (jl_glob L) m def rules = Ret v"
  shows "\<exists>st'. batch_request L def rules i (Some m) st = (None, st')
    \<and> adds_entry i m (request_slot L v m (bt_cache st)) st st'"
proof (cases "rules = []")
  case True
  with assms have "v = default_verdict def" by (simp add: rpc_batch_policy_def)
  with True batch_default_entry [of i m L def "st\<lparr>bt_cacheMisses := bt_cacheMisses st + 1\<rparr>"] show ?thesis
    by (simp add: batch_request_def adds_entry_def)
next
  case False
  with batch_rules_entry [OF assms, of i st] show ?thesis by (simp add: batch_request_def)
qed

lemma batch_loop_slots:
  "batch_slots L def rules ms (bt_cache st) = Ret (ss, c) \<Longrightarrow>
     \<exists>st' es. batch_loop L def rules i (map Some ms) st = (None, st') \<and> bt_cache st' = c
       \<and> bt_responses st' = bt_responses st @ es \<and> map jr_Request es = enumerate i ms
       \<and> map jr_Response es = map2 slot_reply ms ss \<and> length ss = length ms"
proof (induction ms arbitrary: i st ss)
  case Nil
  then show ?case by simp
next
  case (Cons m ms)
  obtain v where v: "rpc_batch_policy (jl_glob L) m def rules = Ret v"
    using Cons.prems by (auto simp: bind_o_Ret_iff)
  obtain s c1 where s: "request_slot L v m (bt_cache st) = (s, c1)" by fastforce
  from Cons.prems obtain ss' where rest: "batch_slots L def rules ms c1 = Ret (ss', c)" and ss: "ss = s # ss'"
    by (auto simp: bind_o_Ret_iff v s)
  obtain st1 where st1: "batch_request L def rules i (Some m) st = (None, st1)"
    and add: "adds_entry i m (s, c1) st st1"
    using batch_request_entry [OF v, of i st] s by auto
  from add obtain e where e: "bt_cache st1 = c1" "bt_responses st1 = bt_responses st @ [e]"
    "jr_Request e = (i, m)" "jr_Response e = slot_reply m s"
    by (auto simp: adds_entry_def)
  from Cons.IH [of st1 ss' "Suc i"] rest e(1) obtain st' es where
    "batch_loop L def rules (Suc i) (map Some ms) st1 = (None, st')" "bt_cache st' = c"
    "bt_responses st' = bt_responses st1 @ es" "map jr_Request es = enumerate (Suc i) ms"
    "map jr_Response es = map2 slot_reply ms ss'" "length ss' = length ms"
    by auto
  with st1 e ss show ?case by (intro exI [of _ st'] exI [of _ "e # es"]) simp
qed

section \<open>The entries and the replies\<close>

lemma pending_upstream_part:
  "map jr_Request es = enumerate i ms \<Longrightarrow> map jr_Response es = map2 slot_reply ms ss \<Longrightarrow>
     length ss = length ms \<Longrightarrow> map snd (Responses_GetPendingRequests es) = upstream_part ms ss"
proof (induction es arbitrary: i ms ss)
  case Nil
  then show ?case by (cases ms) simp_all
next
  case (Cons e es)
  from Cons.prems obtain m ms' where ms: "ms = m # ms'" by (cases ms) auto
  with Cons.prems(3) obtain s ss' where ss: "ss = s # ss'" by (cases ss) auto
  from Cons.IH [of "Suc i" ms' ss'] Cons.prems show ?case
    by (cases s) (auto simp: ms ss)
qed

lemma final_merge:
  "map jr_Request es = enumerate i ms \<Longrightarrow> map jr_Response es = map2 slot_reply ms ss \<Longrightarrow>
     length ss = length ms \<Longrightarrow> length ans = length (upstream_part ms ss) \<Longrightarrow>
     Responses_GetFinal (fill_pending es (map Some ans)) = merge_replies ms ss ans"
proof (induction es arbitrary: i ms ss ans)
  case Nil
  then show ?case by (cases ms) simp_all
next
  case (Cons e es)
  from Cons.prems obtain m ms' where ms: "ms = m # ms'" by (cases ms) auto
  with Cons.prems(3) obtain s ss' where ss: "ss = s # ss'" by (cases ss) auto
  show ?case
  proof (cases s)
    case ToUpstream
    with Cons.prems(4) ms ss obtain a ans' where ans: "ans = a # ans'" by (cases ans) auto
    from Cons.IH [of "Suc i" ms' ss' ans'] Cons.prems ToUpstream show ?thesis
      by (auto simp: ms ss ans)
  qed (use Cons.IH [of "Suc i" ms' ss' ans] Cons.prems in
    \<open>auto simp: ms ss UnauthorizedResponse_def CloneWithID_eq\<close>)
qed

text \<open>
  What the upstream is asked and what it answers: one call with all open requests, encoded as a
  batch; a single message is a batch of one.
\<close>

definition upstream_answers ::
  "('g, 'c, 'x, 'u) rpc_env \<Rightarrow> Request \<Rightarrow> JsonRpcMsg list \<Rightarrow> 'u \<Rightarrow> JsonRpcMsg list \<Rightarrow> 'u \<Rightarrow> bool" where
  "upstream_answers L r sent u ans u' \<longleftrightarrow>
     (if sent = [] then ans = [] \<and> u' = u
      else \<exists>b cs p answers e. JsonRpcMsgs_Marshal (jl_codec L) sent = Inr b
        \<and> jl_next L (r\<lparr>rq_Body := \<lparr>bs_data = b, bs_error = None\<rparr>\<rparr>) b u = (cs, u')
        \<and> ParseJsonRpcMessage (jl_codec L) (w_body (writer_calls cs new_writer)) = (p, answers, e)
        \<and> map Some ans = (if answers = [] \<and> p \<noteq> None then [p] else answers) \<and> length ans = length sent)"

lemma batch_upstream_merge:
  assumes "distinct (addresses es)"
    and "upstream_answers L r (map snd (Responses_GetPendingRequests es)) u ans u'"
  shows "\<exists>c'. batch_upstream L r es c u = (Ret (Inr (fill_pending es (map Some ans))), c', u')"
proof (cases "Responses_GetPendingRequests es = []")
  case True
  with assms(2) show ?thesis
    by (simp add: upstream_answers_def batch_upstream_def Let_def fill_pending_none)
next
  case False
  with assms(2) have "getResponsesFromUpstream L r (Responses_GetPendingRequests es) u = (Inr (map Some ans), u')"
    and "length (map Some ans) = length (Responses_GetPendingRequests es)"
    by (auto simp: upstream_answers_def getResponsesFromUpstream_def Let_def)
  from batch_upstream_answered [OF assms(1) False this] show ?thesis by blast
qed

lemma handleHttpBatch_merge:
  assumes slots: "batch_slots L (jh_defaultAction h) (jh_rules h) ms (jh_cache h) = Ret (ss, c)"
    and up: "upstream_answers L r (upstream_part ms ss) u ans u'"
    and marshal: "JsonRpcMsgs_Marshal (jl_codec L) (merge_replies ms ss ans) = Inr b"
  shows "\<exists>h'. handleHttpBatch L (map Some ms) w r h u =
    (Ret (WriteData 200 b [''Content-Type'', ''application/json''] w), h', u')"
proof -
  obtain st' es where loop: "batch_loop L (jh_defaultAction h) (jh_rules h) 0 (map Some ms)
      (empty_batch (jh_cache h)) = (None, st')"
    and es: "bt_responses st' = es" "map jr_Request es = enumerate 0 ms"
      "map jr_Response es = map2 slot_reply ms ss" "length ss = length ms"
    using batch_loop_slots [of L "jh_defaultAction h" "jh_rules h" ms "empty_batch (jh_cache h)" ss c 0] slots
    by (auto simp: empty_batch_def)
  have "addresses es = [0..<length ms]"
    using es(2) by (metis map_map map_fst_enumerate add_0)
  then have "distinct (addresses es)" by simp
  moreover have sent: "map snd (Responses_GetPendingRequests es) = upstream_part ms ss"
    by (rule pending_upstream_part [OF es(2-4)])
  ultimately obtain c' where run: "batch_upstream L r es (bt_cache st') u = (Ret (Inr (fill_pending es (map Some ans))), c', u')"
    using batch_upstream_merge [of es L r u ans u'] up by auto
  have "length ans = length (upstream_part ms ss)"
    using up by (auto simp: upstream_answers_def split: if_splits)
  note final = final_merge [OF es(2-4) this]
  show ?thesis
    using loop run marshal by (simp add: handleHttpBatch_def Let_def es(1) final)
qed

lemma batch_slots_length:
  "batch_slots L def rules ms c = Ret (ss, c') \<Longrightarrow> length ss = length ms"
  by (induction ms arbitrary: c ss) (auto simp: bind_o_Ret_iff case_prod_beta)

lemma merge_replies_lengths:
  "length ss = length ms \<Longrightarrow> length ans = length (upstream_part ms ss) \<Longrightarrow>
     length (merge_replies ms ss ans) = length ms"
proof (induction ms arbitrary: ss ans)
  case (Cons m ms)
  then obtain s ss' where ss: "ss = s # ss'" by (cases ss) auto
  with Cons show ?case by (cases s; cases ans) auto
qed simp

lemma merge_replies_length:
  assumes "batch_slots L def rules ms c = Ret (ss, c')" and "upstream_answers L r (upstream_part ms ss) u ans u'"
  shows "length (merge_replies ms ss ans) = length ms"
proof (rule merge_replies_lengths [OF batch_slots_length [OF assms(1)]])
  show "length ans = length (upstream_part ms ss)"
    using assms(2) by (auto simp: upstream_answers_def split: if_splits)
qed

end
