(* ===== verification/JsonRpcProps.thy ===== *)
theory JsonRpcProps
  imports JsonRpcCache JsonRpcBatch
begin

text \<open>
  The properties of the JSON-RPC handler, with concrete runs.  The runs use a codec in which a
  message is its method, one character long in a batch, and an upstream that answers with the
  body it got.
\<close>

section \<open>A concrete handler\<close>

definition demo_msg :: "string \<Rightarrow> JsonRpcMsg" where
  "demo_msg m = zero_msg\<lparr>jm_Method := m, jm_Result := GStr m\<rparr>"

definition msg_char :: "JsonRpcMsg \<Rightarrow> char" where
  "msg_char m = (case jm_Method m of [] \<Rightarrow> CHR ''x'' | c # _ \<Rightarrow> c)"

definition demo_codec :: codec where
  "demo_codec = \<lparr>j_decode = (\<lambda>j b. (j, [], None)),
     j_one = (\<lambda>_ b. (demo_msg b, None)),
     j_many = (\<lambda>_ b. (map (\<lambda>c. if c = CHR ''0'' then None else Some (demo_msg [c])) (tl b), None)),
     j_params = (\<lambda>_. Inr []), j_msg = (\<lambda>m. Inr (jm_Method m)),
     j_msgs = (\<lambda>ms. Inr (CHR ''['' # map msg_char ms)),
     j_fnv = (\<lambda>s. if s = [] then 0 else of_char (hd s))\<rparr>"

text \<open>A codec that encodes nothing: with it, nothing is stored in the Redis server.\<close>

type_synonym rpc_demo_cache =
  "((64 word namespacedKey, JsonRpcMsg) ref_store, (string, string) ref_store) any_cache"

definition refusing_msgpack :: "JsonRpcMsg msgpack" where
  "refusing_msgpack = \<lparr>mp_Marshal = (\<lambda>_. Inl (ErrText ''unsupported'')),
     mp_Unmarshal = (\<lambda>_. Inl (ErrText ''unsupported''))\<rparr>"

definition demo_rpc_env :: "(string \<Rightarrow> string) \<Rightarrow> (string, rpc_demo_cache, unit, nat) rpc_env" where
  "demo_rpc_env answer = \<lparr>jl_glob = exact_glob,
     jl_cache = any_cache_api ref_ttlcache ref_redis refusing_msgpack fmt_uint64,
     jl_codec = demo_codec, jl_grow = (\<lambda>n. n),
     jl_next = (\<lambda>r b u. ([CallWriteHeader 200, CallWrite (answer b)], Suc u)),
     jl_ws_handle = (\<lambda>x c w _ u. (Ret w, x, c, u)), jl_ws_SetRules = (\<lambda>_ _ x. x)\<rparr>"

interpretation ref_rpc: cache_backends ref_ttlcache ref_live ref_redis refusing_msgpack fmt_uint64
  ref_live "\<lambda>_ _. False"
  by unfold_locales
    (auto simp: ref_redis_def refusing_msgpack_def Let_def ref_live_put dest: ref_live_tick fmt_uint64_inj
      split: if_splits option.splits)

interpretation ref_rpc: msg_cache "any_cache_api ref_ttlcache ref_redis refusing_msgpack fmt_uint64"
  "any_cache_live ref_live refusing_msgpack fmt_uint64 ref_live"
  "RedisCache_foreign refusing_msgpack fmt_uint64 (\<lambda>_ _. False)"
  by unfold_locales

definition demo_rpc_rule :: "RuleAction \<Rightarrow> string list \<Rightarrow> RuleCache option \<Rightarrow> string JsonRpcRule" where
  "demo_rpc_rule a ms c = \<lparr>jq_Priority = 0, jq_Action = a, jq_Methods = ms, jq_Params = GNil,
     jq_Cache = c, jq_MethodGlobs = ms, jq_ParamsGlobs = [], jq_ParamsMap = False, jq_ParamsSlice = False\<rparr>"

definition demo_rpc :: "string JsonRpcRule list \<Rightarrow> (string, rpc_demo_cache, unit) JsonRpcHandler" where
  "demo_rpc rules = \<lparr>jh_cache = Inl \<lparr>mc_Namespace = ''rpc'', mc_cache = ref_empty 5\<rparr>,
     jh_defaultAction = RuleActionAllow, jh_wsProxy = None, jh_wsPath = ''/websocket'',
     jh_rules = rules, jh_readers = 0, jh_responseTimeHist = None, jh_batchResTimeHist = None\<rparr>"

definition demo_post :: "string \<Rightarrow> Request" where
  "demo_post b = \<lparr>rq_Method = ''POST'', rq_Path = ''/'', rq_URL = ''/'',
     rq_Body = \<lparr>bs_data = b, bs_error = None\<rparr>, rq_Header = [], rq_RemoteAddr = []\<rparr>"

lemmas demo_rpc_defs = demo_rpc_env_def demo_rpc_rule_def demo_rpc_def demo_post_def

lemma demo_match:
  "JsonRpcRule_Match exact_glob (demo_rpc_rule a ms c) m = Ret (ms = [] \<or> jm_Method m \<in> set ms)"
  by (auto simp: JsonRpcRule_Match_def demo_rpc_rule_def any_glob_iff exact_glob_def)

lemma demo_rule_simps [simp]:
  "jq_Action (demo_rpc_rule a ms c) = a" "jq_Cache (demo_rpc_rule a ms c) = c"
  by (simp_all add: demo_rpc_rule_def)

lemma demo_env_simps [simp]:
  "jl_glob (demo_rpc_env f) = exact_glob" "jl_codec (demo_rpc_env f) = demo_codec"
  by (simp_all add: demo_rpc_env_def)

lemma demo_rpc_simps [simp]:
  "jh_rules (demo_rpc rules) = rules" "jh_defaultAction (demo_rpc rules) = RuleActionAllow"
  "jh_readers (demo_rpc rules) = 0"
  by (simp_all add: demo_rpc_def)

lemma writer_calls_answer:
  "w_body (writer_calls [CallWriteHeader 200, CallWrite b] new_writer) = b"
  by (simp add: writer_calls_body written_def) (simp add: new_writer_def)

section \<open>Decisions\<close>

abbreviation deny_b :: "string JsonRpcRule list" where
  "deny_b \<equiv> [demo_rpc_rule RuleActionDeny [''b''] None]"

text \<open>
  A lookup as \<open>handleHttpSingle\<close> does it: \<open>Has\<close>, whose error is ignored, then \<open>Get\<close>, whose error
  counts as a miss.
\<close>

definition single_lookup :: "('c, 'k, 'v) cache_api \<Rightarrow> 'k \<Rightarrow> 'c \<Rightarrow> 'v option \<times> 'c" where
  "single_lookup api key c =
     (case c_has api key c of
        ((False, _), c1) \<Rightarrow> (None, c1)
      | ((True, _), c1) \<Rightarrow> (case c_get api key c1 of (Inr v, c2) \<Rightarrow> (Some v, c2) | (Inl _, c2) \<Rightarrow> (None, c2)))"

lemma single_upstream_outcome:
  assumes "single_upstream L q w r body rc h u = (out, h', u')"
  shows "\<exists>cs. jl_next L r (readBuf body) u = (cs, u')
    \<and> (case fst (ParseJsonRpcMessage (jl_codec L) (written cs)) of
        None \<Rightarrow> (\<exists>p. out = Panic p) \<and> jh_cache h' = jh_cache h
      | Some res \<Rightarrow> out = Ret (writer_calls cs w)
          \<and> jh_cache h' = (if cacheable rc res
              then snd (c_set (jl_cache L) (JsonRpcMsg_Hash (jl_codec L) q) res (rc_TTL rc) (jh_cache h))
              else jh_cache h))"
proof -
  obtain cs u1 where up: "jl_next L r (readBuf body) u = (cs, u1)" by fastforce
  show ?thesis
    using assms up by (auto simp: single_upstream_def getSingleUpstreamResponse_eq [OF up] split: option.splits)
qed

lemma single_cached_outcome:
  assumes "single_lookup (jl_cache L) (JsonRpcMsg_Hash (jl_codec L) q) (jh_cache h) = (v, c)"
  shows "single_cached L q w r body rc h u = (case v of
      Some res \<Rightarrow> (Ret (writeSingleResponse (jl_codec L) w (JsonRpcMsg_CloneWithID (jm_ID q) res)),
        JsonRpcHandler_observe (single_labels q cacheHit RuleActionAllow) (h\<lparr>jh_cache := c\<rparr>), u)
    | None \<Rightarrow> single_upstream L q w r body rc (h\<lparr>jh_cache := c\<rparr>) u)"
  using assms
  by (auto simp: single_cached_def single_lookup_def Let_def split: prod.splits bool.splits sum.splits)

lemma handleHttpSingle_cases:
  assumes "handleHttpSingle L q w r body h u = (out, h', u')"
  shows "case rpc_policy (jl_glob L) q (jh_defaultAction h) (jh_rules h) of
      Panic p \<Rightarrow> out = Panic p \<and> u' = u \<and> jh_cache h' = jh_cache h
    | Ret (Denied x) \<Rightarrow> out = Ret (writeSingleResponse (jl_codec L) w (UnauthorizedResponse q))
        \<and> u' = u \<and> jh_cache h' = jh_cache h
    | Ret (Allowed x) \<Rightarrow> \<exists>h1. single_allowed L q w r body (rule_cache_of x)
        (h\<lparr>jh_readers := jh_readers h + 1\<rparr>) u = (out, h1, u') \<and> jh_cache h' = jh_cache h1"
  using assms
  by (auto simp: handleHttpSingle_verdict single_denied_def
      split: outcome.splits verdict.splits prod.splits)

text \<open>
  C5: A single request is answered as the first matching rule with a recognised action says, or
  the default when there is none.  Denied, it gets the 401 message with its own id, and nothing
  reaches the upstream or the cache.  Allowed without a \<open>cache\<close> section, it is forwarded once
  and the client gets what the upstream wrote.  With one, a cached message is sent under the
  request's id without an upstream call; on a miss the request is forwarded, and the answer,
  when it parses as a message the settings admit, is stored under the request's key; an answer
  that is no single message panics.  The read lock is released in every case.
\<close>

theorem rpc_single_implements_policy:
  assumes "handleHttpSingle L q w r body h u = (out, h', u')"
  shows "jh_readers h' = jh_readers h \<and>
    (case rpc_policy (jl_glob L) q (jh_defaultAction h) (jh_rules h) of
       Panic p \<Rightarrow> out = Panic p \<and> u' = u \<and> jh_cache h' = jh_cache h
     | Ret (Denied x) \<Rightarrow> u' = u \<and> jh_cache h' = jh_cache h
         \<and> out = Ret (case JsonRpcMsg_Marshal (jl_codec L) (zero_msg\<lparr>jm_Version := ''2.0'', jm_ID := jm_ID q,
               jm_Error := Some \<lparr>je_Code = 401, je_Message = ''unauthorized access'', je_Data = GNil\<rparr>\<rparr>) of
             Inl _ \<Rightarrow> Writer_WriteHeader 500 w
           | Inr b \<Rightarrow> Writer_Write b (Header_Set ''Content-Type'' ''application/json'' w))
     | Ret (Allowed x) \<Rightarrow> (case rule_cache_of x of
         None \<Rightarrow> \<exists>cs. jl_next L r (readBuf body) u = (cs, u') \<and> out = Ret (writer_calls cs w)
           \<and> jh_cache h' = jh_cache h
       | Some rc \<Rightarrow> (case single_lookup (jl_cache L) (JsonRpcMsg_Hash (jl_codec L) q) (jh_cache h) of
           (Some res, c) \<Rightarrow> u' = u \<and> jh_cache h' = c
             \<and> out = Ret (case JsonRpcMsg_Marshal (jl_codec L) (res\<lparr>jm_ID := jm_ID q\<rparr>) of
                 Inl _ \<Rightarrow> Writer_WriteHeader 500 w
               | Inr b \<Rightarrow> Writer_Write b (Header_Set ''Content-Type'' ''application/json'' w))
         | (None, c) \<Rightarrow> \<exists>cs. jl_next L r (readBuf body) u = (cs, u')
             \<and> (case fst (ParseJsonRpcMessage (jl_codec L) (written cs)) of
                  None \<Rightarrow> (\<exists>p. out = Panic p) \<and> jh_cache h' = c
                | Some res \<Rightarrow> out = Ret (writer_calls cs w)
                    \<and> jh_cache h' =
                      (if (jm_Error res = None \<or> rc_CacheError rc) \<and> (jm_Result res \<noteq> GNil \<or> rc_CacheEmptyResult rc)
                       then snd (c_set (jl_cache L) (JsonRpcMsg_Hash (jl_codec L) q) res (rc_TTL rc) c)
                       else c)))))"
proof (cases "rpc_policy (jl_glob L) q (jh_defaultAction h) (jh_rules h)")
  case (Panic p)
  with handleHttpSingle_cases [OF assms] handleHttpSingle_readers [OF assms] show ?thesis by simp
next
  case (Ret v)
  show ?thesis
  proof (cases v)
    case (Denied x)
    with Ret handleHttpSingle_cases [OF assms] handleHttpSingle_readers [OF assms] show ?thesis
      by (simp add: writeSingleResponse_def replies)
  next
    case (Allowed x)
    with Ret handleHttpSingle_cases [OF assms] obtain h1 where
      run: "single_allowed L q w r body (rule_cache_of x) (h\<lparr>jh_readers := jh_readers h + 1\<rparr>) u = (out, h1, u')"
      and h1: "jh_cache h' = jh_cache h1" by auto
    obtain v1 c where look: "single_lookup (jl_cache L) (JsonRpcMsg_Hash (jl_codec L) q) (jh_cache h) = (v1, c)"
      by fastforce
    have "case rule_cache_of x of
        None \<Rightarrow> \<exists>cs. jl_next L r (readBuf body) u = (cs, u') \<and> out = Ret (writer_calls cs w)
          \<and> jh_cache h' = jh_cache h
      | Some rc \<Rightarrow> (case v1 of
          Some res \<Rightarrow> u' = u \<and> jh_cache h' = c
            \<and> out = Ret (writeSingleResponse (jl_codec L) w (JsonRpcMsg_CloneWithID (jm_ID q) res))
        | None \<Rightarrow> single_upstream L q w r body rc (h\<lparr>jh_readers := jh_readers h + 1, jh_cache := c\<rparr>) u
            = (out, h1, u'))"
      using run h1 single_cached_outcome [of L q "h\<lparr>jh_readers := jh_readers h + 1\<rparr>" v1 c] look
      by (auto simp: single_allowed_def single_forward_def next_plain_eq prod_eq_iff split: option.splits)
    with Ret Allowed look h1 handleHttpSingle_readers [OF assms] show ?thesis
      by (auto simp: writeSingleResponse_def CloneWithID_eq cacheable_def split: option.splits
          dest!: single_upstream_outcome)
  qed
qed

text \<open>A codec that shows the id of a message, to see the reply to a denied request.\<close>

definition id_codec :: codec where
  "id_codec = demo_codec\<lparr>j_msg := (\<lambda>m. Inr (case jm_ID m of GInt i \<Rightarrow> Itoa i | _ \<Rightarrow> []))\<rparr>"

theorem rpc_single_implements_policy_witness:
  "\<exists>h'. handleHttpSingle ((demo_rpc_env (\<lambda>b. b))\<lparr>jl_codec := id_codec\<rparr>)
      ((demo_msg ''b'')\<lparr>jm_ID := GInt 7\<rparr>) new_writer (demo_post ''b'')
      (ReusableReader \<lparr>bs_data = ''b'', bs_error = None\<rparr>) (demo_rpc deny_b) 0
    = (Ret (Writer_Write ''7'' (Header_Set ''Content-Type'' ''application/json'' new_writer)), h', 0)
    \<and> jh_readers h' = 0"
proof -
  let ?L = "(demo_rpc_env (\<lambda>b. b))\<lparr>jl_codec := id_codec\<rparr>" and ?q = "(demo_msg ''b'')\<lparr>jm_ID := GInt 7\<rparr>"
  obtain out h' u' where run: "handleHttpSingle ?L ?q new_writer (demo_post ''b'')
      (ReusableReader \<lparr>bs_data = ''b'', bs_error = None\<rparr>) (demo_rpc deny_b) 0 = (out, h', u')"
    by (metis surj_pair)
  have "rpc_policy exact_glob ?q RuleActionAllow deny_b
      = Ret (Denied (Some (demo_rpc_rule RuleActionDeny [''b''] None)))"
    by (simp add: rpc_policy_def demo_match demo_msg_def recognised_def rule_verdict_def)
  moreover have "Itoa 7 = ''7''" by code_simp
  ultimately show ?thesis using rpc_single_implements_policy [OF run] run
    by (simp add: id_codec_def JsonRpcMsg_Marshal_def)
qed

text \<open>
  C3: No denied request of a batch reaches the upstream.  Either the world beyond the proxy is
  unchanged, or the upstream got one call whose body encodes requests of the batch, and each of
  them is allowed by the rules.
\<close>

theorem rpc_batch_forwards_allowed_only:
  assumes "handleHttpBatch L requests w r h u = (out, h', u')"
  shows "u' = u \<or> (\<exists>sent b. sent \<noteq> [] \<and> JsonRpcMsgs_Marshal (jl_codec L) sent = Inr b
    \<and> u' = snd (jl_next L (r\<lparr>rq_Body := \<lparr>bs_data = b, bs_error = None\<rparr>\<rparr>) b u)
    \<and> (\<forall>m\<in>set sent. Some m \<in> set requests
        \<and> (\<exists>x. rpc_batch_policy (jl_glob L) m (jh_defaultAction h) (jh_rules h) = Ret (Allowed x))))"
  using handleHttpBatch_world [OF assms] .

theorem rpc_batch_forwards_allowed_only_witness:
  "\<exists>sent. sent \<noteq> [] \<and> demo_msg ''b'' \<notin> set sent
    \<and> 1 = snd (jl_next (demo_rpc_env (\<lambda>b. b)) (demo_post (CHR ''['' # map msg_char sent))
        (CHR ''['' # map msg_char sent) 0)"
proof -
  let ?L = "demo_rpc_env (\<lambda>b. b)"
  let ?run = "handleHttpBatch ?L [Some (demo_msg ''a''), Some (demo_msg ''b'')] new_writer (demo_post [])
    (demo_rpc deny_b) 0"
  have "snd (snd ?run) = 1" by code_simp
  then obtain out h' where run: "?run = (out, h', 1)" by (metis surjective_pairing)
  have "rpc_batch_policy exact_glob (demo_msg ''b'') RuleActionAllow deny_b \<noteq> Ret (Allowed x)" for x
    by (simp add: rpc_batch_policy_def demo_match demo_msg_def recognised_def rule_verdict_def)
  note denied = this
  from rpc_batch_forwards_allowed_only [OF run] obtain sent b where sent: "sent \<noteq> []"
    and b: "JsonRpcMsgs_Marshal demo_codec sent = Inr b"
    and up: "1 = snd (jl_next ?L ((demo_post [])\<lparr>rq_Body := \<lparr>bs_data = b, bs_error = None\<rparr>\<rparr>) b 0)"
    and allowed: "\<forall>m\<in>set sent. \<exists>x. rpc_batch_policy exact_glob m RuleActionAllow deny_b = Ret (Allowed x)"
    by auto
  have "b = CHR ''['' # map msg_char sent" using b by (simp add: JsonRpcMsgs_Marshal_def demo_codec_def)
  moreover have "demo_msg ''b'' \<notin> set sent" using allowed denied by blast
  ultimately show ?thesis using sent up by (intro exI [of _ sent]) (simp add: demo_post_def)
qed

text \<open>
  C8: A batch whose upstream call is answered with one message per request sent is answered with
  one reply per request, in the order of the requests: the 401 message with its id for a denied
  request, the cached message under its id for one found in the cache, and for the others the
  upstream's answers in the order in which the requests were sent.
\<close>

theorem rpc_batch_one_reply_each:
  assumes "batch_slots L (jh_defaultAction h) (jh_rules h) ms (jh_cache h) = Ret (slots, c)"
    and "upstream_answers L r (upstream_part ms slots) u ans u'"
    and "JsonRpcMsgs_Marshal (jl_codec L) (merge_replies ms slots ans) = Inr b"
  shows "(\<exists>h'. handleHttpBatch L (map Some ms) w r h u =
      (Ret (WriteData 200 b [''Content-Type'', ''application/json''] w), h', u'))
    \<and> length (merge_replies ms slots ans) = length ms"
  using handleHttpBatch_merge [OF assms] merge_replies_length [OF assms(1,2)] by simp

theorem rpc_batch_one_reply_each_witness:
  "(\<exists>h'. handleHttpBatch (demo_rpc_env (\<lambda>b. b))
      [Some (demo_msg ''a''), Some (demo_msg ''b''), Some (demo_msg ''c'')]
      new_writer (demo_post []) (demo_rpc deny_b) 0 =
      (Ret (WriteData 200 (CHR ''['' # map msg_char [demo_msg ''a'', UnauthorizedResponse (demo_msg ''b''), demo_msg ''c''])
        [''Content-Type'', ''application/json''] new_writer), h', 1))
   \<and> map msg_char [demo_msg ''a'', UnauthorizedResponse (demo_msg ''b''), demo_msg ''c''] = ''axc''"
proof -
  let ?L = "demo_rpc_env (\<lambda>b. b)" and ?h = "demo_rpc deny_b"
  let ?ms = "map demo_msg [''a'', ''b'', ''c'']" and ?slots = "[ToUpstream, Refused, ToUpstream]"
  let ?ans = "map demo_msg [''a'', ''c'']"
  have slots: "batch_slots ?L (jh_defaultAction ?h) (jh_rules ?h) ?ms (jh_cache ?h) = Ret (?slots, jh_cache ?h)"
    by (simp add: rpc_batch_policy_def demo_match demo_msg_def recognised_def rule_verdict_def
        default_verdict_def request_slot_def)
  have up: "upstream_answers ?L (demo_post []) (upstream_part ?ms ?slots) 0 ?ans 1"
    by (simp add: upstream_answers_def JsonRpcMsgs_Marshal_def ParseJsonRpcMessage_def msg_char_def
        demo_rpc_env_def demo_codec_def writer_calls_answer) (simp add: demo_msg_def)
  have b: "JsonRpcMsgs_Marshal (jl_codec ?L) (merge_replies ?ms ?slots ?ans)
      = Inr (CHR ''['' # map msg_char (merge_replies ?ms ?slots ?ans))"
    by (simp add: JsonRpcMsgs_Marshal_def demo_codec_def)
  from rpc_batch_one_reply_each [OF slots up b, of new_writer] show ?thesis
    by (simp add: UnauthorizedResponse_def) (simp add: msg_char_def demo_msg_def zero_msg_def)
qed

text \<open>
  C38: When the number of messages in the upstream's answer differs from the number of requests
  sent, as it does when a batch has a notification, every forwarded request is left without a
  reply, answered or not, and nothing is cached.
\<close>

theorem rpc_batch_count_mismatch_drops:
  assumes "batch_loop L (jh_defaultAction h) (jh_rules h) 0 requests (empty_batch (jh_cache h)) = (None, st)"
    and "getResponsesFromUpstream L r (Responses_GetPendingRequests (bt_responses st)) u = (Inr ms, u')"
    and "length ms \<noteq> length (Responses_GetPendingRequests (bt_responses st))"
    and "Responses_GetPendingRequests (bt_responses st) \<noteq> []"
    and "JsonRpcMsgs_Marshal (jl_codec L) (Responses_GetFinal (bt_responses st)) = Inr b"
  shows "\<exists>h'. handleHttpBatch L requests w r h u =
      (Ret (WriteData 200 b [''Content-Type'', ''application/json''] w), h', u')
    \<and> jh_cache h' = bt_cache st
    \<and> length (Responses_GetFinal (bt_responses st)) + length (Responses_GetPendingRequests (bt_responses st))
        = length requests"
proof -
  have "batch_upstream L r (bt_responses st) (bt_cache st) u = (Ret (Inr (bt_responses st)), bt_cache st, u')"
    using assms(2-4) by (simp add: batch_upstream_def)
  with assms(1,5) have "\<exists>h'. handleHttpBatch L requests w r h u =
      (Ret (WriteData 200 b [''Content-Type'', ''application/json''] w), h', u') \<and> jh_cache h' = bt_cache st"
    by (simp add: handleHttpBatch_def Let_def)
  moreover have "length (bt_responses st) = length requests"
    using batch_loop_ok [OF assms(1)] by (auto simp: empty_batch_def dest: list_all2_lengthD)
  ultimately show ?thesis using GetFinal_pending_length [of "bt_responses st"] by auto
qed

theorem rpc_batch_count_mismatch_drops_witness:
  "\<exists>b h'. handleHttpBatch (demo_rpc_env (\<lambda>b. take 2 b)) [Some (demo_msg ''a''), Some (demo_msg ''c'')]
      new_writer (demo_post []) (demo_rpc deny_b) 0 =
      (Ret (WriteData 200 b [''Content-Type'', ''application/json''] new_writer), h', 1)
    \<and> JsonRpcMsgs_Marshal demo_codec [] = Inr b"
proof -
  let ?L = "demo_rpc_env (\<lambda>b. take 2 b)"
  let ?qs = "[Some (demo_msg ''a''), Some (demo_msg ''c'')]"
  let ?loop = "batch_loop ?L (jh_defaultAction (demo_rpc deny_b)) (jh_rules (demo_rpc deny_b)) 0 ?qs
    (empty_batch (jh_cache (demo_rpc deny_b)))"
  define st where "st = snd ?loop"
  have "fst ?loop = None" by code_simp
  then have loop: "?loop = (None, st)" unfolding st_def by (metis surjective_pairing)
  have pend: "Responses_GetPendingRequests (bt_responses st) = [(0, demo_msg ''a''), (1, demo_msg ''c'')]"
    unfolding st_def by code_simp
  have final: "Responses_GetFinal (bt_responses st) = []" unfolding st_def by code_simp
  have up: "getResponsesFromUpstream ?L (demo_post []) (Responses_GetPendingRequests (bt_responses st)) 0
      = (Inr [Some (demo_msg ''a'')], 1)"
    unfolding pend by code_simp
  have m: "JsonRpcMsgs_Marshal (jl_codec ?L) (Responses_GetFinal (bt_responses st)) = Inr ''[''"
    by (simp add: final JsonRpcMsgs_Marshal_def demo_codec_def)
  from rpc_batch_count_mismatch_drops [OF loop up _ _ m, of new_writer] show ?thesis
    by (simp add: pend JsonRpcMsgs_Marshal_def demo_codec_def) blast
qed

section \<open>The lock\<close>

text \<open>
  C25: A batch with a \<open>null\<close> element panics with the read lock held, without an upstream call;
  after any further requests \<open>SetRules\<close> does not return, so no reload of the rules ever does.
\<close>

theorem rpc_null_request_blocks_reload:
  assumes "handleHttpBatch L (pre @ None # post) w r h u = (out, h', u')"
    and "serve_all L rs h' u' = (h'', u'')"
  shows "(\<exists>p. out = Panic p) \<and> u' = u \<and> jh_readers h' = jh_readers h + 1
    \<and> JsonRpcHandler_SetRules L rules d h'' = None"
proof -
  obtain p st where "batch_loop L (jh_defaultAction h) (jh_rules h) 0 (pre @ None # post)
      (empty_batch (jh_cache h)) = (Some p, st)"
    using batch_loop_nil by blast
  from handleHttpBatch_panic [OF this, of w r u] assms(1)
  have "out = Panic p \<and> u' = u \<and> jh_readers h' = jh_readers h + 1" by auto
  with serve_all_readers [OF assms(2)] show ?thesis
    by (auto simp: JsonRpcHandler_SetRules_def)
qed

theorem rpc_null_request_blocks_reload_witness:
  "\<exists>p h'. handleHttpBatch (demo_rpc_env (\<lambda>b. b)) [None] new_writer (demo_post ''[0'') (demo_rpc deny_b) 0
      = (Panic p, h', 0) \<and> JsonRpcHandler_SetRules (demo_rpc_env (\<lambda>b. b)) [] RuleActionDeny h' = None"
proof -
  obtain out h' u' where run: "handleHttpBatch (demo_rpc_env (\<lambda>b. b)) ([] @ None # []) new_writer
      (demo_post ''[0'') (demo_rpc deny_b) 0 = (out, h', u')"
    by (metis surj_pair)
  from rpc_null_request_blocks_reload [OF run, of "[]" h' u' "[]" RuleActionDeny] run show ?thesis
    by auto
qed

section \<open>The cache\<close>

text \<open>
  C11: A cached message is served under the id of the new request, without an upstream call; and
  the handler does so for every allowing rule with a \<open>cache\<close> section: the hypotheses do not ask
  for its \<open>enable\<close> to be set.
\<close>

theorem rpc_second_request_hits:
  assumes "jl_cache L = any_cache_api ref_ttlcache rd mp fmt" and "jh_cache h = Inl m" "quiet m"
    and "rpc_policy (jl_glob L) q1 (jh_defaultAction h) (jh_rules h) = Ret (Allowed (Some a1))"
    and "jq_Cache a1 = Some rc1"
    and "rpc_policy (jl_glob L) q2 (jh_defaultAction h) (jh_rules h) = Ret (Allowed (Some a2))"
    and "jq_Cache a2 = Some rc2"
    and "JsonRpcMsg_Hash (jl_codec L) q1 = JsonRpcMsg_Hash (jl_codec L) q2"
    and "MemoryCache_live ref_live m (JsonRpcMsg_Hash (jl_codec L) q1) = None"
    and "jl_next L r1 (readBuf body1) u1 = (cs, u1')"
    and "fst (ParseJsonRpcMessage (jl_codec L) (written cs)) = Some res" and "cacheable rc1 res"
  shows "\<exists>h1 h2. handleHttpSingle L q1 w1 r1 body1 h u1 = (Ret (writer_calls cs w1), h1, u1')
    \<and> handleHttpSingle L q2 w2 r2 body2 h1 u2 =
        (Ret (writeSingleResponse (jl_codec L) w2 (JsonRpcMsg_CloneWithID (jm_ID q2) res)), h2, u2)"
  by (rule single_miss_then_hit [OF assms])

theorem rpc_second_request_hits_witness:
  "\<exists>h1 h2. handleHttpSingle (demo_rpc_env (\<lambda>b. b)) ((demo_msg ''a'')\<lparr>jm_ID := GInt 1\<rparr>) new_writer (demo_post ''a'')
      (ReusableReader \<lparr>bs_data = ''a'', bs_error = None\<rparr>)
      (demo_rpc [demo_rpc_rule RuleActionAllow [] (Some \<lparr>rc_Enable = False, rc_TTL = 60, rc_CacheError = False,
         rc_CacheEmptyResult = False\<rparr>)]) 0
      = (Ret (writer_calls [CallWriteHeader 200, CallWrite ''a''] new_writer), h1, 1)
    \<and> handleHttpSingle (demo_rpc_env (\<lambda>b. b)) ((demo_msg ''a'')\<lparr>jm_ID := GInt 2\<rparr>) new_writer (demo_post ''a'')
      (ReusableReader \<lparr>bs_data = ''a'', bs_error = None\<rparr>) h1 1
      = (Ret (writeSingleResponse demo_codec new_writer
          (JsonRpcMsg_CloneWithID (GInt 2) (demo_msg ''a''))), h2, 1)"
proof -
  let ?rule = "demo_rpc_rule RuleActionAllow [] (Some \<lparr>rc_Enable = False, rc_TTL = 60, rc_CacheError = False,
         rc_CacheEmptyResult = False\<rparr>)"
  let ?L = "demo_rpc_env (\<lambda>b. b)"
  let ?h = "demo_rpc [?rule]"
  let ?body = "ReusableReader \<lparr>bs_data = ''a'', bs_error = None\<rparr>"
  let ?q = "\<lambda>i. (demo_msg ''a'')\<lparr>jm_ID := GInt i\<rparr>"
  have api: "jl_cache ?L = any_cache_api ref_ttlcache ref_redis refusing_msgpack fmt_uint64"
    by (simp add: demo_rpc_env_def)
  have c: "jh_cache ?h = Inl \<lparr>mc_Namespace = ''rpc'', mc_cache = ref_empty 5\<rparr>" by (simp add: demo_rpc_def)
  have quiet: "quiet \<lparr>mc_Namespace = ''rpc'', mc_cache = ref_empty 5\<rparr>" by (simp add: ref_empty_def)
  have v: "rpc_policy (jl_glob ?L) (?q i) (jh_defaultAction ?h) (jh_rules ?h) = Ret (Allowed (Some ?rule))" for i
    by (simp add: rpc_policy_def demo_match)
  have rc: "jq_Cache ?rule = Some \<lparr>rc_Enable = False, rc_TTL = 60, rc_CacheError = False,
      rc_CacheEmptyResult = False\<rparr>" by simp
  have key: "JsonRpcMsg_Hash (jl_codec ?L) (?q 1) = JsonRpcMsg_Hash (jl_codec ?L) (?q 2)"
    by (simp only: JsonRpcMsg_Hash_ID)
  have up: "jl_next ?L (demo_post ''a'') (readBuf ?body) 0 = ([CallWriteHeader 200, CallWrite ''a''], 1)"
    by (simp add: demo_rpc_env_def)
  have res: "fst (ParseJsonRpcMessage (jl_codec ?L) (written [CallWriteHeader 200, CallWrite ''a'']))
      = Some (demo_msg ''a'')"
    by (simp add: ParseJsonRpcMessage_def demo_codec_def written_def)
  have ok: "cacheable \<lparr>rc_Enable = False, rc_TTL = 60, rc_CacheError = False, rc_CacheEmptyResult = False\<rparr>
      (demo_msg ''a'')"
    by (simp add: cacheable_def demo_msg_def zero_msg_def)
  from rpc_second_request_hits [OF api c quiet v rc v rc key demo_empty_cache up res ok, of new_writer
      new_writer "demo_post ''a''" ?body 1]
  show ?thesis by simp
qed

section \<open>Single requests and batches disagree\<close>

text \<open>
  A rule that matches with an unrecognised action is passed over for a single request, so a
  denying rule after it denies; the same request in a batch falls back to the default action
  there and is forwarded.
\<close>

theorem rpc_unrecognised_action_differs:
  assumes "JsonRpcRule_Match (jl_glob L) r1 m = Ret True" "\<not> recognised (jq_Action r1)"
    and "JsonRpcRule_Match (jl_glob L) r2 m = Ret True" "jq_Action r2 = RuleActionDeny"
    and "jh_rules h = r1 # r2 # rules" "jh_defaultAction h = RuleActionAllow"
  shows "fst (handleHttpSingle L m w r body h u) = Ret (writeSingleResponse (jl_codec L) w (UnauthorizedResponse m))
    \<and> Responses_GetPendingRequests (bt_responses (snd (batch_loop L (jh_defaultAction h) (jh_rules h) 0 [Some m]
      (empty_batch (jh_cache h))))) = [(0, m)]"
  using assms
  by (auto simp: handleHttpSingle_verdict rpc_policy_def recognised_def single_denied_def
      batch_request_def batch_default_def responses_add empty_batch_def)

theorem rpc_unrecognised_action_differs_witness:
  "fst (handleHttpSingle (demo_rpc_env (\<lambda>b. b)) (demo_msg ''b'') new_writer (demo_post ''b'')
      (ReusableReader \<lparr>bs_data = ''b'', bs_error = None\<rparr>)
      (demo_rpc (demo_rpc_rule ''log'' [] None # deny_b)) 0)
    = Ret (writeSingleResponse demo_codec new_writer (UnauthorizedResponse (demo_msg ''b'')))"
  using rpc_unrecognised_action_differs [of "demo_rpc_env (\<lambda>b. b)" "demo_rpc_rule ''log'' [] None"
      "demo_msg ''b''" "demo_rpc_rule RuleActionDeny [''b''] None" "demo_rpc (demo_rpc_rule ''log'' [] None # deny_b)"]
  by (simp add: demo_match recognised_def RuleActionAllow_def RuleActionDeny_def) (simp add: demo_msg_def)

end
