(* ===== verification/Subscriptions.thy ===== *)
theory Subscriptions
  imports JsonRpc
begin

text \<open>
  The pairing of subscription parameters with subscription ids, which three components keep as
  two maps (the subscription manager, the pool and each upstream connection), and
  \<open>src/pkg/cosmoguard/ws_subscriptions.go\<close>.  Each method holds its locks throughout, so a method
  is one step.
\<close>

text \<open>Lookups are not to be turned into membership.\<close>

declare map_of_eq_Some_iff [simp del] Some_eq_map_of_iff [simp del]

section \<open>Two maps that agree\<close>

text \<open>
  Removing by id deletes the parameter the id is bound to; for an unknown id that is Go's zero
  value, the empty string.
\<close>

locale two_way =
  fixes id_of :: "'s \<Rightarrow> string \<Rightarrow> string option"
    and param_of :: "'s \<Rightarrow> string \<Rightarrow> string option"
    and add :: "string \<Rightarrow> string \<Rightarrow> 's \<Rightarrow> 's"
    and remove :: "string \<Rightarrow> 's \<Rightarrow> 's"
  assumes id_of_add: "id_of (add p i s) = (id_of s)(p \<mapsto> i)"
    and param_of_add: "param_of (add p i s) = (param_of s)(i \<mapsto> p)"
    and id_of_remove: "id_of (remove i s) =
      (id_of s)((case param_of s i of None \<Rightarrow> [] | Some p \<Rightarrow> p) := None)"
    and param_of_remove: "param_of (remove i s) = (param_of s)(i := None)"
begin

definition paired :: "'s \<Rightarrow> bool" where
  "paired s \<longleftrightarrow> (\<forall>p i. id_of s p = Some i \<longleftrightarrow> param_of s i = Some p)"

lemma pairedD: "paired s \<Longrightarrow> id_of s p = Some i \<longleftrightarrow> param_of s i = Some p"
  by (simp add: paired_def)

lemma paired_add:
  assumes "paired s" and "id_of s p = None" and "param_of s i = None"
  shows "paired (add p i s)"
  unfolding paired_def
proof (intro allI)
  fix p' i'
  show "id_of (add p i s) p' = Some i' \<longleftrightarrow> param_of (add p i s) i' = Some p'"
    using assms(2,3) pairedD [OF assms(1), of p' i'] pairedD [OF assms(1), of p i']
      pairedD [OF assms(1), of p' i]
    by (simp add: id_of_add param_of_add)
qed

lemma paired_remove:
  assumes "paired s" and "param_of s i = Some p"
  shows "paired (remove i s)"
  unfolding paired_def
proof (intro allI)
  fix p' i'
  show "id_of (remove i s) p' = Some i' \<longleftrightarrow> param_of (remove i s) i' = Some p'"
    using assms(2) pairedD [OF assms(1), of p' i'] pairedD [OF assms(1), of p i']
      pairedD [OF assms(1), of p' i] pairedD [OF assms(1), of p i]
    by (auto simp: id_of_remove param_of_remove)
qed

lemma paired_inj: "paired s \<Longrightarrow> id_of s p = Some i \<Longrightarrow> id_of s p' = Some i \<Longrightarrow> p = p'"
  by (metis option.inject pairedD)

end

section \<open>SubscriptionManager\<close>

record 'cl SubscriptionManager =
  sm_paramToID :: "(string, string) gomap"
  sm_idToParam :: "(string, string) gomap"
  sm_clientSubscriptions :: "(string, ('cl, any) gomap) gomap"

definition NewSubscriptionManager :: "'cl SubscriptionManager" where
  "NewSubscriptionManager =
     \<lparr>sm_paramToID = [], sm_idToParam = [], sm_clientSubscriptions = []\<rparr>"

definition SubscriptionManager_AddSubscription ::
  "string \<Rightarrow> string \<Rightarrow> 'cl SubscriptionManager \<Rightarrow> 'cl SubscriptionManager" where
  "SubscriptionManager_AddSubscription param i s =
     s\<lparr>sm_paramToID := gm_put param i (sm_paramToID s),
       sm_idToParam := gm_put i param (sm_idToParam s),
       sm_clientSubscriptions := gm_put i [] (sm_clientSubscriptions s)\<rparr>"

definition zero_string :: "string option \<Rightarrow> string" where
  "zero_string x = (case x of None \<Rightarrow> [] | Some p \<Rightarrow> p)"

definition SubscriptionManager_RemoveSubscription ::
  "string \<Rightarrow> 'cl SubscriptionManager \<Rightarrow> 'cl SubscriptionManager" where
  "SubscriptionManager_RemoveSubscription i s =
     s\<lparr>sm_paramToID := gm_del (zero_string (gm_get (sm_idToParam s) i)) (sm_paramToID s),
       sm_idToParam := gm_del i (sm_idToParam s),
       sm_clientSubscriptions := gm_del i (sm_clientSubscriptions s)\<rparr>"

text \<open>The clients of a subscription; a missing one reads as the nil map.\<close>

definition clients_of :: "'cl SubscriptionManager \<Rightarrow> string \<Rightarrow> ('cl, any) gomap" where
  "clients_of s i = (case gm_get (sm_clientSubscriptions s) i of None \<Rightarrow> [] | Some m \<Rightarrow> m)"

definition SubscriptionManager_SubscriptionEmpty :: "string \<Rightarrow> 'cl SubscriptionManager \<Rightarrow> bool" where
  "SubscriptionManager_SubscriptionEmpty i s \<longleftrightarrow> length (clients_of s i) = 0"

text \<open>Storing into the nil map of a missing subscription panics.\<close>

definition SubscriptionManager_SubscribeClient ::
  "string \<Rightarrow> 'cl \<Rightarrow> any \<Rightarrow> 'cl SubscriptionManager \<Rightarrow> 'cl SubscriptionManager outcome" where
  "SubscriptionManager_SubscribeClient i client clientSubID s =
     (case gm_get (sm_clientSubscriptions s) i of
        None \<Rightarrow> Panic ''assignment to entry in nil map''
      | Some m \<Rightarrow> Ret (s\<lparr>sm_clientSubscriptions :=
          gm_put i (gm_put client clientSubID m) (sm_clientSubscriptions s)\<rparr>))"

definition SubscriptionManager_UnsubscribeClient ::
  "string \<Rightarrow> 'cl \<Rightarrow> 'cl SubscriptionManager \<Rightarrow> 'cl SubscriptionManager" where
  "SubscriptionManager_UnsubscribeClient i client s =
     (case gm_get (sm_clientSubscriptions s) i of
        None \<Rightarrow> s
      | Some m \<Rightarrow> s\<lparr>sm_clientSubscriptions :=
          gm_put i (gm_del client m) (sm_clientSubscriptions s)\<rparr>)"

definition SubscriptionManager_ClientSubscribed :: "string \<Rightarrow> 'cl \<Rightarrow> 'cl SubscriptionManager \<Rightarrow> bool" where
  "SubscriptionManager_ClientSubscribed i client s \<longleftrightarrow> gm_has (clients_of s i) client"

definition SubscriptionManager_GetSubscriptions :: "'cl \<Rightarrow> 'cl SubscriptionManager \<Rightarrow> string list" where
  "SubscriptionManager_GetSubscriptions client s =
     map fst (filter (\<lambda>(i, m). gm_has m client) (sm_clientSubscriptions s))"

definition SubscriptionManager_GetSubscriptionID :: "string \<Rightarrow> 'cl SubscriptionManager \<Rightarrow> string option" where
  "SubscriptionManager_GetSubscriptionID param s = gm_get (sm_paramToID s) param"

definition SubscriptionManager_GetSubscriptionParam :: "string \<Rightarrow> 'cl SubscriptionManager \<Rightarrow> string option" where
  "SubscriptionManager_GetSubscriptionParam i s = gm_get (sm_idToParam s) i"

definition SubscriptionManager_GetSubscriptionClients ::
  "string \<Rightarrow> 'cl SubscriptionManager \<Rightarrow> ('cl, any) gomap" where
  "SubscriptionManager_GetSubscriptionClients i s = clients_of s i"

interpretation subs: two_way "\<lambda>s p. SubscriptionManager_GetSubscriptionID p s"
  "\<lambda>s i. SubscriptionManager_GetSubscriptionParam i s"
  SubscriptionManager_AddSubscription SubscriptionManager_RemoveSubscription
  by unfold_locales
    (auto simp: SubscriptionManager_GetSubscriptionID_def SubscriptionManager_GetSubscriptionParam_def
      SubscriptionManager_AddSubscription_def SubscriptionManager_RemoveSubscription_def fun_eq_iff
      zero_string_def)

section \<open>The invariant of the manager\<close>

text \<open>
  The two maps agree, exactly the known ids have a set of clients, and the maps are maps.
\<close>

definition sm_inv :: "'cl SubscriptionManager \<Rightarrow> bool" where
  "sm_inv s \<longleftrightarrow> subs.paired s
     \<and> (\<forall>i. gm_has (sm_clientSubscriptions s) i \<longleftrightarrow> gm_has (sm_idToParam s) i)
     \<and> gm_wf (sm_clientSubscriptions s)
     \<and> (\<forall>i m. gm_get (sm_clientSubscriptions s) i = Some m \<longrightarrow> gm_wf m)"

lemma sm_inv_new: "sm_inv NewSubscriptionManager"
  unfolding sm_inv_def subs.paired_def
  by (simp add: NewSubscriptionManager_def SubscriptionManager_GetSubscriptionID_def
      SubscriptionManager_GetSubscriptionParam_def)

lemma sm_inv_add:
  assumes "sm_inv s" and "SubscriptionManager_GetSubscriptionID p s = None"
    and "SubscriptionManager_GetSubscriptionParam i s = None"
  shows "sm_inv (SubscriptionManager_AddSubscription p i s)"
  using assms subs.paired_add [of s p i]
  by (auto simp: sm_inv_def SubscriptionManager_AddSubscription_def)

lemma sm_inv_remove:
  assumes "sm_inv s" and "SubscriptionManager_GetSubscriptionParam i s = Some p"
  shows "sm_inv (SubscriptionManager_RemoveSubscription i s)"
  using assms subs.paired_remove [of s i p]
  by (auto simp: sm_inv_def SubscriptionManager_RemoveSubscription_def)

lemma paired_clients_update:
  "subs.paired (s\<lparr>sm_clientSubscriptions := c\<rparr>) = subs.paired s"
  unfolding subs.paired_def
  by (simp add: SubscriptionManager_GetSubscriptionID_def SubscriptionManager_GetSubscriptionParam_def)

lemma sm_inv_subscribe:
  assumes "sm_inv s" and "SubscriptionManager_SubscribeClient i c x s = Ret s'"
  shows "sm_inv s'"
  using assms
  by (auto simp: sm_inv_def SubscriptionManager_SubscribeClient_def paired_clients_update
      split: option.splits if_splits) blast+

lemma sm_inv_unsubscribe:
  assumes "sm_inv s" shows "sm_inv (SubscriptionManager_UnsubscribeClient i c s)"
  using assms
  by (auto simp: sm_inv_def SubscriptionManager_UnsubscribeClient_def paired_clients_update
      split: option.splits if_splits)

lemma subscribe_returns:
  "sm_inv s \<Longrightarrow> gm_has (sm_idToParam s) i \<Longrightarrow> returns (SubscriptionManager_SubscribeClient i c x s)"
  by (auto simp: sm_inv_def SubscriptionManager_SubscribeClient_def split: option.splits)

section \<open>Clients after an operation\<close>

lemma clients_of_simps:
  "clients_of (SubscriptionManager_AddSubscription p i s) j = (if j = i then [] else clients_of s j)"
  "clients_of (SubscriptionManager_RemoveSubscription i s) j = (if j = i then [] else clients_of s j)"
  "clients_of (SubscriptionManager_UnsubscribeClient i c s) j =
     (if j = i then gm_del c (clients_of s i) else clients_of s j)"
  by (auto simp: clients_of_def SubscriptionManager_AddSubscription_def
      SubscriptionManager_RemoveSubscription_def SubscriptionManager_UnsubscribeClient_def
      split: option.splits)

lemma clients_of_subscribe:
  "SubscriptionManager_SubscribeClient i c x s = Ret s' \<Longrightarrow>
     clients_of s' j = (if j = i then gm_put c x (clients_of s i) else clients_of s j)"
  by (auto simp: clients_of_def SubscriptionManager_SubscribeClient_def split: option.splits)

lemma GetSubscriptions_iff:
  assumes "sm_inv s"
  shows "i \<in> set (SubscriptionManager_GetSubscriptions c s) \<longleftrightarrow> SubscriptionManager_ClientSubscribed i c s"
proof -
  have wf: "gm_wf (sm_clientSubscriptions s)" using assms by (simp add: sm_inv_def)
  show ?thesis
    by (force simp: SubscriptionManager_GetSubscriptions_def SubscriptionManager_ClientSubscribed_def
        clients_of_def gm_in_get [OF wf] split: option.splits)
qed

lemma GetSubscriptions_distinct: "sm_inv s \<Longrightarrow> distinct (SubscriptionManager_GetSubscriptions c s)"
  by (auto simp: SubscriptionManager_GetSubscriptions_def sm_inv_def intro: distinct_map_filter)

end
