(* ===== verification/UpstreamPool.thy ===== *)
theory UpstreamPool
  imports Subscriptions Util "HOL-Library.Word"
begin

text \<open>
  \<open>src/pkg/cosmoguard/ws_utils.go\<close>, and \<open>ws_upstream_pool.go\<close>: the pool of upstream WebSocket
  connections, which chooses a connection for each request in turn and remembers which
  connection carries which subscription.

  A connection is reached through the interface \<open>UpstreamConnManager\<close> (\<open>ws_upstream.go\<close>), here
  a record of functions of the connection's index on the world \<open>'w\<close> the connections live in.
\<close>

section \<open>WebSocket utilities\<close>

definition methodSubscribeCosmos :: string where "methodSubscribeCosmos = ''subscribe''"
definition methodUnsubscribeCosmos :: string where "methodUnsubscribeCosmos = ''unsubscribe''"
definition methodUnsubscribeAllCosmos :: string where "methodUnsubscribeAllCosmos = ''unsubscribe_all''"
definition methodSubscribeEth :: string where "methodSubscribeEth = ''eth_subscribe''"
definition methodUnsubscribeEth :: string where "methodUnsubscribeEth = ''eth_unsubscribe''"

lemmas subscription_methods =
  methodSubscribeCosmos_def methodUnsubscribeCosmos_def methodUnsubscribeAllCosmos_def
  methodSubscribeEth_def methodUnsubscribeEth_def

definition hasSubscriptionMethod :: "JsonRpcMsg \<Rightarrow> bool" where
  "hasSubscriptionMethod request \<longleftrightarrow>
     jm_Method request = methodSubscribeCosmos \<or> jm_Method request = methodUnsubscribeCosmos
   \<or> jm_Method request = methodUnsubscribeAllCosmos \<or> jm_Method request = methodSubscribeEth
   \<or> jm_Method request = methodUnsubscribeEth"

text \<open>The first element of an empty list is an index out of range.\<close>

definition getSubscriptionParam :: "JsonRpcMsg \<Rightarrow> (err + string) outcome" where
  "getSubscriptionParam req =
     (let from_list = (case jm_Params req of
          GSlice params \<Rightarrow> (case params of
              [] \<Rightarrow> Panic ''index out of range''
            | GStr query # _ \<Rightarrow> Ret (Inr query)
            | _ # _ \<Rightarrow> Ret (Inl (ErrText ''bad query format (should be string)'')))
        | _ \<Rightarrow> Ret (Inl (ErrText ''bad params for subscribe'')))
      in case jm_Params req of
           GMap params \<Rightarrow> (case gm_get params ''query'' of
               Some (GStr query) \<Rightarrow> Ret (Inr query)
             | _ \<Rightarrow> from_list)
         | _ \<Rightarrow> from_list)"

definition isEthSubscriptionID :: "string \<Rightarrow> bool" where
  "isEthSubscriptionID params \<longleftrightarrow> HasPrefix params ''0x''"

section \<open>The pool\<close>

record 'w UpstreamConnManager =
  uc_MakeRequest :: "nat \<Rightarrow> JsonRpcMsg \<Rightarrow> 'w \<Rightarrow> (err + JsonRpcMsg) \<times> 'w"
  uc_Subscribe :: "nat \<Rightarrow> string \<Rightarrow> 'w \<Rightarrow> (err + string) \<times> 'w"
  uc_Unsubscribe :: "nat \<Rightarrow> string \<Rightarrow> 'w \<Rightarrow> err option \<times> 'w"

record UpstreamPool =
  up_conns :: nat
  up_connIdx :: "32 word"
  up_subscriptionConn :: "(string, nat) gomap"
  up_subscriptionID :: "(string, string) gomap"
  up_subscriptionParam :: "(string, string) gomap"

definition NewUpstreamPool :: "nat \<Rightarrow> UpstreamPool" where
  "NewUpstreamPool n = \<lparr>up_conns = n, up_connIdx = 0, up_subscriptionConn = [],
     up_subscriptionID = [], up_subscriptionParam = []\<rparr>"

text \<open>
  Go's remainder has the sign of the dividend.  The counter is a \<open>uint32\<close>, the conversion to
  \<open>int\<close> keeps its value, and one is subtracted afterwards.
\<close>

definition go_rem :: "int \<Rightarrow> int \<Rightarrow> int" where
  "go_rem a b = (if 0 \<le> a then a mod \<bar>b\<bar> else - ((- a) mod \<bar>b\<bar>))"

definition UpstreamPool_getConnection :: "UpstreamPool \<Rightarrow> nat outcome \<times> UpstreamPool" where
  "UpstreamPool_getConnection p =
     (let n = up_connIdx p + 1;
          p' = p\<lparr>up_connIdx := n\<rparr>
      in if up_conns p = 0 then (Panic ''integer divide by zero'', p')
         else let k = go_rem (uint n - 1) (int (up_conns p))
              in if 0 \<le> k \<and> k < int (up_conns p) then (Ret (nat k), p')
                 else (Panic ''index out of range'', p'))"

definition UpstreamPool_MakeRequest ::
  "'w UpstreamConnManager \<Rightarrow> JsonRpcMsg \<Rightarrow> UpstreamPool \<Rightarrow> 'w
     \<Rightarrow> (err + JsonRpcMsg) outcome \<times> UpstreamPool \<times> 'w" where
  "UpstreamPool_MakeRequest uc msg p w =
     (case UpstreamPool_getConnection p of
        (Panic e, p') \<Rightarrow> (Panic e, p', w)
      | (Ret conn, p') \<Rightarrow> (case uc_MakeRequest uc conn msg w of (r, w') \<Rightarrow> (Ret r, p', w')))"

definition UpstreamPool_Subscribe ::
  "'w UpstreamConnManager \<Rightarrow> string \<Rightarrow> UpstreamPool \<Rightarrow> 'w
     \<Rightarrow> (err + string) outcome \<times> UpstreamPool \<times> 'w" where
  "UpstreamPool_Subscribe uc param p w =
     (case gm_get (up_subscriptionID p) param of
        Some i \<Rightarrow> (Ret (Inr i), p, w)
      | None \<Rightarrow> (case UpstreamPool_getConnection p of
            (Panic e, p') \<Rightarrow> (Panic e, p', w)
          | (Ret conn, p') \<Rightarrow> (case uc_Subscribe uc conn param w of
                (Inl err, w') \<Rightarrow> (Ret (Inl err), p', w')
              | (Inr i, w') \<Rightarrow>
                  (Ret (Inr i),
                   p'\<lparr>up_subscriptionParam := gm_put i param (up_subscriptionParam p'),
                      up_subscriptionID := gm_put param i (up_subscriptionID p'),
                      up_subscriptionConn := gm_put i conn (up_subscriptionConn p')\<rparr>, w'))))"

definition UpstreamPool_Unsubscribe ::
  "'w UpstreamConnManager \<Rightarrow> string \<Rightarrow> UpstreamPool \<Rightarrow> 'w \<Rightarrow> err option \<times> UpstreamPool \<times> 'w" where
  "UpstreamPool_Unsubscribe uc subID p w =
     (case gm_get (up_subscriptionConn p) subID of
        None \<Rightarrow> (Some (ErrText ''connection for subscription not found''), p, w)
      | Some conn \<Rightarrow> (case uc_Unsubscribe uc conn subID w of
            (Some err, w') \<Rightarrow> (Some err, p, w')
          | (None, w') \<Rightarrow>
              (None,
               p\<lparr>up_subscriptionConn := gm_del subID (up_subscriptionConn p),
                 up_subscriptionID :=
                   gm_del (zero_string (gm_get (up_subscriptionParam p) subID)) (up_subscriptionID p),
                 up_subscriptionParam := gm_del subID (up_subscriptionParam p)\<rparr>, w')))"

section \<open>Round robin\<close>

lemma getConnection_at:
  assumes "up_connIdx p = of_nat i" and "i + 1 < 2 ^ 32" and "0 < up_conns p"
  shows "UpstreamPool_getConnection p = (Ret (i mod up_conns p), p\<lparr>up_connIdx := of_nat (i + 1)\<rparr>)"
proof -
  have n: "up_connIdx p + 1 = of_nat (i + 1)" by (simp add: assms(1))
  have "uint (of_nat (i + 1) :: 32 word) = int (i + 1)"
    using assms(2) by (simp only: uint_nat unat_of_nat) simp
  then have "go_rem (uint (of_nat (i + 1) :: 32 word) - 1) (int (up_conns p)) = int (i mod up_conns p)"
    by (simp add: go_rem_def zmod_int)
  then show ?thesis
    unfolding UpstreamPool_getConnection_def Let_def n using assms(3) by (simp only:) simp
qed

fun connections :: "nat \<Rightarrow> UpstreamPool \<Rightarrow> nat list outcome" where
  "connections 0 p = Ret []"
| "connections (Suc k) p =
     (case UpstreamPool_getConnection p of
        (Panic e, _) \<Rightarrow> Panic e
      | (Ret c, p') \<Rightarrow> bind_o (connections k p') (\<lambda>cs. Ret (c # cs)))"

lemma connections_round_robin:
  assumes "up_connIdx p = of_nat i" and "i + k < 2 ^ 32" and "0 < up_conns p"
  shows "connections k p = Ret (map (\<lambda>j. j mod up_conns p) [i..<i + k])"
  using assms
proof (induction k arbitrary: p i)
  case 0
  then show ?case by simp
next
  case (Suc k)
  let ?p = "p\<lparr>up_connIdx := of_nat (i + 1)\<rparr>"
  have "connections k ?p = Ret (map (\<lambda>j. j mod up_conns ?p) [i + 1..<i + 1 + k])"
    by (rule Suc.IH) (use Suc.prems in simp_all)
  moreover have "[i..<i + Suc k] = i # [i + 1..<i + 1 + k]"
    by (simp add: upt_conv_Cons)
  ultimately show ?case
    using getConnection_at [OF Suc.prems(1) _ Suc.prems(3)] Suc.prems(2) by simp
qed

lemma count_mod_period:
  assumes "0 < (n :: nat)" and "c < n"
  shows "length (filter (\<lambda>j. j mod n = c) [i..<i + n]) = 1"
proof -
  have "length (filter (\<lambda>j. j mod n = c) [i..<i + n]) = card {j \<in> {i..<i + n}. j mod n = c}"
    by (subst distinct_card [symmetric]) (auto simp: Int_def conj_commute)
  moreover have "\<exists>!j. j \<in> {i..<i + n} \<and> j mod n = c"
  proof (rule ex_ex1I)
    let ?j = "i + (c + (n - i mod n)) mod n"
    have "?j mod n = (i mod n + (c + (n - i mod n))) mod n" by (simp add: mod_add_eq mod_simps)
    also have "\<dots> = (c + n) mod n"
      using assms(1) mod_less_divisor [OF assms(1), of i] by (simp add: less_imp_le)
    finally have "?j mod n = c" using assms(2) by simp
    moreover have "?j \<in> {i..<i + n}" using assms(1) by simp
    ultimately show "\<exists>j. j \<in> {i..<i + n} \<and> j mod n = c" by blast
  next
    fix j k assume jk: "j \<in> {i..<i + n} \<and> j mod n = c" "k \<in> {i..<i + n} \<and> k mod n = c"
    have le: "a = b" if "a \<le> b" "a mod n = b mod n" "i \<le> a" "b < i + n" for a b
    proof -
      from that have "n dvd b - a" by (metis mod_eq_dvd_iff_nat)
      moreover have "b - a < n" using that by linarith
      ultimately have "b - a = 0" using nat_dvd_not_less by blast
      with that(1) show "a = b" by simp
    qed
    show "j = k"
    proof (cases "j \<le> k")
      case True
      with le [of j k] jk show ?thesis by simp
    next
      case False
      with le [of k j] jk show ?thesis by simp
    qed
  qed
  ultimately show ?thesis by (auto simp: card_1_singleton_iff)
qed

lemma connections_round:
  assumes "up_connIdx p = of_nat i" and "i + up_conns p < 2 ^ 32" and "0 < up_conns p"
    and "c < up_conns p"
  shows "\<exists>cs. connections (up_conns p) p = Ret cs \<and> count_list cs c = 1"
proof -
  have "connections (up_conns p) p = Ret (map (\<lambda>j. j mod up_conns p) [i..<i + up_conns p])"
    by (rule connections_round_robin [OF assms(1-3)])
  moreover have "count_list (map (\<lambda>j. j mod up_conns p) xs) c =
      length (filter (\<lambda>j. j mod up_conns p = c) xs)" for xs
    by (induction xs) auto
  ultimately show ?thesis using count_mod_period [OF assms(3,4), of i] by simp
qed

lemma getConnection_wrap:
  assumes "up_connIdx p = - 1" and "2 \<le> up_conns p"
  shows "UpstreamPool_getConnection p = (Panic ''index out of range'', p\<lparr>up_connIdx := 0\<rparr>)"
proof -
  have "go_rem (- 1) (int (up_conns p)) < 0"
    using assms(2) by (simp add: go_rem_def)
  with assms show ?thesis by (simp add: UpstreamPool_getConnection_def Let_def)
qed

section \<open>The subscriptions of the pool\<close>

definition pool_put :: "string \<Rightarrow> string \<Rightarrow> UpstreamPool \<Rightarrow> UpstreamPool" where
  "pool_put param i p = p\<lparr>up_subscriptionParam := gm_put i param (up_subscriptionParam p),
     up_subscriptionID := gm_put param i (up_subscriptionID p)\<rparr>"

definition pool_del :: "string \<Rightarrow> UpstreamPool \<Rightarrow> UpstreamPool" where
  "pool_del i p = p\<lparr>
     up_subscriptionID := gm_del (zero_string (gm_get (up_subscriptionParam p) i)) (up_subscriptionID p),
     up_subscriptionParam := gm_del i (up_subscriptionParam p)\<rparr>"

interpretation pool: two_way "\<lambda>p. gm_get (up_subscriptionID p)" "\<lambda>p. gm_get (up_subscriptionParam p)"
  pool_put pool_del
  by unfold_locales (auto simp: pool_put_def pool_del_def fun_eq_iff zero_string_def)

definition pool_inv :: "UpstreamPool \<Rightarrow> bool" where
  "pool_inv p \<longleftrightarrow> pool.paired p
     \<and> (\<forall>i. gm_has (up_subscriptionConn p) i \<longleftrightarrow> gm_has (up_subscriptionParam p) i)"

lemma pool_paired_frame:
  "pool.paired (p\<lparr>up_connIdx := n\<rparr>) = pool.paired p"
  "pool.paired (p\<lparr>up_subscriptionConn := m\<rparr>) = pool.paired p"
  unfolding pool.paired_def by simp_all

lemma pool_inv_new: "pool_inv (NewUpstreamPool n)"
  unfolding pool_inv_def pool.paired_def by (simp add: NewUpstreamPool_def)

lemma getConnection_frame:
  "UpstreamPool_getConnection p = (c, p') \<Longrightarrow> p' = p\<lparr>up_connIdx := up_connIdx p + 1\<rparr>"
  by (auto simp: UpstreamPool_getConnection_def Let_def split: if_splits)

lemma UpstreamPool_Subscribe_known:
  "gm_get (up_subscriptionID p) param = Some i \<Longrightarrow> UpstreamPool_Subscribe uc param p w = (Ret (Inr i), p, w)"
  by (simp add: UpstreamPool_Subscribe_def)

lemma UpstreamPool_Subscribe_new:
  assumes "gm_get (up_subscriptionID p) param = None"
    and "UpstreamPool_Subscribe uc param p w = (Ret (Inr i), p', w')"
  obtains conn p0 where "UpstreamPool_getConnection p = (Ret conn, p0)"
    and "uc_Subscribe uc conn param w = (Inr i, w')"
    and "p' = (pool_put param i p0)\<lparr>up_subscriptionConn := gm_put i conn (up_subscriptionConn p)\<rparr>"
proof -
  from assms obtain conn p0 where c: "UpstreamPool_getConnection p = (Ret conn, p0)"
    by (auto simp: UpstreamPool_Subscribe_def split: prod.splits outcome.splits)
  moreover have "p0 = p\<lparr>up_connIdx := up_connIdx p + 1\<rparr>" using getConnection_frame [OF c] .
  ultimately show ?thesis
    using assms that
    by (auto simp: UpstreamPool_Subscribe_def pool_put_def split: prod.splits sum.splits)
qed

lemma UpstreamPool_Subscribe_other:
  assumes "UpstreamPool_Subscribe uc param p w = (r, p', w')" and "\<nexists>i. r = Ret (Inr i)"
  shows "p' = p \<or> p' = p\<lparr>up_connIdx := up_connIdx p + 1\<rparr>"
  using assms
  by (auto simp: UpstreamPool_Subscribe_def dest!: getConnection_frame
      split: option.splits prod.splits outcome.splits sum.splits)

lemma pool_inv_subscribe:
  assumes "pool_inv p" and "gm_get (up_subscriptionID p) param = None"
    and "UpstreamPool_Subscribe uc param p w = (Ret (Inr i), p', w')"
    and "gm_get (up_subscriptionParam p) i = None"
  shows "pool_inv p' \<and> gm_get (up_subscriptionParam p') = (gm_get (up_subscriptionParam p))(i \<mapsto> param)"
proof -
  obtain conn p0 where p0: "UpstreamPool_getConnection p = (Ret conn, p0)"
    and p': "p' = (pool_put param i p0)\<lparr>up_subscriptionConn := gm_put i conn (up_subscriptionConn p)\<rparr>"
    using UpstreamPool_Subscribe_new [OF assms(2,3)] by metis
  have p0: "p0 = p\<lparr>up_connIdx := up_connIdx p + 1\<rparr>" using getConnection_frame [OF p0] .
  have "pool.paired (pool_put param i p0)"
    using assms(1,2,4) by (intro pool.paired_add) (auto simp: p0 pool_paired_frame pool_inv_def)
  then show ?thesis
    using assms(1) by (auto simp: p' p0 pool_inv_def pool_paired_frame pool_put_def)
qed

lemma UpstreamPool_Unsubscribe_ok:
  assumes "UpstreamPool_Unsubscribe uc i p w = (None, p', w')"
  shows "p' = (pool_del i p)\<lparr>up_subscriptionConn := gm_del i (up_subscriptionConn p)\<rparr>"
  using assms
  by (auto simp: UpstreamPool_Unsubscribe_def pool_del_def split: option.splits prod.splits)

lemma UpstreamPool_Unsubscribe_err:
  "UpstreamPool_Unsubscribe uc i p w = (Some e, p', w') \<Longrightarrow> p' = p"
  by (auto simp: UpstreamPool_Unsubscribe_def split: option.splits prod.splits)

lemma pool_inv_unsubscribe:
  assumes "pool_inv p" and "UpstreamPool_Unsubscribe uc i p w = (None, p', w')"
  shows "pool_inv p' \<and> gm_get (up_subscriptionParam p') = (gm_get (up_subscriptionParam p))(i := None)"
proof -
  have "gm_has (up_subscriptionConn p) i"
    using assms(2) by (auto simp: UpstreamPool_Unsubscribe_def split: option.splits)
  with assms(1) obtain param where "gm_get (up_subscriptionParam p) i = Some param"
    by (auto simp: pool_inv_def)
  then have "pool.paired (pool_del i p)"
    using assms(1) by (intro pool.paired_remove) (auto simp: pool_inv_def)
  then show ?thesis
    using assms(1) UpstreamPool_Unsubscribe_ok [OF assms(2)]
    by (auto simp: pool_inv_def pool_paired_frame pool_del_def)
qed

end
