(* ===== verification/Broker.thy ===== *)
theory Broker
  imports UpstreamPool
begin

text \<open>
  \<open>src/pkg/cosmoguard/ws_broker.go\<close>: the broker maps the subscriptions of all clients to one
  upstream subscription per parameter.  A client is an element of the type \<open>'cl\<close>, standing for
  the pointer.  Each method is one step; the clients \<open>bk_callbacks\<close> are those that call
  \<open>onClientDisconnect\<close> when they close.
\<close>

section \<open>State and operations\<close>

record 'cl Broker =
  bk_pool :: UpstreamPool
  bk_sm :: "'cl SubscriptionManager"
  bk_callbacks :: "'cl list"

definition NewBroker :: "nat \<Rightarrow> 'cl Broker" where
  "NewBroker n = \<lparr>bk_pool = NewUpstreamPool n, bk_sm = NewSubscriptionManager, bk_callbacks = []\<rparr>"

definition Broker_HandleRequest ::
  "'w UpstreamConnManager \<Rightarrow> JsonRpcMsg \<Rightarrow> 'cl Broker \<Rightarrow> 'w
     \<Rightarrow> (err + JsonRpcMsg) outcome \<times> 'cl Broker \<times> 'w" where
  "Broker_HandleRequest uc msg b w =
     (case UpstreamPool_MakeRequest uc msg (bk_pool b) w of
        (Panic e, p, w') \<Rightarrow> (Panic e, b\<lparr>bk_pool := p\<rparr>, w')
      | (Ret (Inl err), p, w') \<Rightarrow> (Ret (Inl err), b\<lparr>bk_pool := p\<rparr>, w')
      | (Ret (Inr res), p, w') \<Rightarrow>
          (Ret (Inr (JsonRpcMsg_CloneWithID (jm_ID msg) res)), b\<lparr>bk_pool := p\<rparr>, w'))"

definition subscribe_client ::
  "string \<Rightarrow> 'cl \<Rightarrow> JsonRpcMsg \<Rightarrow> 'cl Broker \<Rightarrow> (err + string) outcome \<times> 'cl Broker" where
  "subscribe_client i client msg b =
     (let clientSubID = (if jm_Method msg = methodSubscribeEth then GNil else jm_ID msg)
      in case SubscriptionManager_SubscribeClient i client clientSubID (bk_sm b) of
           Panic e \<Rightarrow> (Panic e, b)
         | Ret sm \<Rightarrow> (Ret (Inr i), b\<lparr>bk_sm := sm\<rparr>))"

definition Broker_addSubscription ::
  "'w UpstreamConnManager \<Rightarrow> 'cl \<Rightarrow> JsonRpcMsg \<Rightarrow> 'cl Broker \<Rightarrow> 'w
     \<Rightarrow> (err + string) outcome \<times> 'cl Broker \<times> 'w" where
  "Broker_addSubscription uc client msg b w =
     (case getSubscriptionParam msg of
        Panic e \<Rightarrow> (Panic e, b, w)
      | Ret (Inl err) \<Rightarrow> (Ret (Inl err), b, w)
      | Ret (Inr param) \<Rightarrow>
          (case SubscriptionManager_GetSubscriptionID param (bk_sm b) of
             Some i \<Rightarrow> (case subscribe_client i client msg b of (r, b') \<Rightarrow> (r, b', w))
           | None \<Rightarrow>
               (case UpstreamPool_Subscribe uc param (bk_pool b) w of
                  (Panic e, p, w') \<Rightarrow> (Panic e, b\<lparr>bk_pool := p\<rparr>, w')
                | (Ret (Inl err), p, w') \<Rightarrow> (Ret (Inl err), b\<lparr>bk_pool := p\<rparr>, w')
                | (Ret (Inr i), p, w') \<Rightarrow>
                    (let b1 = b\<lparr>bk_pool := p,
                       bk_sm := SubscriptionManager_AddSubscription param i (bk_sm b)\<rparr>
                     in case subscribe_client i client msg b1 of (r, b') \<Rightarrow> (r, b', w')))))"

text \<open>When the client was the last one, the upstream subscription goes too.\<close>

definition drop_if_empty ::
  "'w UpstreamConnManager \<Rightarrow> string \<Rightarrow> 'cl Broker \<Rightarrow> 'w \<Rightarrow> err option \<times> 'cl Broker \<times> 'w" where
  "drop_if_empty uc subID b w =
     (if SubscriptionManager_SubscriptionEmpty subID (bk_sm b) then
        (case UpstreamPool_Unsubscribe uc subID (bk_pool b) w of
           (Some err, p, w') \<Rightarrow> (Some err, b\<lparr>bk_pool := p\<rparr>, w')
         | (None, p, w') \<Rightarrow> (None, b\<lparr>bk_pool := p,
              bk_sm := SubscriptionManager_RemoveSubscription subID (bk_sm b)\<rparr>, w'))
      else (None, b, w))"

definition Broker_removeSubscription ::
  "'w UpstreamConnManager \<Rightarrow> 'cl \<Rightarrow> JsonRpcMsg \<Rightarrow> 'cl Broker \<Rightarrow> 'w
     \<Rightarrow> err option outcome \<times> 'cl Broker \<times> 'w" where
  "Broker_removeSubscription uc client msg b w =
     (let missing = (Ret (Some (ErrText ''subscription does not exist'')), b, w);
          remove = (\<lambda>subID.
            if \<not> SubscriptionManager_ClientSubscribed subID client (bk_sm b) then missing
            else (case drop_if_empty uc subID
                  (b\<lparr>bk_sm := SubscriptionManager_UnsubscribeClient subID client (bk_sm b)\<rparr>) w of
                (e, b', w') \<Rightarrow> (Ret e, b', w')))
      in case getSubscriptionParam msg of
           Panic e \<Rightarrow> (Panic e, b, w)
         | Ret (Inl err) \<Rightarrow> (Ret (Some err), b, w)
         | Ret (Inr subParam) \<Rightarrow>
             if isEthSubscriptionID subParam then remove subParam
             else (case SubscriptionManager_GetSubscriptionID subParam (bk_sm b) of
                 None \<Rightarrow> missing
               | Some i \<Rightarrow> remove i))"

fun remove_each ::
  "'w UpstreamConnManager \<Rightarrow> 'cl \<Rightarrow> string list \<Rightarrow> 'cl Broker \<Rightarrow> 'w
     \<Rightarrow> err option \<times> 'cl Broker \<times> 'w" where
  "remove_each uc client [] b w = (None, b, w)"
| "remove_each uc client (i # is) b w =
     (case drop_if_empty uc i
         (b\<lparr>bk_sm := SubscriptionManager_UnsubscribeClient i client (bk_sm b)\<rparr>) w of
        (Some err, b', w') \<Rightarrow> (Some err, b', w')
      | (None, b', w') \<Rightarrow> remove_each uc client is b' w')"

definition Broker_removeAllSubscriptions ::
  "'w UpstreamConnManager \<Rightarrow> 'cl \<Rightarrow> 'cl Broker \<Rightarrow> 'w \<Rightarrow> err option \<times> 'cl Broker \<times> 'w" where
  "Broker_removeAllSubscriptions uc client b w =
     remove_each uc client (SubscriptionManager_GetSubscriptions client (bk_sm b)) b w"

definition Broker_HandleSubscription ::
  "'w UpstreamConnManager \<Rightarrow> 'cl \<Rightarrow> JsonRpcMsg \<Rightarrow> 'cl Broker \<Rightarrow> 'w
     \<Rightarrow> (err + JsonRpcMsg) outcome \<times> 'cl Broker \<times> 'w" where
  "Broker_HandleSubscription uc client msg b0 w =
     (let b = b0\<lparr>bk_callbacks := List.insert client (bk_callbacks b0)\<rparr>;
          failed = (\<lambda>err. Ret (Inr (ErrorResponse msg (- 100)
            (case err of ErrText s \<Rightarrow> s | ErrSubscriptionExists \<Rightarrow> ''subscription already exists''
             | ErrNotFound \<Rightarrow> ''not found'' | ErrClosed \<Rightarrow> ''websocket client closed'') GNil)));
          adding = (\<lambda>answer. case Broker_addSubscription uc client msg b w of
              (Panic e, b', w') \<Rightarrow> (Panic e, b', w')
            | (Ret (Inl err), b', w') \<Rightarrow> (failed err, b', w')
            | (Ret (Inr i), b', w') \<Rightarrow> (Ret (Inr (answer i)), b', w'));
          removing = (\<lambda>answer. case Broker_removeSubscription uc client msg b w of
              (Panic e, b', w') \<Rightarrow> (Panic e, b', w')
            | (Ret (Some err), b', w') \<Rightarrow> (failed err, b', w')
            | (Ret None, b', w') \<Rightarrow> (Ret (Inr answer), b', w'))
      in if jm_Method msg = methodSubscribeCosmos then adding (\<lambda>_. EmptyResult msg)
         else if jm_Method msg = methodUnsubscribeCosmos then removing (EmptyResult msg)
         else if jm_Method msg = methodUnsubscribeAllCosmos then
           (case Broker_removeAllSubscriptions uc client b w of
              (Some err, b', w') \<Rightarrow> (Ret (Inl err), b', w')
            | (None, b', w') \<Rightarrow> (Ret (Inr (EmptyResult msg)), b', w'))
         else if jm_Method msg = methodSubscribeEth then adding (\<lambda>i. WithResult msg (GStr i))
         else if jm_Method msg = methodUnsubscribeEth then removing (WithResult msg (GBool True))
         else (Ret (Inl (ErrText ''unsupported method on subscriptions'')), b, w))"

text \<open>
  The messages sent for one notification: one for each client, in the order of the map.  An id
  that is no string panics.
\<close>

definition Broker_onSubscriptionMessage ::
  "JsonRpcMsg \<Rightarrow> 'cl Broker \<Rightarrow> ('cl \<times> JsonRpcMsg) list outcome" where
  "Broker_onSubscriptionMessage msg b =
     (case jm_ID msg of
        GStr msgID \<Rightarrow> Ret (map (\<lambda>(client, i). (client, JsonRpcMsg_CloneWithID i msg))
          (SubscriptionManager_GetSubscriptionClients msgID (bk_sm b)))
      | _ \<Rightarrow> Panic ''interface conversion'')"

definition Broker_onClientDisconnect ::
  "'w UpstreamConnManager \<Rightarrow> 'cl \<Rightarrow> 'cl Broker \<Rightarrow> 'w \<Rightarrow> 'cl Broker \<times> 'w" where
  "Broker_onClientDisconnect uc client b w =
     (case Broker_removeAllSubscriptions uc client b w of (_, b', w') \<Rightarrow> (b', w'))"

section \<open>The invariant\<close>

text \<open>The manager and the pool know the same subscriptions.\<close>

definition broker_inv :: "'cl Broker \<Rightarrow> bool" where
  "broker_inv b \<longleftrightarrow> sm_inv (bk_sm b) \<and> pool_inv (bk_pool b)
     \<and> (\<forall>i. SubscriptionManager_GetSubscriptionParam i (bk_sm b) = gm_get (up_subscriptionParam (bk_pool b)) i)"

text \<open>
  What the broker needs of the upstream: the id of a new subscription is not the id of one the
  pool still has.
\<close>

definition fresh_ids :: "'w UpstreamConnManager \<Rightarrow> UpstreamPool \<Rightarrow> 'w \<Rightarrow> bool" where
  "fresh_ids uc p w \<longleftrightarrow> (\<forall>conn param i w'. uc_Subscribe uc conn param w = (Inr i, w') \<longrightarrow>
     gm_get (up_subscriptionParam p) i = None)"

lemma broker_ids_agree:
  assumes "broker_inv b"
  shows "SubscriptionManager_GetSubscriptionID p (bk_sm b) = gm_get (up_subscriptionID (bk_pool b)) p"
proof -
  have "SubscriptionManager_GetSubscriptionID p (bk_sm b) = Some i
      \<longleftrightarrow> gm_get (up_subscriptionID (bk_pool b)) p = Some i" for i
    using subs.pairedD [of "bk_sm b" p i] pool.pairedD [of "bk_pool b" p i] assms
    by (auto simp: broker_inv_def sm_inv_def pool_inv_def)
  then show ?thesis by (metis not_Some_eq)
qed

lemma broker_inv_new: "broker_inv (NewBroker n)"
  by (simp add: broker_inv_def NewBroker_def sm_inv_new pool_inv_new)
    (simp add: NewSubscriptionManager_def NewUpstreamPool_def SubscriptionManager_GetSubscriptionParam_def)

lemma GetSubscriptionParam_clients:
  "SubscriptionManager_GetSubscriptionParam j (SubscriptionManager_UnsubscribeClient i c s)
     = SubscriptionManager_GetSubscriptionParam j s"
  "SubscriptionManager_SubscribeClient i c x s = Ret s' \<Longrightarrow>
     SubscriptionManager_GetSubscriptionParam j s' = SubscriptionManager_GetSubscriptionParam j s"
  by (auto simp: SubscriptionManager_GetSubscriptionParam_def SubscriptionManager_UnsubscribeClient_def
      SubscriptionManager_SubscribeClient_def split: option.splits)

lemma GetSubscriptionParam_remove:
  "SubscriptionManager_GetSubscriptionParam j (SubscriptionManager_RemoveSubscription i s) =
     (if j = i then None else SubscriptionManager_GetSubscriptionParam j s)"
  using fun_cong [OF subs.param_of_remove [of i s], of j] by simp

lemma GetSubscriptionParam_add:
  "SubscriptionManager_GetSubscriptionParam j (SubscriptionManager_AddSubscription p i s) =
     (if j = i then Some p else SubscriptionManager_GetSubscriptionParam j s)"
  using fun_cong [OF subs.param_of_add [of p i s], of j] by simp

lemma broker_inv_unsubscribe_client:
  "broker_inv b \<Longrightarrow> broker_inv (b\<lparr>bk_sm := SubscriptionManager_UnsubscribeClient i c (bk_sm b)\<rparr>)"
  by (simp add: broker_inv_def sm_inv_unsubscribe GetSubscriptionParam_clients)

lemma pool_inv_connIdx: "pool_inv (p\<lparr>up_connIdx := n\<rparr>) = pool_inv p"
  by (simp add: pool_inv_def pool_paired_frame)

lemma broker_inv_drop:
  assumes inv: "broker_inv b" and run: "drop_if_empty uc i b w = (e, b', w')"
  shows "broker_inv b'"
proof (cases "SubscriptionManager_SubscriptionEmpty i (bk_sm b)")
  case False
  with assms show ?thesis by (simp add: drop_if_empty_def)
next
  case True
  obtain e1 p w1 where un: "UpstreamPool_Unsubscribe uc i (bk_pool b) w = (e1, p, w1)" by (metis surj_pair)
  show ?thesis
  proof (cases e1)
    case (Some err)
    with un UpstreamPool_Unsubscribe_err [of uc i "bk_pool b" w err p w1] True run inv
    show ?thesis by (auto simp: drop_if_empty_def)
  next
    case None
    with un have un: "UpstreamPool_Unsubscribe uc i (bk_pool b) w = (None, p, w1)" by simp
    have p: "pool_inv p" "gm_get (up_subscriptionParam p) = (gm_get (up_subscriptionParam (bk_pool b)))(i := None)"
      using pool_inv_unsubscribe [OF _ un] inv by (simp_all add: broker_inv_def)
    have "gm_has (up_subscriptionConn (bk_pool b)) i"
      using un by (auto simp: UpstreamPool_Unsubscribe_def split: option.splits)
    with inv obtain param where "SubscriptionManager_GetSubscriptionParam i (bk_sm b) = Some param"
      by (auto simp: broker_inv_def pool_inv_def)
    with inv have "sm_inv (SubscriptionManager_RemoveSubscription i (bk_sm b))"
      by (auto simp: broker_inv_def intro: sm_inv_remove)
    with True un run p inv show ?thesis
      by (auto simp: drop_if_empty_def broker_inv_def GetSubscriptionParam_remove)
  qed
qed

lemma broker_inv_subscribe_client:
  assumes "broker_inv b" and "subscribe_client i c msg b = (r, b')"
  shows "broker_inv b'"
  using assms
  by (auto simp: subscribe_client_def broker_inv_def Let_def GetSubscriptionParam_clients
      intro: sm_inv_subscribe split: outcome.splits)

lemma subscribe_client_returns:
  assumes "broker_inv b" and "SubscriptionManager_GetSubscriptionParam i (bk_sm b) = Some p"
    and "subscribe_client i c msg b = (r, b')"
  shows "r = Ret (Inr i)"
proof -
  have "returns (SubscriptionManager_SubscribeClient i c x (bk_sm b))" for x
    using assms(1,2) by (intro subscribe_returns)
      (auto simp: broker_inv_def SubscriptionManager_GetSubscriptionParam_def)
  with assms(3) show ?thesis
    by (auto simp: subscribe_client_def Let_def split: outcome.splits) (metis returns.simps(2))+
qed

lemma broker_inv_add:
  assumes inv: "broker_inv b" and fresh: "fresh_ids uc (bk_pool b) w"
    and run: "Broker_addSubscription uc c msg b w = (r, b', w')"
  shows "broker_inv b'"
proof (cases "\<exists>param. getSubscriptionParam msg = Ret (Inr param)")
  case False
  with run inv show ?thesis
    by (auto simp: Broker_addSubscription_def split: outcome.splits sum.splits)
next
  case True
  then obtain param where param: "getSubscriptionParam msg = Ret (Inr param)" by blast
  show ?thesis
  proof (cases "SubscriptionManager_GetSubscriptionID param (bk_sm b)")
    case (Some i)
    obtain r1 b1 where "subscribe_client i c msg b = (r1, b1)" by fastforce
    with broker_inv_subscribe_client [OF inv this] run param Some show ?thesis
      by (auto simp: Broker_addSubscription_def)
  next
    case None
    obtain r1 p w1 where sub: "UpstreamPool_Subscribe uc param (bk_pool b) w = (r1, p, w1)" by (metis surj_pair)
    have none: "gm_get (up_subscriptionID (bk_pool b)) param = None"
      using None broker_ids_agree [OF inv] by simp
    show ?thesis
    proof (cases "\<exists>i. r1 = Ret (Inr i)")
      case False
      from UpstreamPool_Subscribe_other [OF sub False] inv
      have "broker_inv (b\<lparr>bk_pool := p\<rparr>)" by (auto simp: broker_inv_def pool_inv_connIdx)
      with run param None sub False show ?thesis
        by (auto simp: Broker_addSubscription_def split: outcome.splits sum.splits)
    next
      case True
      then obtain i where i: "r1 = Ret (Inr i)" by blast
      note sub = sub [unfolded i]
      have "gm_get (up_subscriptionParam (bk_pool b)) i = None"
        using UpstreamPool_Subscribe_new [OF none sub] fresh unfolding fresh_ids_def by metis
      note new = this
      let ?b = "b\<lparr>bk_pool := p, bk_sm := SubscriptionManager_AddSubscription param i (bk_sm b)\<rparr>"
      have "broker_inv ?b"
        using inv pool_inv_subscribe [OF _ none sub new] new None
        by (auto simp: broker_inv_def GetSubscriptionParam_add intro: sm_inv_add)
      moreover obtain r2 b2 where "subscribe_client i c msg ?b = (r2, b2)" by fastforce
      ultimately show ?thesis
        using broker_inv_subscribe_client [of ?b i c msg r2 b2] run param None sub
        by (auto simp: Broker_addSubscription_def Let_def)
    qed
  qed
qed

lemma broker_inv_remove_each:
  "broker_inv b \<Longrightarrow> remove_each uc c is b w = (e, b', w') \<Longrightarrow> broker_inv b'"
proof (induction "is" arbitrary: b w)
  case Nil
  then show ?case by simp
next
  case (Cons i "is")
  let ?b = "b\<lparr>bk_sm := SubscriptionManager_UnsubscribeClient i c (bk_sm b)\<rparr>"
  obtain e1 b1 w1 where drop: "drop_if_empty uc i ?b w = (e1, b1, w1)" by (metis surj_pair)
  have "broker_inv b1"
    by (rule broker_inv_drop [OF broker_inv_unsubscribe_client [OF Cons.prems(1)] drop])
  with Cons.IH [of b1 w1] Cons.prems(2) drop show ?case by (cases e1) auto
qed

lemma broker_inv_remove:
  assumes inv: "broker_inv b" and run: "Broker_removeSubscription uc c msg b w = (r, b', w')"
  shows "broker_inv b'"
proof -
  have drop: "broker_inv b1"
    if "drop_if_empty uc i (b\<lparr>bk_sm := SubscriptionManager_UnsubscribeClient i c (bk_sm b)\<rparr>) w = (e, b1, w1)"
    for i e b1 w1
    by (rule broker_inv_drop [OF broker_inv_unsubscribe_client [OF inv] that])
  then show ?thesis
    using run inv
    by (auto simp: Broker_removeSubscription_def Let_def
        split: outcome.splits sum.splits if_splits option.splits prod.splits)
qed

lemma broker_inv_callbacks [simp]: "broker_inv (b\<lparr>bk_callbacks := l\<rparr>) = broker_inv b"
  by (simp add: broker_inv_def)

lemma broker_inv_handle:
  assumes inv: "broker_inv b" and fresh: "fresh_ids uc (bk_pool b) w"
    and run: "Broker_HandleSubscription uc c msg b w = (r, b', w')"
  shows "broker_inv b'"
proof -
  let ?b = "b\<lparr>bk_callbacks := List.insert c (bk_callbacks b)\<rparr>"
  have b: "broker_inv ?b" "fresh_ids uc (bk_pool ?b) w" using inv fresh by simp_all
  obtain r1 b1 w1 where add: "Broker_addSubscription uc c msg ?b w = (r1, b1, w1)" by (metis surj_pair)
  obtain r2 b2 w2 where rem: "Broker_removeSubscription uc c msg ?b w = (r2, b2, w2)" by (metis surj_pair)
  obtain r3 b3 w3 where all: "Broker_removeAllSubscriptions uc c ?b w = (r3, b3, w3)" by (metis surj_pair)
  have "broker_inv b1" "broker_inv b2" "broker_inv b3"
    using broker_inv_add [OF b add] broker_inv_remove [OF b(1) rem]
      broker_inv_remove_each [OF b(1) all [unfolded Broker_removeAllSubscriptions_def]] by simp_all
  moreover have "b' = b1 \<or> b' = b2 \<or> b' = b3 \<or> b' = ?b"
    using run unfolding Broker_HandleSubscription_def Let_def add rem all
    by (auto split: if_splits outcome.splits sum.splits option.splits)
  ultimately show ?thesis using b(1) by auto
qed

section \<open>Who gets a notification\<close>

lemma broker_delivery:
  "jm_ID msg = GStr i \<Longrightarrow> Broker_onSubscriptionMessage msg b =
     Ret (map (\<lambda>(client, x). (client, JsonRpcMsg_CloneWithID x msg)) (clients_of (bk_sm b) i))"
  by (simp add: Broker_onSubscriptionMessage_def SubscriptionManager_GetSubscriptionClients_def)

lemma clients_wf: "broker_inv b \<Longrightarrow> gm_wf (clients_of (bk_sm b) i)"
  by (auto simp: broker_inv_def sm_inv_def clients_of_def split: option.split)

end
