(* ===== verification/BrokerSpec.thy ===== *)
theory BrokerSpec
  imports Broker
begin

text \<open>
  What the broker promises its clients: in every reachable state its maps agree, a subscriber
  gets the notifications of its subscription under its own id, and a client that has left gets
  none.
\<close>

section \<open>Reachable states\<close>

text \<open>
  The steps of the broker with the world of the upstream connections, which changes on its own
  too.  Methods of different clients come in any order.
\<close>

inductive broker_step ::
  "'w UpstreamConnManager \<Rightarrow> 'cl Broker \<times> 'w \<Rightarrow> 'cl Broker \<times> 'w \<Rightarrow> bool" for uc where
  subscription: "fresh_ids uc (bk_pool b) w \<Longrightarrow>
     Broker_HandleSubscription uc client msg b w = (r, b', w') \<Longrightarrow> broker_step uc (b, w) (b', w')"
| request: "Broker_HandleRequest uc msg b w = (r, b', w') \<Longrightarrow> broker_step uc (b, w) (b', w')"
| disconnect: "Broker_onClientDisconnect uc client b w = (b', w') \<Longrightarrow> broker_step uc (b, w) (b', w')"
| upstream: "broker_step uc (b, w) (b, w')"

inductive broker_reach :: "'w UpstreamConnManager \<Rightarrow> nat \<Rightarrow> 'cl Broker \<times> 'w \<Rightarrow> bool" for uc n where
  start: "broker_reach uc n (NewBroker n, w)"
| step: "broker_reach uc n s \<Longrightarrow> broker_step uc s s' \<Longrightarrow> broker_reach uc n s'"

lemma broker_inv_request:
  assumes "broker_inv b" and "Broker_HandleRequest uc msg b w = (r, b', w')"
  shows "broker_inv b'"
proof -
  obtain c p where conn: "UpstreamPool_getConnection (bk_pool b) = (c, p)" by fastforce
  then have p: "p = (bk_pool b)\<lparr>up_connIdx := up_connIdx (bk_pool b) + 1\<rparr>" by (rule getConnection_frame)
  have "b' = b\<lparr>bk_pool := p\<rparr>"
    using assms(2) conn
    by (auto simp: Broker_HandleRequest_def UpstreamPool_MakeRequest_def
        split: outcome.splits sum.splits prod.splits)
  with assms(1) show ?thesis by (simp add: broker_inv_def p pool_inv_connIdx)
qed

lemma broker_inv_disconnect:
  assumes "broker_inv b" and "Broker_onClientDisconnect uc c b w = (b', w')"
  shows "broker_inv b'"
  using assms broker_inv_remove_each [OF assms(1)]
  by (auto simp: Broker_onClientDisconnect_def Broker_removeAllSubscriptions_def split: prod.splits)

lemma broker_inv_step: "broker_step uc s s' \<Longrightarrow> broker_inv (fst s) \<Longrightarrow> broker_inv (fst s')"
  by (induction rule: broker_step.induct)
    (auto intro: broker_inv_handle broker_inv_request broker_inv_disconnect)

lemma broker_inv_reach: "broker_reach uc n s \<Longrightarrow> broker_inv (fst s)"
  by (induction rule: broker_reach.induct) (auto intro: broker_inv_new broker_inv_step)

section \<open>Subscribing\<close>

lemma clients_of_unknown:
  assumes "sm_inv s" and "SubscriptionManager_GetSubscriptionParam i s = None"
  shows "clients_of s i = []"
proof -
  have "\<not> gm_has (sm_clientSubscriptions s) i"
    using assms by (simp add: sm_inv_def SubscriptionManager_GetSubscriptionParam_def)
  then show ?thesis by (simp add: clients_of_def)
qed

lemma subscribe_client_clients:
  assumes "subscribe_client i c msg b = (Ret r, b')"
  shows "clients_of (bk_sm b') j = (if j = i
      then gm_put c (if jm_Method msg = methodSubscribeEth then GNil else jm_ID msg) (clients_of (bk_sm b) i)
      else clients_of (bk_sm b) j)"
    and "SubscriptionManager_GetSubscriptionID p (bk_sm b') = SubscriptionManager_GetSubscriptionID p (bk_sm b)"
proof -
  from assms obtain sm where sm: "SubscriptionManager_SubscribeClient i c
      (if jm_Method msg = methodSubscribeEth then GNil else jm_ID msg) (bk_sm b) = Ret sm"
    and b': "b' = b\<lparr>bk_sm := sm\<rparr>"
    by (auto simp: subscribe_client_def Let_def split: outcome.splits)
  show "clients_of (bk_sm b') j = (if j = i
      then gm_put c (if jm_Method msg = methodSubscribeEth then GNil else jm_ID msg) (clients_of (bk_sm b) i)
      else clients_of (bk_sm b) j)"
    using clients_of_subscribe [OF sm] by (simp add: b')
  show "SubscriptionManager_GetSubscriptionID p (bk_sm b') = SubscriptionManager_GetSubscriptionID p (bk_sm b)"
    using sm by (auto simp: b' SubscriptionManager_SubscribeClient_def
        SubscriptionManager_GetSubscriptionID_def split: option.splits)
qed

text \<open>
  After \<open>addSubscription\<close> returned an id, that is the id of the parameter, the client is among
  its clients, and no other client's subscription has changed.
\<close>

lemma addSubscription_clients:
  assumes inv: "broker_inv b" and fresh: "fresh_ids uc (bk_pool b) w"
    and param: "getSubscriptionParam msg = Ret (Inr param)"
    and run: "Broker_addSubscription uc c msg b w = (Ret (Inr i), b', w')"
  shows "SubscriptionManager_GetSubscriptionID param (bk_sm b') = Some i"
    and "clients_of (bk_sm b') j = (if j = i
      then gm_put c (if jm_Method msg = methodSubscribeEth then GNil else jm_ID msg) (clients_of (bk_sm b) i)
      else clients_of (bk_sm b) j)"
proof -
  have "SubscriptionManager_GetSubscriptionID param (bk_sm b') = Some i
     \<and> clients_of (bk_sm b') j = (if j = i
      then gm_put c (if jm_Method msg = methodSubscribeEth then GNil else jm_ID msg) (clients_of (bk_sm b) i)
      else clients_of (bk_sm b) j)"
  proof (cases "SubscriptionManager_GetSubscriptionID param (bk_sm b)")
    case (Some k)
    with run param have "subscribe_client k c msg b = (Ret (Inr i), b')"
      by (auto simp: Broker_addSubscription_def split: prod.splits)
    moreover from this have "k = i" by (auto simp: subscribe_client_def Let_def split: outcome.splits)
    ultimately show ?thesis using subscribe_client_clients [of i c msg b] Some by simp
  next
    case None
    with run param obtain k p w1 where sub: "UpstreamPool_Subscribe uc param (bk_pool b) w = (Ret (Inr k), p, w1)"
      and cl: "subscribe_client k c msg (b\<lparr>bk_pool := p,
          bk_sm := SubscriptionManager_AddSubscription param k (bk_sm b)\<rparr>) = (Ret (Inr i), b')"
      by (auto simp: Broker_addSubscription_def Let_def split: outcome.splits sum.splits prod.splits)
    have "k = i" using cl by (auto simp: subscribe_client_def Let_def split: outcome.splits)
    have "gm_get (up_subscriptionID (bk_pool b)) param = None"
      using None broker_ids_agree [OF inv] by simp
    then have "gm_get (up_subscriptionParam (bk_pool b)) k = None"
      using UpstreamPool_Subscribe_new [OF _ sub] fresh unfolding fresh_ids_def by metis
    then have "clients_of (bk_sm b) k = []"
      using inv by (intro clients_of_unknown) (simp_all add: broker_inv_def)
    with subscribe_client_clients [OF cl] \<open>k = i\<close> show ?thesis
      using fun_cong [OF subs.id_of_add [of param i "bk_sm b"], of param]
      by (simp add: clients_of_simps)
  qed
  then show "SubscriptionManager_GetSubscriptionID param (bk_sm b') = Some i"
    and "clients_of (bk_sm b') j = (if j = i
      then gm_put c (if jm_Method msg = methodSubscribeEth then GNil else jm_ID msg) (clients_of (bk_sm b) i)
      else clients_of (bk_sm b) j)" by simp_all
qed

section \<open>Leaving\<close>

lemma drop_if_empty_clients:
  assumes "drop_if_empty uc i b w = (e, b', w')"
  shows "clients_of (bk_sm b') j = clients_of (bk_sm b) j"
  using assms
  by (auto simp: drop_if_empty_def clients_of_simps SubscriptionManager_SubscriptionEmpty_def
      split: if_splits prod.splits option.splits)

lemma del_twice: "gm_del c (gm_del c l) = gm_del c l"
  by (simp add: delete_idem)

text \<open>
  Without an error the client is taken off every subscription of the list; an error stops the loop
  and leaves it on those behind the one that failed.
\<close>

lemma remove_each_clients:
  "remove_each uc c is b w = (None, b', w') \<Longrightarrow> clients_of (bk_sm b') j =
     (if j \<in> set is then gm_del c (clients_of (bk_sm b) j) else clients_of (bk_sm b) j)"
proof (induction "is" arbitrary: b w)
  case Nil
  then show ?case by simp
next
  case (Cons i "is")
  let ?b = "b\<lparr>bk_sm := SubscriptionManager_UnsubscribeClient i c (bk_sm b)\<rparr>"
  obtain e1 b1 w1 where drop: "drop_if_empty uc i ?b w = (e1, b1, w1)" by (metis surj_pair)
  with Cons.prems have "e1 = None" by (cases e1) simp_all
  with Cons.IH [of b1 w1] Cons.prems drop drop_if_empty_clients [OF drop, of j]
  show ?case by (auto simp: clients_of_simps del_twice)
qed

lemma remove_each_stops:
  assumes "remove_each uc c is b w = (Some e, b', w')"
  shows "\<exists>xs i ys. is = xs @ i # ys \<and> (\<forall>j. clients_of (bk_sm b') j =
     (if j \<in> set (xs @ [i]) then gm_del c (clients_of (bk_sm b) j) else clients_of (bk_sm b) j))"
  using assms
proof (induction "is" arbitrary: b w)
  case Nil
  then show ?case by simp
next
  case (Cons i "is")
  let ?b = "b\<lparr>bk_sm := SubscriptionManager_UnsubscribeClient i c (bk_sm b)\<rparr>"
  obtain e1 b1 w1 where drop: "drop_if_empty uc i ?b w = (e1, b1, w1)" by (metis surj_pair)
  have here: "clients_of (bk_sm b1) j = (if j = i then gm_del c (clients_of (bk_sm b) j) else clients_of (bk_sm b) j)" for j
    using drop_if_empty_clients [OF drop, of j] by (simp add: clients_of_simps)
  show ?case
  proof (cases e1)
    case (Some e2)
    with Cons.prems drop have "b' = b1" by simp
    then show ?thesis using here
      by (rule_tac exI [of _ "[]"], rule_tac exI [of _ i], rule_tac exI [of _ "is"]) simp
  next
    case None
    with Cons.prems drop have "remove_each uc c is b1 w1 = (Some e, b', w')" by simp
    from Cons.IH [OF this] obtain xs k ys where "is = xs @ k # ys"
      "\<forall>j. clients_of (bk_sm b') j =
        (if j \<in> set (xs @ [k]) then gm_del c (clients_of (bk_sm b1) j) else clients_of (bk_sm b1) j)"
      by blast
    then show ?thesis
      using here
      by (rule_tac exI [of _ "i # xs"], rule_tac exI [of _ k], rule_tac exI [of _ ys]) (auto simp: del_twice)
  qed
qed

lemma disconnect_clients:
  assumes inv: "broker_inv b"
    and run: "Broker_removeAllSubscriptions uc c b w = (None, b', w')"
  shows "clients_of (bk_sm b') j = gm_del c (clients_of (bk_sm b) j)"
proof -
  let ?is = "SubscriptionManager_GetSubscriptions c (bk_sm b)"
  have sm: "sm_inv (bk_sm b)" using inv by (simp add: broker_inv_def)
  have "clients_of (bk_sm b') j =
      (if j \<in> set ?is then gm_del c (clients_of (bk_sm b) j) else clients_of (bk_sm b) j)"
    using run unfolding Broker_removeAllSubscriptions_def by (rule remove_each_clients)
  moreover have "gm_del c (clients_of (bk_sm b) j) = clients_of (bk_sm b) j" if "j \<notin> set ?is"
    using that by (auto simp: GetSubscriptions_iff [OF sm] SubscriptionManager_ClientSubscribed_def
        intro!: delete_idem simp: dom_map_of_conv_image_fst [symmetric] domIff)
  ultimately show ?thesis by simp
qed

lemma delivery_iff:
  assumes "broker_inv b" and "jm_ID msg = GStr i"
  shows "\<exists>l. Broker_onSubscriptionMessage msg b = Ret l \<and> distinct (map fst l)
     \<and> (\<forall>c m. (c, m) \<in> set l \<longleftrightarrow>
          (\<exists>x. gm_get (clients_of (bk_sm b) i) c = Some x \<and> m = JsonRpcMsg_CloneWithID x msg))"
proof (intro exI conjI allI)
  let ?l = "map (\<lambda>(client, x). (client, JsonRpcMsg_CloneWithID x msg)) (clients_of (bk_sm b) i)"
  note wf = clients_wf [OF assms(1), of i]
  show "Broker_onSubscriptionMessage msg b = Ret ?l" by (rule broker_delivery [OF assms(2)])
  show "distinct (map fst ?l)" using wf by (simp add: comp_def case_prod_unfold)
  show "(c, m) \<in> set ?l \<longleftrightarrow>
      (\<exists>x. gm_get (clients_of (bk_sm b) i) c = Some x \<and> m = JsonRpcMsg_CloneWithID x msg)" for c m
    unfolding gm_in_get [OF wf, symmetric] by auto
qed

end
