(* ===== verification/Upstream.thy ===== *)
theory Upstream
  imports Broker
begin

text \<open>
  \<open>src/pkg/cosmoguard/ws_upstream_cosmos.go\<close> and \<open>ws_upstream_eth.go\<close>: one WebSocket connection to
  the node, with the requests that wait for an answer and the subscriptions it carries.  Also
  what of \<open>ws_jsonrpc_client.go\<close> they use.

  \<^item> \<open>cm_client\<close> is the client: nil, or a connection and whether it is closed.
  \<^item> An entry of \<open>respMap\<close> is an unbuffered channel.  It is open while the requester receives on
    it and closed from the answer until the requester, which deletes the entry, runs again.  The
    requester whose message could not be sent leaves its channel behind, abandoned.
  \<^item> The node is a parameter: what sending a message returns, and what comes back on the channel
    of a request before the time-out (\<open>None\<close> for nothing).  Only the goroutine of \<open>Run\<close> reads the
    connection, so a request made by that goroutine itself gets nothing: \<open>reading\<close> is false.
  \<^item> Sending, dialling and closing are parameters too.
  \<^item> The draws of the id generator are a list; a result of \<open>None\<close> says that the search for an id
    has not ended within them.  The generator is the connection's own here; a pool with one
    connection is in that situation.
\<close>

section \<open>State\<close>

datatype chan = ChanOpen | ChanAbandoned | ChanClosed

record conn_mgr =
  cm_client :: "bool option"
  cm_IdGen :: id_gen
  cm_draws :: "int list"
  cm_respMap :: "(string, chan) gomap"
  cm_subByID :: "(string, string) gomap"
  cm_subByParam :: "(string, string) gomap"

record 'w link =
  ln_send :: "JsonRpcMsg \<Rightarrow> 'w \<Rightarrow> err option \<times> 'w"
  ln_wait :: "string \<Rightarrow> 'w \<Rightarrow> JsonRpcMsg option \<times> 'w"
  ln_dial :: "'w \<Rightarrow> err option \<times> 'w"
  ln_close :: "'w \<Rightarrow> err option \<times> 'w"

definition new_conn_mgr :: "int list \<Rightarrow> conn_mgr" where
  "new_conn_mgr draws = \<lparr>cm_client = None, cm_IdGen = UniqueID_empty, cm_draws = draws,
     cm_respMap = [], cm_subByID = [], cm_subByParam = []\<rparr>"

definition client_IsClosed :: "bool option \<Rightarrow> bool" where
  "client_IsClosed c = (case c of None \<Rightarrow> True | Some is_closed \<Rightarrow> is_closed)"

definition client_SendMsg ::
  "'w link \<Rightarrow> bool option \<Rightarrow> JsonRpcMsg \<Rightarrow> 'w \<Rightarrow> err option \<times> 'w" where
  "client_SendMsg lk c msg w = (if client_IsClosed c then (Some ErrClosed, w) else ln_send lk msg w)"

text \<open>A connection whose closing fails stays open for the program.\<close>

definition client_Close :: "'w link \<Rightarrow> conn_mgr \<Rightarrow> 'w \<Rightarrow> conn_mgr \<times> 'w" where
  "client_Close lk m w =
     (if client_IsClosed (cm_client m) then (m, w)
      else case ln_close lk w of
          (Some err, w') \<Rightarrow> (m, w')
        | (None, w') \<Rightarrow> (m\<lparr>cm_client := Some True\<rparr>, w'))"

section \<open>Messages from the node\<close>

datatype up_event = Answered string JsonRpcMsg | Notified JsonRpcMsg | Dropped | Stuck | Unread

definition msg_id_string :: "any \<Rightarrow> string option" where
  "msg_id_string i = (case i of GStr s \<Rightarrow> Some s | GInt n \<Rightarrow> Some (Itoa n) | _ \<Rightarrow> None)"

text \<open>
  Where a message belongs: to the request whose channel \<open>respMap\<close> holds under its id, or to a
  subscription, or nowhere.  The maps are all that is looked at.
\<close>

datatype 'c routed = ToRequest string 'c | ToSubscription JsonRpcMsg | Drop

definition Cosmos_route ::
  "JsonRpcMsg \<Rightarrow> (string, 'c) gomap \<Rightarrow> (string, string) gomap \<Rightarrow> 'c routed outcome" where
  "Cosmos_route msg respMap subByID =
     (if jm_ID msg = GNil then Ret Drop
      else case msg_id_string (jm_ID msg) of
          None \<Rightarrow> Ret Drop
        | Some msgID \<Rightarrow> (case gm_get respMap msgID of
              Some wc \<Rightarrow> Ret (ToRequest msgID wc)
            | None \<Rightarrow> if gm_has subByID msgID then Ret (ToSubscription msg) else Ret Drop))"

definition Eth_route ::
  "JsonRpcMsg \<Rightarrow> (string, 'c) gomap \<Rightarrow> (string, string) gomap \<Rightarrow> 'c routed outcome" where
  "Eth_route msg respMap subByID =
     (if jm_ID msg = GNil then
        (case jm_Params msg of
           GNil \<Rightarrow> Ret Drop
         | GMap params \<Rightarrow> (case gm_get params ''subscription'' of
               None \<Rightarrow> Ret Drop
             | Some (GStr subscriptionID) \<Rightarrow>
                 if gm_has subByID subscriptionID
                 then Ret (ToSubscription (msg\<lparr>jm_ID := GStr subscriptionID\<rparr>))
                 else Ret Drop
             | Some _ \<Rightarrow> Panic ''interface conversion'')
         | _ \<Rightarrow> Panic ''interface conversion'')
      else case msg_id_string (jm_ID msg) of
          None \<Rightarrow> Ret Drop
        | Some msgID \<Rightarrow> (case gm_get respMap msgID of
              Some wc \<Rightarrow> Ret (ToRequest msgID wc)
            | None \<Rightarrow> Ret Drop))"

text \<open>
  Sending on a closed channel panics; sending on a channel nobody receives on never returns, and
  with it the loop of \<open>Run\<close> (\<open>Stuck\<close>).
\<close>

definition answer_chan ::
  "string \<Rightarrow> chan \<Rightarrow> JsonRpcMsg \<Rightarrow> conn_mgr \<Rightarrow> up_event outcome \<times> conn_mgr" where
  "answer_chan i c msg m = (case c of
      ChanClosed \<Rightarrow> (Panic ''send on closed channel'', m)
    | ChanAbandoned \<Rightarrow> (Ret Stuck, m)
    | ChanOpen \<Rightarrow> (Ret (Answered i msg), m\<lparr>cm_respMap := gm_put i ChanClosed (cm_respMap m)\<rparr>))"

text \<open>
  \<open>onSubscriptionMessage\<close> is the field of the manager: the broker's method, which is called with
  the notification and may panic.
\<close>

type_synonym on_subscription = "JsonRpcMsg \<Rightarrow> unit outcome"

definition on_routed ::
  "on_subscription \<Rightarrow> chan routed outcome \<Rightarrow> JsonRpcMsg \<Rightarrow> conn_mgr \<Rightarrow> up_event outcome \<times> conn_mgr" where
  "on_routed onSubscriptionMessage r msg m = (case r of
      Panic e \<Rightarrow> (Panic e, m)
    | Ret (ToRequest i wc) \<Rightarrow> answer_chan i wc msg m
    | Ret (ToSubscription n) \<Rightarrow> (case onSubscriptionMessage n of
          Panic e \<Rightarrow> (Panic e, m)
        | Ret _ \<Rightarrow> (Ret (Notified n), m))
    | Ret Drop \<Rightarrow> (Ret Dropped, m))"

definition Cosmos_onUpstreamMessage ::
  "on_subscription \<Rightarrow> JsonRpcMsg \<Rightarrow> conn_mgr \<Rightarrow> up_event outcome \<times> conn_mgr" where
  "Cosmos_onUpstreamMessage onSubscriptionMessage msg m =
     on_routed onSubscriptionMessage (Cosmos_route msg (cm_respMap m) (cm_subByID m)) msg m"

definition Eth_onUpstreamMessage ::
  "on_subscription \<Rightarrow> JsonRpcMsg \<Rightarrow> conn_mgr \<Rightarrow> up_event outcome \<times> conn_mgr" where
  "Eth_onUpstreamMessage onSubscriptionMessage msg m =
     on_routed onSubscriptionMessage (Eth_route msg (cm_respMap m) (cm_subByID m)) msg m"

text \<open>What the broker's method does with a notification, as far as the reader can tell.\<close>

definition broker_callback :: "'cl Broker \<Rightarrow> on_subscription" where
  "broker_callback b msg = bind_o (Broker_onSubscriptionMessage msg b) (\<lambda>_. Ret ())"

section \<open>Requests\<close>

text \<open>When sending fails, the entry of \<open>respMap\<close> stays, with nobody to receive on it.\<close>

definition await ::
  "'w link \<Rightarrow> bool \<Rightarrow> string \<Rightarrow> JsonRpcMsg \<Rightarrow> conn_mgr \<Rightarrow> 'w \<Rightarrow> (err + JsonRpcMsg) \<times> conn_mgr \<times> 'w" where
  "await lk reading i req m w =
     (let m1 = m\<lparr>cm_respMap := gm_put i ChanOpen (cm_respMap m)\<rparr>
      in case client_SendMsg lk (cm_client m) (JsonRpcMsg_CloneWithID (GStr i) req) w of
           (Some err, w1) \<Rightarrow> (Inl err, m\<lparr>cm_respMap := gm_put i ChanAbandoned (cm_respMap m)\<rparr>, w1)
         | (None, w1) \<Rightarrow>
             (let m2 = m1\<lparr>cm_respMap := gm_del i (cm_respMap m1)\<rparr>
              in case (if reading then ln_wait lk i w1 else (None, w1)) of
                   (Some response, w2) \<Rightarrow> (Inr (response\<lparr>jm_ID := jm_ID req\<rparr>), m2, w2)
                 | (None, w2) \<Rightarrow> (Inl (ErrText ''timeout waiting for response for request''), m2, w2)))"

definition Cosmos_makeRequestWithID ::
  "'w link \<Rightarrow> bool \<Rightarrow> string \<Rightarrow> JsonRpcMsg \<Rightarrow> conn_mgr \<Rightarrow> 'w \<Rightarrow> (err + JsonRpcMsg) \<times> conn_mgr \<times> 'w" where
  "Cosmos_makeRequestWithID lk reading i req m w = await lk reading i req m w"

definition Eth_makeRequestWithID ::
  "'w link \<Rightarrow> bool \<Rightarrow> string \<Rightarrow> JsonRpcMsg \<Rightarrow> conn_mgr \<Rightarrow> 'w \<Rightarrow> (err + JsonRpcMsg) \<times> conn_mgr \<times> 'w" where
  "Eth_makeRequestWithID lk reading i req m w =
     (if client_IsClosed (cm_client m) then (Inl ErrClosed, m, w) else await lk reading i req m w)"

definition take_id :: "conn_mgr \<Rightarrow> (string \<times> conn_mgr) option" where
  "take_id m = (case UniqueID_ID (cm_draws m) (cm_IdGen m) of
      None \<Rightarrow> None
    | Some (i, g, draws) \<Rightarrow> Some (i, m\<lparr>cm_IdGen := g, cm_draws := draws\<rparr>))"

definition release :: "string \<Rightarrow> conn_mgr \<Rightarrow> conn_mgr" where
  "release i m = m\<lparr>cm_IdGen := UniqueID_Release i (cm_IdGen m)\<rparr>"

definition Cosmos_MakeRequest ::
  "'w link \<Rightarrow> bool \<Rightarrow> JsonRpcMsg \<Rightarrow> conn_mgr \<Rightarrow> 'w \<Rightarrow> ((err + JsonRpcMsg) \<times> conn_mgr \<times> 'w) option" where
  "Cosmos_MakeRequest lk reading req m w = (case take_id m of
      None \<Rightarrow> None
    | Some (i, m1) \<Rightarrow> (case Cosmos_makeRequestWithID lk reading i req m1 w of
          (r, m2, w2) \<Rightarrow> Some (r, release i m2, w2)))"

definition Eth_MakeRequest ::
  "'w link \<Rightarrow> bool \<Rightarrow> JsonRpcMsg \<Rightarrow> conn_mgr \<Rightarrow> 'w \<Rightarrow> ((err + JsonRpcMsg) \<times> conn_mgr \<times> 'w) option" where
  "Eth_MakeRequest lk reading req m w = (case take_id m of
      None \<Rightarrow> None
    | Some (i, m1) \<Rightarrow> (case Eth_makeRequestWithID lk reading i req m1 w of
          (r, m2, w2) \<Rightarrow> Some (r, release i m2, w2)))"

section \<open>Subscriptions\<close>

definition mgr_add :: "string \<Rightarrow> string \<Rightarrow> conn_mgr \<Rightarrow> conn_mgr" where
  "mgr_add param i m = m\<lparr>cm_subByParam := gm_put param i (cm_subByParam m),
     cm_subByID := gm_put i param (cm_subByID m)\<rparr>"

definition mgr_del :: "string \<Rightarrow> conn_mgr \<Rightarrow> conn_mgr" where
  "mgr_del i m = m\<lparr>cm_subByParam := gm_del (zero_string (gm_get (cm_subByID m) i)) (cm_subByParam m),
     cm_subByID := gm_del i (cm_subByID m)\<rparr>"

interpretation mgr: two_way "\<lambda>m. gm_get (cm_subByParam m)" "\<lambda>m. gm_get (cm_subByID m)" mgr_add mgr_del
  by unfold_locales (auto simp: mgr_add_def mgr_del_def fun_eq_iff zero_string_def)

definition subscription_msg :: "string \<Rightarrow> any \<Rightarrow> any \<Rightarrow> JsonRpcMsg" where
  "subscription_msg meth i params = zero_msg\<lparr>jm_Version := ''2.0'', jm_ID := i, jm_Method := meth,
     jm_Params := params\<rparr>"

text \<open>The node's answer is not looked at: an error in it counts as success.\<close>

definition Cosmos_subscribeWithID ::
  "'w link \<Rightarrow> bool \<Rightarrow> string \<Rightarrow> string \<Rightarrow> conn_mgr \<Rightarrow> 'w \<Rightarrow> err option \<times> conn_mgr \<times> 'w" where
  "Cosmos_subscribeWithID lk reading i param m w =
     (case Cosmos_makeRequestWithID lk reading i
         (subscription_msg methodSubscribeCosmos (GStr i) (GSlice [GStr param])) m w of
        (Inl err, m1, w1) \<Rightarrow> (Some err, release i m1, w1)
      | (Inr _, m1, w1) \<Rightarrow> (None, mgr_add param i m1, w1))"

text \<open>The id is returned with the error too.\<close>

definition Cosmos_Subscribe ::
  "'w link \<Rightarrow> string \<Rightarrow> conn_mgr \<Rightarrow> 'w \<Rightarrow> ((string \<times> err option) \<times> conn_mgr \<times> 'w) option" where
  "Cosmos_Subscribe lk param m w =
     (if gm_has (cm_subByParam m) param then Some (([], Some ErrSubscriptionExists), m, w)
      else case take_id m of
          None \<Rightarrow> None
        | Some (i, m1) \<Rightarrow> (case Cosmos_subscribeWithID lk True i param m1 w of
              (e, m2, w2) \<Rightarrow> Some ((i, e), m2, w2)))"

text \<open>The result of \<open>eth_subscribe\<close> must be a string; anything else, as in an error reply, panics.\<close>

definition Eth_subscribeWithID ::
  "'w link \<Rightarrow> bool \<Rightarrow> string \<Rightarrow> string \<Rightarrow> conn_mgr \<Rightarrow> 'w \<Rightarrow> (err + string) outcome \<times> conn_mgr \<times> 'w" where
  "Eth_subscribeWithID lk reading i param m w =
     (case Eth_makeRequestWithID lk reading i
         (subscription_msg methodSubscribeEth (GStr i) (GSlice [GStr param])) m w of
        (Inl err, m1, w1) \<Rightarrow> (Ret (Inl err), release i m1, w1)
      | (Inr resp, m1, w1) \<Rightarrow> (case jm_Result resp of
            GStr subID \<Rightarrow> (Ret (Inr subID), release i (mgr_add param subID m1), w1)
          | _ \<Rightarrow> (Panic ''interface conversion'', release i m1, w1)))"

definition Eth_Subscribe ::
  "'w link \<Rightarrow> bool \<Rightarrow> string \<Rightarrow> conn_mgr \<Rightarrow> 'w \<Rightarrow> ((err + string) outcome \<times> conn_mgr \<times> 'w) option" where
  "Eth_Subscribe lk reading query m w =
     (if gm_has (cm_subByParam m) query then Some (Ret (Inl ErrSubscriptionExists), m, w)
      else case take_id m of
          None \<Rightarrow> None
        | Some (i, m1) \<Rightarrow> Some (Eth_subscribeWithID lk reading i query m1 w))"

definition Cosmos_Unsubscribe ::
  "'w link \<Rightarrow> string \<Rightarrow> conn_mgr \<Rightarrow> 'w \<Rightarrow> (err option \<times> conn_mgr \<times> 'w) option" where
  "Cosmos_Unsubscribe lk i m w =
     (let param = zero_string (gm_get (cm_subByID m) i)
      in case Cosmos_MakeRequest lk True
            (subscription_msg methodUnsubscribeCosmos GNil (GSlice [GStr param])) m w of
           None \<Rightarrow> None
         | Some (Inl err, m1, w1) \<Rightarrow> Some (Some err, m1, w1)
         | Some (Inr _, m1, w1) \<Rightarrow>
             Some (None, release i (m1\<lparr>cm_subByID := gm_del i (cm_subByID m1),
               cm_subByParam := gm_del param (cm_subByParam m1)\<rparr>), w1))"

definition Eth_Unsubscribe ::
  "'w link \<Rightarrow> string \<Rightarrow> conn_mgr \<Rightarrow> 'w \<Rightarrow> (err option \<times> conn_mgr \<times> 'w) option" where
  "Eth_Unsubscribe lk i m w =
     (case Eth_MakeRequest lk True
         (subscription_msg methodUnsubscribeEth GNil (GStrSlice [i])) m w of
        None \<Rightarrow> None
      | Some (Inl err, m1, w1) \<Rightarrow> Some (Some err, m1, w1)
      | Some (Inr _, m1, w1) \<Rightarrow> Some (None, mgr_del i m1, w1))"

section \<open>Connecting\<close>

definition Eth_resetAll :: "conn_mgr \<Rightarrow> conn_mgr" where
  "Eth_resetAll m = m\<lparr>cm_subByParam := [], cm_subByID := [], cm_respMap := []\<rparr>"

fun Cosmos_reSubmit_each ::
  "'w link \<Rightarrow> (string \<times> string) list \<Rightarrow> conn_mgr \<Rightarrow> 'w \<Rightarrow> err option \<times> conn_mgr \<times> 'w" where
  "Cosmos_reSubmit_each lk [] m w = (None, m, w)"
| "Cosmos_reSubmit_each lk ((param, i) # l) m w =
     (case Cosmos_subscribeWithID lk False i param m w of
        (Some err, m1, w1) \<Rightarrow> (Some err, m1, w1)
      | (None, m1, w1) \<Rightarrow> Cosmos_reSubmit_each lk l m1 w1)"

definition Cosmos_reSubmitSubscriptions ::
  "'w link \<Rightarrow> conn_mgr \<Rightarrow> 'w \<Rightarrow> err option \<times> conn_mgr \<times> 'w" where
  "Cosmos_reSubmitSubscriptions lk m w = Cosmos_reSubmit_each lk (cm_subByParam m) m w"

fun Eth_reSubmit_each ::
  "'w link \<Rightarrow> (string \<times> string) list \<Rightarrow> conn_mgr \<Rightarrow> 'w
     \<Rightarrow> (err option outcome \<times> conn_mgr \<times> 'w) option" where
  "Eth_reSubmit_each lk [] m w = Some (Ret None, m, w)"
| "Eth_reSubmit_each lk ((param, _) # l) m w =
     (case Eth_Subscribe lk False param m w of
        None \<Rightarrow> None
      | Some (Panic e, m1, w1) \<Rightarrow> Some (Panic e, m1, w1)
      | Some (Ret (Inl err), m1, w1) \<Rightarrow> Some (Ret (Some err), m1, w1)
      | Some (Ret (Inr _), m1, w1) \<Rightarrow> Eth_reSubmit_each lk l m1 w1)"

definition Eth_reSubmitSubscriptions ::
  "'w link \<Rightarrow> conn_mgr \<Rightarrow> 'w \<Rightarrow> (err option outcome \<times> conn_mgr \<times> 'w) option" where
  "Eth_reSubmitSubscriptions lk m w = Eth_reSubmit_each lk (cm_subByParam m) m w"

text \<open>
  The first half of an iteration of \<open>Run\<close>: when there is no open client, dial and submit the
  subscriptions again.  The first component says whether the iteration goes on to read.
\<close>

definition Cosmos_Run_connect :: "'w link \<Rightarrow> conn_mgr \<Rightarrow> 'w \<Rightarrow> bool \<times> conn_mgr \<times> 'w" where
  "Cosmos_Run_connect lk m w =
     (if \<not> client_IsClosed (cm_client m) then (True, m, w)
      else case ln_dial lk w of
          (Some err, w1) \<Rightarrow> (False, m, w1)
        | (None, w1) \<Rightarrow> (case Cosmos_reSubmitSubscriptions lk (m\<lparr>cm_client := Some False\<rparr>) w1 of
              (Some err, m2, w2) \<Rightarrow> (False, client_Close lk m2 w2)
            | (None, m2, w2) \<Rightarrow> (True, m2, w2)))"

definition Eth_Run_connect ::
  "'w link \<Rightarrow> conn_mgr \<Rightarrow> 'w \<Rightarrow> (bool outcome \<times> conn_mgr \<times> 'w) option" where
  "Eth_Run_connect lk m w =
     (if \<not> client_IsClosed (cm_client m) then Some (Ret True, m, w)
      else case ln_dial lk w of
          (Some err, w1) \<Rightarrow> Some (Ret False, m, w1)
        | (None, w1) \<Rightarrow>
            (case Eth_reSubmitSubscriptions lk (Eth_resetAll (m\<lparr>cm_client := Some False\<rparr>)) w1 of
               None \<Rightarrow> None
             | Some (Panic e, m2, w2) \<Rightarrow> Some (Panic e, m2, w2)
             | Some (Ret (Some err), m2, w2) \<Rightarrow> Some (Ret False, client_Close lk m2 w2)
             | Some (Ret None, m2, w2) \<Rightarrow> Some (Ret True, m2, w2)))"

text \<open>
  The second half: a message is read from the connection and handled.  An iteration that handles
  none, because there is no connection or because reading fails, is \<open>Unread\<close>.
\<close>

definition Run_receive ::
  "(JsonRpcMsg \<Rightarrow> conn_mgr \<Rightarrow> up_event outcome \<times> conn_mgr) \<Rightarrow> 'w link \<Rightarrow> err + JsonRpcMsg
     \<Rightarrow> conn_mgr \<Rightarrow> 'w \<Rightarrow> up_event outcome \<times> conn_mgr \<times> 'w" where
  "Run_receive onmsg lk received m w =
     (case received of
        Inl err \<Rightarrow> (Ret Unread, if err = ErrClosed then client_Close lk m w else (m, w))
      | Inr msg \<Rightarrow> (case onmsg msg m of (e, m') \<Rightarrow> (e, m', w)))"

definition Cosmos_Run_iteration ::
  "on_subscription \<Rightarrow> 'w link \<Rightarrow> err + JsonRpcMsg \<Rightarrow> conn_mgr \<Rightarrow> 'w \<Rightarrow> up_event outcome \<times> conn_mgr \<times> 'w" where
  "Cosmos_Run_iteration onsub lk received m w = (case Cosmos_Run_connect lk m w of
      (False, m1, w1) \<Rightarrow> (Ret Unread, m1, w1)
    | (True, m1, w1) \<Rightarrow> Run_receive (Cosmos_onUpstreamMessage onsub) lk received m1 w1)"

definition Eth_Run_iteration ::
  "on_subscription \<Rightarrow> 'w link \<Rightarrow> err + JsonRpcMsg \<Rightarrow> conn_mgr \<Rightarrow> 'w \<Rightarrow> (up_event outcome \<times> conn_mgr \<times> 'w) option" where
  "Eth_Run_iteration onsub lk received m w = (case Eth_Run_connect lk m w of
      None \<Rightarrow> None
    | Some (Panic e, m1, w1) \<Rightarrow> Some (Panic e, m1, w1)
    | Some (Ret False, m1, w1) \<Rightarrow> Some (Ret Unread, m1, w1)
    | Some (Ret True, m1, w1) \<Rightarrow> Some (Run_receive (Eth_onUpstreamMessage onsub) lk received m1 w1))"

end
