(* ===== verification/UpstreamRequests.thy ===== *)
theory UpstreamRequests
  imports Upstream
begin

text \<open>
  A request on one upstream connection: what it does to the id generator and to the maps, when it
  returns, and what the reader does with a message.
\<close>

section \<open>Taking and releasing ids\<close>

lemma take_id_fresh:
  assumes "take_id m = Some (i, m')"
  shows "\<not> outstanding (cm_IdGen m) i"
    and "outstanding (cm_IdGen m') = (outstanding (cm_IdGen m))(i := True)"
    and "cm_respMap m' = cm_respMap m"
proof -
  from assms obtain g d where take: "UniqueID_ID (cm_draws m) (cm_IdGen m) = Some (i, g, d)"
    and m': "m' = m\<lparr>cm_IdGen := g, cm_draws := d\<rparr>"
    by (auto simp: take_id_def split: option.splits)
  show "\<not> outstanding (cm_IdGen m) i" by (rule unique.take_fresh [OF take])
  show "outstanding (cm_IdGen m') = (outstanding (cm_IdGen m))(i := True)"
    using unique.take_live [OF take] by (simp add: m')
  show "cm_respMap m' = cm_respMap m" by (simp add: m')
qed

lemma release_live: "outstanding (cm_IdGen (release i m)) = (outstanding (cm_IdGen m))(i := False)"
  by (simp add: release_def unique.release_live)

lemma release_respMap [simp]: "cm_respMap (release i m) = cm_respMap m"
  by (simp add: release_def)

section \<open>Where a message goes\<close>

text \<open>
  Both managers promise the requests the same: a message is handed to a channel only if that is
  the channel bound to the id of the message.
\<close>

locale router =
  fixes route :: "JsonRpcMsg \<Rightarrow> (string, 'c) gomap \<Rightarrow> (string, string) gomap \<Rightarrow> 'c routed outcome"
  assumes to_request: "route msg resp subs = Ret (ToRequest i c) \<Longrightarrow>
      msg_id_string (jm_ID msg) = Some i \<and> gm_get resp i = Some c"
    and bound: "msg_id_string (jm_ID msg) = Some i \<Longrightarrow> gm_get resp i = Some c \<Longrightarrow>
      route msg resp subs = Ret (ToRequest i c)"
begin

lemma to_request_iff:
  "route msg resp subs = Ret (ToRequest i c) \<longleftrightarrow>
     msg_id_string (jm_ID msg) = Some i \<and> gm_get resp i = Some c"
  using to_request bound by blast

end

lemma msg_id_not_nil: "msg_id_string x = Some i \<Longrightarrow> x \<noteq> GNil"
  by (auto simp: msg_id_string_def)

interpretation cosmos: router Cosmos_route
  by unfold_locales (auto simp: Cosmos_route_def dest: msg_id_not_nil split: if_splits option.splits)

interpretation eth: router Eth_route
  by unfold_locales
    (auto simp: Eth_route_def dest: msg_id_not_nil split: if_splits option.splits any.splits)

text \<open>The Ethereum manager gives every notification a string for its id.\<close>

lemma Eth_route_subscription:
  "Eth_route msg resp subs = Ret (ToSubscription n) \<Longrightarrow> \<exists>i. jm_ID n = GStr i"
  by (auto simp: Eth_route_def split: if_splits option.splits any.splits)

lemma Cosmos_route_subscription:
  "Cosmos_route msg resp subs = Ret (ToSubscription n) \<longleftrightarrow> n = msg
     \<and> (\<exists>i. msg_id_string (jm_ID msg) = Some i \<and> gm_get resp i = None \<and> gm_has subs i)"
  by (auto simp: Cosmos_route_def dest: msg_id_not_nil split: if_splits option.splits)

lemma Cosmos_route_no_panic: "Cosmos_route msg resp subs \<noteq> Panic p"
  by (auto simp: Cosmos_route_def split: if_splits option.splits)

text \<open>The broker's callback panics on every id that is no string.\<close>

lemma broker_callback_panics: "(\<exists>p. broker_callback b msg = Panic p) \<longleftrightarrow> (\<nexists>i. jm_ID msg = GStr i)"
  by (auto simp: broker_callback_def Broker_onSubscriptionMessage_def split: any.splits)

section \<open>A request returns\<close>

lemma take_id_returns:
  "take_id m \<noteq> None \<longleftrightarrow> (\<exists>r\<in>set (cm_draws m). \<not> outstanding (cm_IdGen m) (Itoa r))"
  unfolding UniqueID_ID_returns by (auto simp: take_id_def split: option.splits)

lemma await_IdGen: "await lk reading i req m w = (r, m', w') \<Longrightarrow> cm_IdGen m' = cm_IdGen m"
  by (auto simp: await_def Let_def split: prod.splits option.splits if_splits)

lemma await_subs:
  "await lk reading i req m w = (r, m', w') \<Longrightarrow>
     cm_subByID m' = cm_subByID m \<and> cm_subByParam m' = cm_subByParam m \<and> cm_client m' = cm_client m"
  by (auto simp: await_def Let_def split: prod.splits option.splits if_splits)

lemma await_respMap:
  assumes "await lk reading i req m w = (Inr r, m', w')"
  shows "gm_get (cm_respMap m') i = None"
  using assms by (auto simp: await_def Let_def split: prod.splits option.splits)

lemma Cosmos_MakeRequest_ids:
  assumes "Cosmos_MakeRequest lk reading req m w = Some (r, m', w')"
  shows "outstanding (cm_IdGen m') = outstanding (cm_IdGen m)"
    and "cm_subByID m' = cm_subByID m" and "cm_subByParam m' = cm_subByParam m"
proof -
  from assms obtain i m1 m2 where take: "take_id m = Some (i, m1)"
    and run: "await lk reading i req m1 w = (r, m2, w')" and m': "m' = release i m2"
    by (auto simp: Cosmos_MakeRequest_def Cosmos_makeRequestWithID_def split: option.splits prod.splits)
  show "outstanding (cm_IdGen m') = outstanding (cm_IdGen m)"
    using take_id_fresh [OF take] await_IdGen [OF run]
    by (auto simp: m' release_live fun_eq_iff)
  have "cm_subByID m1 = cm_subByID m" "cm_subByParam m1 = cm_subByParam m"
    using take by (auto simp: take_id_def split: option.splits)
  then show "cm_subByID m' = cm_subByID m" "cm_subByParam m' = cm_subByParam m"
    using await_subs [OF run] by (simp_all add: m' release_def)
qed

lemma Cosmos_MakeRequest_returns:
  "Cosmos_MakeRequest lk reading req m w \<noteq> None \<longleftrightarrow>
     (\<exists>r\<in>set (cm_draws m). \<not> outstanding (cm_IdGen m) (Itoa r))"
  unfolding take_id_returns [symmetric]
  by (auto simp: Cosmos_MakeRequest_def split: option.splits prod.splits)

end
