(* ===== verification/UpstreamSubs.thy ===== *)
theory UpstreamSubs
  imports UpstreamRequests
begin

text \<open>
  The subscriptions of one upstream connection: the two maps stay inverse to each other and the
  ids of a Cosmos connection stay reserved, while subscribing and unsubscribing; what becomes of
  them when the connection is lost.
\<close>

section \<open>The invariant\<close>

definition mgr_inv :: "conn_mgr \<Rightarrow> bool" where
  "mgr_inv m \<longleftrightarrow> (\<forall>param i. gm_get (cm_subByParam m) param = Some i \<longleftrightarrow> gm_get (cm_subByID m) i = Some param)
     \<and> (\<forall>i. gm_has (cm_subByID m) i \<longrightarrow> outstanding (cm_IdGen m) i)"

lemma mgr_inv_paired:
  "mgr_inv m \<longleftrightarrow> mgr.paired m \<and> (\<forall>i. gm_has (cm_subByID m) i \<longrightarrow> outstanding (cm_IdGen m) i)"
  unfolding mgr_inv_def mgr.paired_def by simp

lemma mgr_inv_new: "mgr_inv (new_conn_mgr draws)"
  by (simp add: mgr_inv_def new_conn_mgr_def)

lemma mgr_inv_cong:
  assumes "cm_subByParam m' = cm_subByParam m" and "cm_subByID m' = cm_subByID m"
    and "outstanding (cm_IdGen m') = outstanding (cm_IdGen m)"
  shows "mgr_inv m' = mgr_inv m"
  using assms by (simp add: mgr_inv_def)

lemma take_id_subs:
  "take_id m = Some (i, m') \<Longrightarrow> cm_subByParam m' = cm_subByParam m \<and> cm_subByID m' = cm_subByID m
     \<and> cm_client m' = cm_client m"
  by (auto simp: take_id_def split: option.splits)

lemma release_subs [simp]:
  "cm_subByParam (release i m) = cm_subByParam m" "cm_subByID (release i m) = cm_subByID m"
  "cm_client (release i m) = cm_client m"
  by (simp_all add: release_def)

lemma mgr_add_simps [simp]: "cm_IdGen (mgr_add p i m) = cm_IdGen m"
  by (simp add: mgr_add_def)

lemma mgr_inv_Cosmos_Subscribe:
  assumes inv: "mgr_inv m" and run: "Cosmos_Subscribe lk param m w = Some (r, m', w')"
  shows "mgr_inv m'"
proof (cases "gm_has (cm_subByParam m) param")
  case True
  with run inv show ?thesis by (simp add: Cosmos_Subscribe_def)
next
  case False
  with run obtain i m1 e where take: "take_id m = Some (i, m1)"
    and sub: "Cosmos_subscribeWithID lk True i param m1 w = (e, m', w')"
    by (auto simp: Cosmos_Subscribe_def split: option.splits prod.splits)
  obtain a m2 w2 where req: "await lk True i
      (subscription_msg methodSubscribeCosmos (GStr i) (GSlice [GStr param])) m1 w = (a, m2, w2)"
    by (metis surj_pair)
  note m2 = await_subs [OF req] await_IdGen [OF req]
  note m1 = take_id_subs [OF take] take_id_fresh [OF take]
  show ?thesis
  proof (cases a)
    case (Inl err)
    with sub req have "m' = release i m2" by (simp add: Cosmos_subscribeWithID_def Cosmos_makeRequestWithID_def)
    moreover have "(outstanding (cm_IdGen m))(i := False) = outstanding (cm_IdGen m)"
      using m1 by (auto simp: fun_eq_iff)
    ultimately show ?thesis
      using inv m1 m2 by (subst mgr_inv_cong [of _ m]) (simp_all add: release_live)
  next
    case (Inr resp)
    with sub req have m': "m' = mgr_add param i m2"
      by (simp add: Cosmos_subscribeWithID_def Cosmos_makeRequestWithID_def)
    have "gm_get (cm_subByID m2) i = None" using inv m1 m2 by (auto simp: mgr_inv_def)
    moreover have "mgr.paired m2"
      using inv m1 m2 unfolding mgr_inv_paired mgr.paired_def by simp
    ultimately have "mgr.paired m'"
      using False m1 m2 by (auto simp: m' intro: mgr.paired_add)
    then show ?thesis
      using inv m1 m2 by (auto simp: mgr_inv_paired m' mgr_add_def)
  qed
qed

lemma mgr_del_known:
  "gm_get (cm_subByID m) i = Some param \<Longrightarrow>
     m\<lparr>cm_subByID := gm_del i (cm_subByID m), cm_subByParam := gm_del param (cm_subByParam m)\<rparr> = mgr_del i m"
  by (cases m) (simp add: mgr_del_def zero_string_def)

lemma mgr_inv_Cosmos_Unsubscribe:
  assumes inv: "mgr_inv m" and known: "gm_get (cm_subByID m) i = Some param"
    and run: "Cosmos_Unsubscribe lk i m w = Some (r, m', w')"
  shows "mgr_inv m'"
proof -
  let ?msg = "subscription_msg methodUnsubscribeCosmos GNil (GSlice [GStr param])"
  from run known obtain a m1 w1 where req: "Cosmos_MakeRequest lk True ?msg m w = Some (a, m1, w1)"
    by (auto simp: Cosmos_Unsubscribe_def zero_string_def split: option.splits prod.splits)
  note m1 = Cosmos_MakeRequest_ids [OF req]
  have m1_inv: "mgr_inv m1" using mgr_inv_cong [OF m1(3,2,1)] inv by simp
  show ?thesis
  proof (cases a)
    case (Inl err)
    with run known req m1_inv show ?thesis by (simp add: Cosmos_Unsubscribe_def zero_string_def)
  next
    case (Inr resp)
    have known1: "gm_get (cm_subByID m1) i = Some param" using known m1 by simp
    with Inr run known req have m': "m' = release i (mgr_del i m1)"
      by (auto simp: Cosmos_Unsubscribe_def zero_string_def mgr_del_known)
    have "mgr.paired (mgr_del i m1)"
      using m1_inv known1 by (auto simp: mgr_inv_paired intro: mgr.paired_remove)
    then have "mgr.paired m'" unfolding m' mgr.paired_def by simp
    then show ?thesis
      using m1_inv by (auto simp: mgr_inv_paired m' mgr_del_def release_live split: if_splits)
  qed
qed

section \<open>Losing the connection\<close>

lemma await_not_reading: "\<exists>e. fst (await lk False i req m w) = Inl e"
  by (auto simp: await_def Let_def split: prod.splits option.splits)

text \<open>
  Submitting a subscription again from the loop that reads the answers fails: there is no answer
  while it waits.  The id of the subscription is released all the same.
\<close>

lemma Cosmos_reSubmit_fails:
  assumes "cm_subByParam m = (param, i) # l"
  shows "\<exists>err m' w'. Cosmos_reSubmitSubscriptions lk m w = (Some err, m', w')
     \<and> cm_subByParam m' = cm_subByParam m \<and> cm_subByID m' = cm_subByID m
     \<and> \<not> outstanding (cm_IdGen m') i"
proof -
  let ?msg = "subscription_msg methodSubscribeCosmos (GStr i) (GSlice [GStr param])"
  obtain m1 w1 e where run: "await lk False i ?msg m w = (Inl e, m1, w1)"
    using await_not_reading [of lk i ?msg m w] by (metis fst_conv surj_pair)
  then have "Cosmos_reSubmitSubscriptions lk m w = (Some e, release i m1, w1)"
    by (simp add: Cosmos_reSubmitSubscriptions_def assms Cosmos_subscribeWithID_def
        Cosmos_makeRequestWithID_def)
  then show ?thesis using await_subs [OF run] by (simp add: release_live)
qed

text \<open>Closing works on a connection that is open.\<close>

definition closes :: "'w link \<Rightarrow> bool" where
  "closes lk \<longleftrightarrow> (\<forall>w. fst (ln_close lk w) = None)"

lemma client_Close_closes:
  assumes "closes lk" and "client_Close lk m w = (m', w')"
  shows "client_IsClosed (cm_client m') \<and> cm_subByParam m' = cm_subByParam m"
proof -
  obtain w1 where "ln_close lk w = (None, w1)" using assms(1) by (metis closes_def prod.collapse)
  with assms(2) show ?thesis by (auto simp: client_Close_def client_IsClosed_def split: if_splits)
qed

lemma Cosmos_Run_connect_fails:
  assumes "closes lk" and closed: "client_IsClosed (cm_client m)" and subs: "cm_subByParam m \<noteq> []"
    and run: "Cosmos_Run_connect lk m w = (ready, m', w')"
  shows "\<not> ready \<and> client_IsClosed (cm_client m') \<and> cm_subByParam m' = cm_subByParam m"
proof -
  obtain e w1 where dial: "ln_dial lk w = (e, w1)" by fastforce
  show ?thesis
  proof (cases e)
    case (Some err)
    with closed run dial show ?thesis by (simp add: Cosmos_Run_connect_def)
  next
    case None
    obtain param i l where l: "cm_subByParam m = (param, i) # l"
      using subs by (metis list.exhaust surj_pair)
    obtain err m2 w2 where "Cosmos_reSubmitSubscriptions lk (m\<lparr>cm_client := Some False\<rparr>) w1 = (Some err, m2, w2)"
      and m2: "cm_subByParam m2 = cm_subByParam m"
      using Cosmos_reSubmit_fails [of "m\<lparr>cm_client := Some False\<rparr>" param i l lk w1] l by auto
    with None closed run dial have "\<not> ready" "client_Close lk m2 w2 = (m', w')"
      by (auto simp: Cosmos_Run_connect_def)
    with client_Close_closes [OF assms(1)] m2 show ?thesis by simp
  qed
qed

text \<open>
  The loop of \<open>Run\<close>; the messages that would be read are a list, one for each iteration.
\<close>

fun Cosmos_Run_loop ::
  "on_subscription \<Rightarrow> 'w link \<Rightarrow> (err + JsonRpcMsg) list \<Rightarrow> conn_mgr \<Rightarrow> 'w \<Rightarrow> up_event outcome list \<times> conn_mgr \<times> 'w" where
  "Cosmos_Run_loop onsub lk [] m w = ([], m, w)"
| "Cosmos_Run_loop onsub lk (r # rs) m w = (case Cosmos_Run_iteration onsub lk r m w of
      (Panic e, m1, w1) \<Rightarrow> ([Panic e], m1, w1)
    | (Ret Stuck, m1, w1) \<Rightarrow> ([Ret Stuck], m1, w1)
    | (e, m1, w1) \<Rightarrow> (case Cosmos_Run_loop onsub lk rs m1 w1 of (es, m2, w2) \<Rightarrow> (e # es, m2, w2)))"

lemma Cosmos_Run_loop_fails:
  assumes "closes lk"
  shows "client_IsClosed (cm_client m) \<Longrightarrow> cm_subByParam m \<noteq> [] \<Longrightarrow>
     Cosmos_Run_loop onsub lk rs m w = (es, m', w') \<Longrightarrow>
     set es \<subseteq> {Ret Unread} \<and> client_IsClosed (cm_client m') \<and> cm_subByParam m' = cm_subByParam m"
proof (induction rs arbitrary: m w es m' w')
  case Nil
  then show ?case by simp
next
  case (Cons r rs)
  obtain r1 m1 w1 where run: "Cosmos_Run_connect lk m w = (r1, m1, w1)" by (metis surj_pair)
  note m1 = Cosmos_Run_connect_fails [OF assms Cons.prems(1,2) run]
  then have "Cosmos_Run_iteration onsub lk r m w = (Ret Unread, m1, w1)"
    using run by (simp add: Cosmos_Run_iteration_def)
  moreover obtain es1 m2 w2 where rest: "Cosmos_Run_loop onsub lk rs m1 w1 = (es1, m2, w2)" by (metis surj_pair)
  ultimately have "es = Ret Unread # es1 \<and> m' = m2" using Cons.prems(3) by auto
  moreover have "set es1 \<subseteq> {Ret Unread} \<and> client_IsClosed (cm_client m2) \<and> cm_subByParam m2 = cm_subByParam m1"
    using m1 Cons.prems(2) rest by (intro Cons.IH [of m1 w1]) simp_all
  ultimately show ?case using m1 by simp
qed

lemma Cosmos_Run_ready:
  assumes "client_IsClosed (cm_client m)" and "cm_subByParam m = []" and "ln_dial lk w = (None, w')"
  shows "Cosmos_Run_iteration onsub lk (Inr msg) m w =
    (case Cosmos_onUpstreamMessage onsub msg (m\<lparr>cm_client := Some False\<rparr>) of (e, m') \<Rightarrow> (e, m', w'))"
  using assms
  by (simp add: Cosmos_Run_iteration_def Cosmos_Run_connect_def Cosmos_reSubmitSubscriptions_def Run_receive_def)

text \<open>The Ethereum connection forgets its subscriptions before it submits them again.\<close>

lemma Eth_Run_connect_forgets:
  assumes "client_IsClosed (cm_client m)" and "ln_dial lk w = (None, w')"
  shows "Eth_Run_connect lk m w = Some (Ret True, Eth_resetAll (m\<lparr>cm_client := Some False\<rparr>), w')"
  using assms by (simp add: Eth_Run_connect_def Eth_reSubmitSubscriptions_def Eth_resetAll_def)

lemma Eth_onUpstreamMessage_unknown:
  assumes "jm_ID msg = GNil" and "jm_Params msg = GMap params"
    and "gm_get params ''subscription'' = Some (GStr i)" and "gm_get (cm_subByID m) i = None"
  shows "Eth_onUpstreamMessage onsub msg m = (Ret Dropped, m)"
  using assms by (simp add: Eth_onUpstreamMessage_def Eth_route_def on_routed_def)

end
