(* ===== verification/UpstreamIface.thy ===== *)
theory UpstreamIface
  imports BrokerSpec UpstreamSubs
begin

text \<open>
  The interface \<open>UpstreamConnManager\<close> as the broker uses it, and the pool of Cosmos connections
  behind it: the connections share one id generator, which is what keeps the ids of the broker's
  subscriptions apart.
\<close>

section \<open>What the broker relies on\<close>

text \<open>
  \<open>live\<close> are the ids that are taken.  A new subscription gets an id that was free and takes it;
  ending a subscription frees its id; nothing else changes what is taken.
\<close>

locale id_upstream =
  fixes uc :: "'w UpstreamConnManager"
    and live :: "'w \<Rightarrow> string \<Rightarrow> bool"
  assumes request_live: "uc_MakeRequest uc k msg w = (r, w') \<Longrightarrow> live w' = live w"
    and subscribe_live: "uc_Subscribe uc k param w = (Inr i, w') \<Longrightarrow>
      \<not> live w i \<and> live w' = (live w)(i := True)"
    and subscribe_fails: "uc_Subscribe uc k param w = (Inl e, w') \<Longrightarrow> live w' = live w"
    and unsubscribe_live: "uc_Unsubscribe uc k i w = (None, w') \<Longrightarrow> live w' = (live w)(i := False)"
    and unsubscribe_fails: "uc_Unsubscribe uc k i w = (Some e, w') \<Longrightarrow> live w' = live w"
begin

definition reserved :: "UpstreamPool \<Rightarrow> 'w \<Rightarrow> bool" where
  "reserved p w \<longleftrightarrow> (\<forall>i. gm_has (up_subscriptionParam p) i \<longrightarrow> live w i)"

lemma reserved_fresh: "reserved p w \<Longrightarrow> fresh_ids uc p w"
  unfolding reserved_def fresh_ids_def using subscribe_live by blast

lemma reserved_connIdx [simp]: "reserved (p\<lparr>up_connIdx := n\<rparr>) w = reserved p w"
  by (simp add: reserved_def)

lemma reserved_subscribe:
  assumes "reserved p w" and run: "UpstreamPool_Subscribe uc param p w = (r, p', w')"
  shows "reserved p' w'"
proof (cases "gm_get (up_subscriptionID p) param")
  case (Some i)
  with assms show ?thesis by (simp add: UpstreamPool_Subscribe_def)
next
  case None
  obtain c p0 where conn: "UpstreamPool_getConnection p = (c, p0)" by fastforce
  note p0 = getConnection_frame [OF conn]
  show ?thesis
  proof (cases c)
    case (Panic e)
    with None run conn assms(1) show ?thesis by (auto simp: UpstreamPool_Subscribe_def p0)
  next
    case (Ret k)
    obtain a w1 where sub: "uc_Subscribe uc k param w = (a, w1)" by fastforce
    show ?thesis
    proof (cases a)
      case (Inl e)
      with None run conn Ret sub assms(1) subscribe_fails [of k param w e w1] show ?thesis
        by (auto simp: UpstreamPool_Subscribe_def p0 reserved_def)
    next
      case (Inr i)
      with None run conn Ret sub assms(1) subscribe_live [of k param w i w1] show ?thesis
        by (auto simp: UpstreamPool_Subscribe_def p0 reserved_def)
    qed
  qed
qed

lemma reserved_unsubscribe:
  assumes "reserved p w" and run: "UpstreamPool_Unsubscribe uc i p w = (e, p', w')"
  shows "reserved p' w'"
proof (cases "gm_get (up_subscriptionConn p) i")
  case None
  with assms show ?thesis by (simp add: UpstreamPool_Unsubscribe_def)
next
  case (Some k)
  obtain a w1 where un: "uc_Unsubscribe uc k i w = (a, w1)" by fastforce
  with Some run assms(1) unsubscribe_live [of k i w w1] unsubscribe_fails [of k i w _ w1]
  show ?thesis by (cases a) (auto simp: UpstreamPool_Unsubscribe_def reserved_def)
qed

lemma reserved_drop:
  assumes "reserved (bk_pool b) w" and "drop_if_empty uc i b w = (e, b', w')"
  shows "reserved (bk_pool b') w'"
proof -
  obtain e1 p w1 where un: "UpstreamPool_Unsubscribe uc i (bk_pool b) w = (e1, p, w1)" by (metis surj_pair)
  with reserved_unsubscribe [OF assms(1) un] assms show ?thesis
    by (auto simp: drop_if_empty_def split: if_splits option.splits)
qed

lemma reserved_remove_each:
  "reserved (bk_pool b) w \<Longrightarrow> remove_each uc c is b w = (e, b', w') \<Longrightarrow> reserved (bk_pool b') w'"
proof (induction "is" arbitrary: b w)
  case Nil
  then show ?case by simp
next
  case (Cons i "is")
  let ?b = "b\<lparr>bk_sm := SubscriptionManager_UnsubscribeClient i c (bk_sm b)\<rparr>"
  obtain e1 b1 w1 where drop: "drop_if_empty uc i ?b w = (e1, b1, w1)" by (metis surj_pair)
  have "reserved (bk_pool b1) w1" by (rule reserved_drop [OF _ drop]) (use Cons.prems(1) in simp)
  with Cons.IH [of b1 w1] Cons.prems(2) drop show ?case by (cases e1) auto
qed

lemma reserved_remove:
  assumes "reserved (bk_pool b) w" and "Broker_removeSubscription uc c msg b w = (r, b', w')"
  shows "reserved (bk_pool b') w'"
proof -
  have "reserved (bk_pool b1) w1"
    if "drop_if_empty uc i (b\<lparr>bk_sm := SubscriptionManager_UnsubscribeClient i c (bk_sm b)\<rparr>) w = (e, b1, w1)"
    for i e b1 w1
    by (rule reserved_drop [OF _ that]) (use assms(1) in simp)
  then show ?thesis
    using assms
    by (auto simp: Broker_removeSubscription_def Let_def
        split: outcome.splits sum.splits if_splits option.splits prod.splits)
qed

lemma subscribe_client_pool: "subscribe_client i c msg b = (r, b') \<Longrightarrow> bk_pool b' = bk_pool b"
  by (auto simp: subscribe_client_def Let_def split: outcome.splits)

lemma reserved_add:
  assumes "reserved (bk_pool b) w" and run: "Broker_addSubscription uc c msg b w = (r, b', w')"
  shows "reserved (bk_pool b') w'"
proof -
  have sub: "reserved p w1" if "UpstreamPool_Subscribe uc param (bk_pool b) w = (a, p, w1)" for param a p w1
    by (rule reserved_subscribe [OF assms(1) that])
  show ?thesis
    using run assms(1)
    by (auto simp: Broker_addSubscription_def Let_def dest: sub dest!: subscribe_client_pool
        split: outcome.splits sum.splits option.splits prod.splits)
qed

lemma reserved_handle:
  assumes "reserved (bk_pool b) w" and run: "Broker_HandleSubscription uc c msg b w = (r, b', w')"
  shows "reserved (bk_pool b') w'"
proof -
  let ?b = "b\<lparr>bk_callbacks := List.insert c (bk_callbacks b)\<rparr>"
  have b: "reserved (bk_pool ?b) w" using assms(1) by simp
  obtain r1 b1 w1 where add: "Broker_addSubscription uc c msg ?b w = (r1, b1, w1)" by (metis surj_pair)
  obtain r2 b2 w2 where rem: "Broker_removeSubscription uc c msg ?b w = (r2, b2, w2)" by (metis surj_pair)
  obtain r3 b3 w3 where all: "Broker_removeAllSubscriptions uc c ?b w = (r3, b3, w3)" by (metis surj_pair)
  have "reserved (bk_pool b1) w1" "reserved (bk_pool b2) w2" "reserved (bk_pool b3) w3"
    using reserved_add [OF b add] reserved_remove [OF b rem]
      reserved_remove_each [OF b all [unfolded Broker_removeAllSubscriptions_def]] by simp_all
  moreover have "(b', w') = (b1, w1) \<or> (b', w') = (b2, w2) \<or> (b', w') = (b3, w3) \<or> (b', w') = (?b, w)"
    using run unfolding Broker_HandleSubscription_def Let_def add rem all
    by (auto split: if_splits outcome.splits sum.splits option.splits)
  ultimately show ?thesis using b by auto
qed

lemma reserved_request:
  assumes "reserved (bk_pool b) w" and "Broker_HandleRequest uc msg b w = (r, b', w')"
  shows "reserved (bk_pool b') w'"
proof -
  obtain c p where conn: "UpstreamPool_getConnection (bk_pool b) = (c, p)" by fastforce
  note p = getConnection_frame [OF conn]
  have "bk_pool b' = p \<and> live w' = live w"
    using assms(2) conn
    by (auto simp: Broker_HandleRequest_def UpstreamPool_MakeRequest_def dest: request_live
        split: outcome.splits sum.splits prod.splits)
  then show ?thesis using assms(1) by (simp add: reserved_def p)
qed

lemma reserved_disconnect:
  assumes "reserved (bk_pool b) w" and "Broker_onClientDisconnect uc c b w = (b', w')"
  shows "reserved (bk_pool b') w'"
  using assms reserved_remove_each [OF assms(1)]
  by (auto simp: Broker_onClientDisconnect_def Broker_removeAllSubscriptions_def split: prod.splits)

end

section \<open>The pool of Cosmos connections\<close>

text \<open>
  The world of the connections: the generator they share with its draws, what each connection
  has of its own, and the node.  When the draws run out the search for an id has not ended, and
  the operation with it: \<open>nw_searching\<close> is set, and what the operation returns here has no
  meaning.  The steps below have no such state.
\<close>

record 'w conn_world =
  nw_IdGen :: id_gen
  nw_draws :: "int list"
  nw_conns :: "nat \<Rightarrow> conn_mgr"
  nw_net :: 'w
  nw_searching :: bool

definition conn_at :: "nat \<Rightarrow> 'w conn_world \<Rightarrow> conn_mgr" where
  "conn_at k W = (nw_conns W k)\<lparr>cm_IdGen := nw_IdGen W, cm_draws := nw_draws W\<rparr>"

definition put_conn :: "nat \<Rightarrow> conn_mgr \<Rightarrow> 'w \<Rightarrow> 'w conn_world \<Rightarrow> 'w conn_world" where
  "put_conn k m w W = W\<lparr>nw_IdGen := cm_IdGen m, nw_draws := cm_draws m,
     nw_conns := (nw_conns W)(k := m), nw_net := w\<rparr>"

definition Cosmos_pool :: "'w link \<Rightarrow> 'w conn_world UpstreamConnManager" where
  "Cosmos_pool lk = \<lparr>
     uc_MakeRequest = (\<lambda>k msg W. case Cosmos_MakeRequest lk True msg (conn_at k W) (nw_net W) of
         None \<Rightarrow> (Inl ErrNotFound, W\<lparr>nw_searching := True\<rparr>)
       | Some (r, m, w) \<Rightarrow> (r, put_conn k m w W)),
     uc_Subscribe = (\<lambda>k param W. case Cosmos_Subscribe lk param (conn_at k W) (nw_net W) of
         None \<Rightarrow> (Inl ErrNotFound, W\<lparr>nw_searching := True\<rparr>)
       | Some ((i, None), m, w) \<Rightarrow> (Inr i, put_conn k m w W)
       | Some ((i, Some e), m, w) \<Rightarrow> (Inl e, put_conn k m w W)),
     uc_Unsubscribe = (\<lambda>k i W. case Cosmos_Unsubscribe lk i (conn_at k W) (nw_net W) of
         None \<Rightarrow> (Some ErrNotFound, W\<lparr>nw_searching := True\<rparr>)
       | Some (e, m, w) \<Rightarrow> (e, put_conn k m w W))\<rparr>"

definition world_live :: "'w conn_world \<Rightarrow> string \<Rightarrow> bool" where
  "world_live W = outstanding (nw_IdGen W)"

lemma put_conn_live [simp]: "world_live (put_conn k m w W) = outstanding (cm_IdGen m)"
  by (simp add: world_live_def put_conn_def)

lemma searching_live [simp]: "world_live (W\<lparr>nw_searching := x\<rparr>) = world_live W"
  by (simp add: world_live_def)

lemma conn_at_live: "outstanding (cm_IdGen (conn_at k W)) = world_live W"
  by (simp add: world_live_def conn_at_def)

lemma Cosmos_Subscribe_live:
  assumes "Cosmos_Subscribe lk param m w = Some ((i, e), m', w')"
  shows "(e = None \<longrightarrow> \<not> outstanding (cm_IdGen m) i \<and>
            outstanding (cm_IdGen m') = (outstanding (cm_IdGen m))(i := True))
       \<and> (e \<noteq> None \<longrightarrow> outstanding (cm_IdGen m') = outstanding (cm_IdGen m))"
proof (cases "gm_has (cm_subByParam m) param")
  case True
  with assms show ?thesis by (auto simp: Cosmos_Subscribe_def)
next
  case False
  with assms obtain m1 where take: "take_id m = Some (i, m1)"
    and sub: "Cosmos_subscribeWithID lk True i param m1 w = (e, m', w')"
    by (auto simp: Cosmos_Subscribe_def split: option.splits prod.splits)
  obtain a m2 w2 where req: "await lk True i
      (subscription_msg methodSubscribeCosmos (GStr i) (GSlice [GStr param])) m1 w = (a, m2, w2)"
    by (metis surj_pair)
  from sub req have "(e = None \<longrightarrow> m' = mgr_add param i m2) \<and> (e \<noteq> None \<longrightarrow> m' = release i m2)"
    by (cases a) (auto simp: Cosmos_subscribeWithID_def Cosmos_makeRequestWithID_def)
  then show ?thesis
    using take_id_fresh [OF take] await_IdGen [OF req]
    by (auto simp: release_live fun_eq_iff)
qed

lemma Cosmos_Unsubscribe_live:
  assumes "Cosmos_Unsubscribe lk i m w = Some (e, m', w')"
  shows "outstanding (cm_IdGen m') =
    (if e = None then (outstanding (cm_IdGen m))(i := False) else outstanding (cm_IdGen m))"
proof -
  obtain a m1 where req: "Cosmos_MakeRequest lk True (subscription_msg methodUnsubscribeCosmos GNil
      (GSlice [GStr (zero_string (gm_get (cm_subByID m) i))])) m w = Some (a, m1, w')"
    and "(e = None \<longrightarrow> outstanding (cm_IdGen m') = (outstanding (cm_IdGen m1))(i := False))
       \<and> (e \<noteq> None \<longrightarrow> m' = m1)"
    using assms
    by (auto simp: Cosmos_Unsubscribe_def Let_def release_live split: option.splits sum.splits)
  then show ?thesis using Cosmos_MakeRequest_ids(1) [OF req] by simp
qed

interpretation cosmos_pool: id_upstream "Cosmos_pool lk" world_live
proof unfold_locales
  fix k msg r and W W' :: "'a conn_world"
  assume "uc_MakeRequest (Cosmos_pool lk) k msg W = (r, W')"
  then show "world_live W' = world_live W"
    by (auto simp: Cosmos_pool_def conn_at_live dest: Cosmos_MakeRequest_ids(1) split: option.splits)
next
  fix k param i and W W' :: "'a conn_world"
  assume "uc_Subscribe (Cosmos_pool lk) k param W = (Inr i, W')"
  then obtain m w where sub: "Cosmos_Subscribe lk param (conn_at k W) (nw_net W) = Some ((i, None), m, w)"
    and W': "W' = put_conn k m w W"
    by (auto simp: Cosmos_pool_def split: option.splits)
  show "\<not> world_live W i \<and> world_live W' = (world_live W)(i := True)"
    using Cosmos_Subscribe_live [OF sub] by (simp add: W' conn_at_live)
next
  fix k param e and W W' :: "'a conn_world"
  assume "uc_Subscribe (Cosmos_pool lk) k param W = (Inl e, W')"
  then consider "W' = W\<lparr>nw_searching := True\<rparr>"
    | i m w where "Cosmos_Subscribe lk param (conn_at k W) (nw_net W) = Some ((i, Some e), m, w)"
        and "W' = put_conn k m w W"
    by (auto simp: Cosmos_pool_def split: option.splits)
  then show "world_live W' = world_live W"
  proof cases
    case (2 i m w)
    then show ?thesis using Cosmos_Subscribe_live [OF 2(1)] by (simp add: conn_at_live)
  qed simp
next
  fix k i and W W' :: "'a conn_world"
  assume "uc_Unsubscribe (Cosmos_pool lk) k i W = (None, W')"
  then show "world_live W' = (world_live W)(i := False)"
    by (auto simp: Cosmos_pool_def conn_at_live dest: Cosmos_Unsubscribe_live split: option.splits)
next
  fix k i e and W W' :: "'a conn_world"
  assume "uc_Unsubscribe (Cosmos_pool lk) k i W = (Some e, W')"
  then show "world_live W' = world_live W"
    by (auto simp: Cosmos_pool_def conn_at_live dest: Cosmos_Unsubscribe_live split: option.splits)
qed

section \<open>The broker over the pool\<close>

text \<open>
  The steps of the broker and its connections.  A method of the broker runs to its end, which it
  reaches when the search for an id ends; an iteration of \<open>Run\<close> of one connection reads what
  comes; the generator draws and the node changes.  An iteration on a connection that has been
  lost while it carries subscriptions submits them again, which releases their ids
  (\<open>Cosmos_reSubmit_fails\<close>); it is no step here.
\<close>

definition may_run :: "conn_mgr \<Rightarrow> bool" where
  "may_run m \<longleftrightarrow> (client_IsClosed (cm_client m) \<longrightarrow> cm_subByParam m = [])"

inductive pool_step :: "'w link \<Rightarrow> 'cl Broker \<times> 'w conn_world \<Rightarrow> 'cl Broker \<times> 'w conn_world \<Rightarrow> bool"
  for lk where
  subscription: "Broker_HandleSubscription (Cosmos_pool lk) client msg b W = (r, b', W') \<Longrightarrow>
     \<not> nw_searching W' \<Longrightarrow> pool_step lk (b, W) (b', W')"
| request: "Broker_HandleRequest (Cosmos_pool lk) msg b W = (r, b', W') \<Longrightarrow>
     \<not> nw_searching W' \<Longrightarrow> pool_step lk (b, W) (b', W')"
| disconnect: "Broker_onClientDisconnect (Cosmos_pool lk) client b W = (b', W') \<Longrightarrow>
     \<not> nw_searching W' \<Longrightarrow> pool_step lk (b, W) (b', W')"
| run: "may_run (conn_at k W) \<Longrightarrow>
     Cosmos_Run_iteration (broker_callback b) lk received (conn_at k W) (nw_net W) = (Ret e, m, w) \<Longrightarrow>
     pool_step lk (b, W) (b, put_conn k m w W)"
| draw: "pool_step lk (b, W) (b, W\<lparr>nw_draws := draws\<rparr>)"
| node: "pool_step lk (b, W) (b, W\<lparr>nw_net := w\<rparr>)"

definition new_conn_world :: "'w \<Rightarrow> 'w conn_world" where
  "new_conn_world w = \<lparr>nw_IdGen = UniqueID_empty, nw_draws = [], nw_conns = (\<lambda>_. new_conn_mgr []),
     nw_net = w, nw_searching = False\<rparr>"

inductive pool_reach :: "'w link \<Rightarrow> nat \<Rightarrow> 'cl Broker \<times> 'w conn_world \<Rightarrow> bool" for lk n where
  start: "pool_reach lk n (NewBroker n, new_conn_world w)"
| step: "pool_reach lk n s \<Longrightarrow> pool_step lk s s' \<Longrightarrow> pool_reach lk n s'"

lemma answer_chan_frame: "answer_chan i c msg m = (e, m') \<Longrightarrow> cm_IdGen m' = cm_IdGen m"
  by (auto simp: answer_chan_def split: chan.splits)

lemma Cosmos_onUpstreamMessage_frame:
  "Cosmos_onUpstreamMessage cb msg m = (e, m') \<Longrightarrow> cm_IdGen m' = cm_IdGen m"
  by (auto simp: Cosmos_onUpstreamMessage_def on_routed_def dest: answer_chan_frame
      split: outcome.splits routed.splits)

lemma Cosmos_Run_iteration_live:
  assumes "may_run m" and "Cosmos_Run_iteration cb lk received m w = (e, m', w')"
  shows "cm_IdGen m' = cm_IdGen m"
  using assms
  by (auto simp: Cosmos_Run_iteration_def Cosmos_Run_connect_def may_run_def Run_receive_def
      Cosmos_reSubmitSubscriptions_def client_Close_def dest: Cosmos_onUpstreamMessage_frame
      split: if_splits prod.splits option.splits sum.splits)

lemma answer_chan_subs:
  "answer_chan i c msg m = (e, m') \<Longrightarrow> cm_subByID m' = cm_subByID m \<and> cm_subByParam m' = cm_subByParam m"
  by (auto simp: answer_chan_def split: chan.splits)

lemma Cosmos_onUpstreamMessage_subs:
  "Cosmos_onUpstreamMessage cb msg m = (e, m') \<Longrightarrow>
     cm_subByID m' = cm_subByID m \<and> cm_subByParam m' = cm_subByParam m"
  by (auto simp: Cosmos_onUpstreamMessage_def on_routed_def dest: answer_chan_subs
      split: outcome.splits routed.splits)

lemma mgr_inv_Run_iteration:
  assumes "mgr_inv m" and "may_run m" and run: "Cosmos_Run_iteration cb lk received m w = (e, m', w')"
  shows "mgr_inv m'"
proof -
  have "cm_subByID m' = cm_subByID m \<and> cm_subByParam m' = cm_subByParam m"
    using assms(2) run
    by (auto simp: Cosmos_Run_iteration_def Cosmos_Run_connect_def may_run_def Run_receive_def
        Cosmos_reSubmitSubscriptions_def client_Close_def dest: Cosmos_onUpstreamMessage_subs
        split: if_splits prod.splits option.splits sum.splits)
  with assms Cosmos_Run_iteration_live [OF assms(2) run] show ?thesis by (simp add: mgr_inv_def)
qed

text \<open>Submitting again releases the id of the first subscription, which stays in the maps.\<close>

lemma mgr_inv_reSubmit:
  assumes "mgr_inv m" and "cm_subByParam m \<noteq> []"
    and "Cosmos_reSubmitSubscriptions lk m w = (e, m', w')"
  shows "e \<noteq> None \<and> \<not> mgr_inv m'"
proof -
  obtain param i l where l: "cm_subByParam m = (param, i) # l"
    using assms(2) by (metis list.exhaust surj_pair)
  have m': "e \<noteq> None" "cm_subByID m' = cm_subByID m" "\<not> outstanding (cm_IdGen m') i"
    using Cosmos_reSubmit_fails [OF l, of lk w] assms(3) by auto
  have "gm_get (cm_subByParam m) param = Some i" by (simp add: l)
  then have "gm_get (cm_subByID m) i = Some param" using assms(1) unfolding mgr_inv_def by blast
  with m' show ?thesis by (auto simp: mgr_inv_def)
qed

lemma pool_step_broker_step:
  assumes "pool_step lk s s'" and "cosmos_pool.reserved (bk_pool (fst s)) (snd s)"
  shows "broker_step (Cosmos_pool lk) s s' \<and> cosmos_pool.reserved (bk_pool (fst s')) (snd s')"
  using assms
proof (cases rule: pool_step.cases)
  case (subscription client msg b w r b' w')
  then show ?thesis
    using assms(2) cosmos_pool.reserved_fresh [of "bk_pool b" w lk]
      cosmos_pool.reserved_handle [of b w lk client msg r b' w']
    by (auto intro: broker_step.subscription)
next
  case (request msg b w r b' w')
  then show ?thesis
    using assms(2) cosmos_pool.reserved_request [of b w lk msg r b' w']
    by (auto intro: broker_step.request)
next
  case (disconnect client b w b' w')
  then show ?thesis
    using assms(2) cosmos_pool.reserved_disconnect [of b w lk client b' w']
    by (auto intro: broker_step.disconnect)
next
  case (run k W b received e m w)
  have "world_live (put_conn k m w W) = world_live W"
    using Cosmos_Run_iteration_live [OF run(3,4)] by (simp add: conn_at_live)
  then show ?thesis
    using run assms(2) by (simp add: cosmos_pool.reserved_def broker_step.upstream)
qed (use assms(2) in \<open>auto simp: cosmos_pool.reserved_def world_live_def intro: broker_step.upstream\<close>)

lemma pool_reach_broker_reach:
  "pool_reach lk n s \<Longrightarrow>
     broker_reach (Cosmos_pool lk) n s \<and> cosmos_pool.reserved (bk_pool (fst s)) (snd s)"
proof (induction rule: pool_reach.induct)
  case (start w)
  have "cosmos_pool.reserved (bk_pool (NewBroker n)) (new_conn_world w)"
    by (simp add: cosmos_pool.reserved_def NewBroker_def NewUpstreamPool_def)
  then show ?case by (simp add: broker_reach.start)
next
  case (step s s')
  then show ?case using pool_step_broker_step [of lk s s'] by (blast intro: broker_reach.step)
qed

end
