(* ===== verification/BrokerProps.thy ===== *)
theory BrokerProps
  imports UpstreamIface
begin

text \<open>
  The properties of the pool, the broker and the upstream connections.  The concrete runs use a
  node that answers every request with an empty message under its id, and clients that are
  numbers.
\<close>

section \<open>Concrete connections\<close>

definition demo_link :: "nat link" where
  "demo_link = \<lparr>ln_send = (\<lambda>_ w. (None, w)),
     ln_wait = (\<lambda>i w. (Some (zero_msg\<lparr>jm_ID := GStr i\<rparr>), w)),
     ln_dial = (\<lambda>w. (None, Suc w)), ln_close = (\<lambda>w. (None, w))\<rparr>"

definition demo_mgr :: conn_mgr where
  "demo_mgr = (new_conn_mgr [1, 1, 2, 3])\<lparr>cm_client := Some False\<rparr>"

text \<open>A pool whose first connection has dialled, with four draws to come.\<close>

definition demo_world :: "nat conn_world" where
  "demo_world = (let W = (new_conn_world 0)\<lparr>nw_draws := [1, 1, 2, 3]\<rparr>
     in put_conn 0 ((conn_at 0 W)\<lparr>cm_client := Some False\<rparr>) 1 W)"

definition demo_subscribe :: JsonRpcMsg where
  "demo_subscribe = zero_msg\<lparr>jm_Method := ''subscribe'', jm_ID := GInt 5,
     jm_Params := GSlice [GStr ''newBlock'']\<rparr>"

definition demo_broker :: "nat Broker" where
  "demo_broker = fst (snd (Broker_HandleSubscription (Cosmos_pool demo_link) 7 demo_subscribe
     (NewBroker 2) demo_world))"

definition demo_world1 :: "nat conn_world" where
  "demo_world1 = snd (snd (Broker_HandleSubscription (Cosmos_pool demo_link) (7 :: nat) demo_subscribe
     (NewBroker 2) demo_world))"

lemma demo_broker_run:
  "Broker_HandleSubscription (Cosmos_pool demo_link) 7 demo_subscribe (NewBroker 2) demo_world =
     (Ret (Inr (EmptyResult demo_subscribe)), demo_broker, demo_world1)"
proof -
  have "fst (Broker_HandleSubscription (Cosmos_pool demo_link) (7 :: nat) demo_subscribe (NewBroker 2) demo_world)
      = Ret (Inr (EmptyResult demo_subscribe))"
    by code_simp
  then show ?thesis unfolding demo_broker_def demo_world1_def by (simp add: prod_eq_iff)
qed

lemma demo_world_reach: "pool_reach demo_link 2 (NewBroker 2, demo_world)"
proof -
  let ?W = "(new_conn_world 0)\<lparr>nw_draws := [1, 1, 2, 3]\<rparr>"
  have reach: "pool_reach demo_link 2 (NewBroker 2, ?W)"
    by (rule pool_reach.step [OF pool_reach.start pool_step.draw])
  have may: "may_run (conn_at 0 ?W)"
    by (simp add: may_run_def conn_at_def new_conn_world_def new_conn_mgr_def)
  have run: "Cosmos_Run_iteration (broker_callback (NewBroker 2)) demo_link (Inl ErrNotFound) (conn_at 0 ?W) (nw_net ?W)
      = (Ret Unread, (conn_at 0 ?W)\<lparr>cm_client := Some False\<rparr>, 1)"
    by (simp add: Cosmos_Run_iteration_def Cosmos_Run_connect_def Cosmos_reSubmitSubscriptions_def
        Run_receive_def client_IsClosed_def conn_at_def new_conn_world_def new_conn_mgr_def demo_link_def)
  show ?thesis
    unfolding demo_world_def Let_def by (rule pool_reach.step [OF reach pool_step.run [OF may run]])
qed

lemma demo_broker_reach: "pool_reach demo_link 2 (demo_broker, demo_world1)"
proof -
  have "\<not> nw_searching demo_world1" unfolding demo_world1_def by code_simp
  then show ?thesis
    by (rule pool_reach.step [OF demo_world_reach pool_step.subscription [OF demo_broker_run]])
qed

lemma demo_broker_clients: "clients_of (bk_sm demo_broker) ''1'' = [(7, GInt 5)]"
  by code_simp

section \<open>The broker\<close>

text \<open>
  C12: Over a pool of Cosmos connections, in every state the broker reaches by requests,
  subscriptions and disconnections, by its connections dialling, reading and being lost, in any
  order, up to the point where a connection that was lost while it carried subscriptions submits
  them again: the subscription ids and parameters are in one-to-one correspondence, the manager
  and the pool know the same ones, exactly these have an upstream connection, and exactly these
  have a set of clients.
\<close>

theorem cosmos_broker_consistent:
  assumes "pool_reach lk n (b, W)"
  shows "\<forall>param i.
     (SubscriptionManager_GetSubscriptionID param (bk_sm b) = Some i
        \<longleftrightarrow> SubscriptionManager_GetSubscriptionParam i (bk_sm b) = Some param)
   \<and> SubscriptionManager_GetSubscriptionID param (bk_sm b) = gm_get (up_subscriptionID (bk_pool b)) param
   \<and> SubscriptionManager_GetSubscriptionParam i (bk_sm b) = gm_get (up_subscriptionParam (bk_pool b)) i
   \<and> (gm_has (up_subscriptionConn (bk_pool b)) i \<longleftrightarrow> gm_has (up_subscriptionParam (bk_pool b)) i)
   \<and> (gm_has (sm_clientSubscriptions (bk_sm b)) i \<longleftrightarrow> gm_has (up_subscriptionParam (bk_pool b)) i)"
proof -
  have inv: "broker_inv b"
    using pool_reach_broker_reach [OF assms] broker_inv_reach by fastforce
  then have "subs.paired (bk_sm b)" by (simp add: broker_inv_def sm_inv_def)
  note paired = subs.pairedD [OF this]
  have "SubscriptionManager_GetSubscriptionParam i (bk_sm b) = gm_get (up_subscriptionParam (bk_pool b)) i"
    "gm_has (up_subscriptionConn (bk_pool b)) i \<longleftrightarrow> gm_has (up_subscriptionParam (bk_pool b)) i"
    "gm_has (sm_clientSubscriptions (bk_sm b)) i \<longleftrightarrow> gm_has (sm_idToParam (bk_sm b)) i" for i
    using inv unfolding broker_inv_def sm_inv_def pool_inv_def by blast+
  with paired broker_ids_agree [OF inv] show ?thesis
    by (simp add: SubscriptionManager_GetSubscriptionParam_def)
qed

theorem cosmos_broker_consistent_witness:
  "SubscriptionManager_GetSubscriptionID ''newBlock'' (bk_sm demo_broker) = Some ''1''
   \<and> gm_has (up_subscriptionConn (bk_pool demo_broker)) ''1''"
proof -
  have "SubscriptionManager_GetSubscriptionParam ''1'' (bk_sm demo_broker) = Some ''newBlock''"
    by code_simp
  with cosmos_broker_consistent [OF demo_broker_reach, THEN spec, THEN spec, of "''newBlock''" "''1''"]
  show ?thesis by auto
qed

text \<open>
  C13: After a client subscribed with success, each notification of that subscription is sent to
  it under the id of its subscribe request (none for \<open>eth_subscribe\<close>), once; the other clients
  get what they would have got before.
\<close>

theorem broker_subscribe_delivers:
  assumes reach: "broker_reach uc n (b, w)" and fresh: "fresh_ids uc (bk_pool b) w"
    and meth: "jm_Method q = methodSubscribeCosmos \<or> jm_Method q = methodSubscribeEth"
    and param: "getSubscriptionParam q = Ret (Inr param)"
    and run: "Broker_HandleSubscription uc c q b w = (Ret (Inr resp), b', w')"
    and ok: "jm_Error resp = None"
  shows "\<exists>i. SubscriptionManager_GetSubscriptionID param (bk_sm b') = Some i
    \<and> (\<forall>msg. jm_ID msg = GStr i \<longrightarrow> (\<exists>l l0. Broker_onSubscriptionMessage msg b' = Ret l
         \<and> Broker_onSubscriptionMessage msg b = Ret l0 \<and> distinct (map fst l)
         \<and> (c, JsonRpcMsg_CloneWithID (if jm_Method q = methodSubscribeEth then GNil else jm_ID q) msg) \<in> set l
         \<and> (\<forall>c' m. c' \<noteq> c \<longrightarrow> (c', m) \<in> set l \<longleftrightarrow> (c', m) \<in> set l0)))"
proof -
  let ?b = "b\<lparr>bk_callbacks := List.insert c (bk_callbacks b)\<rparr>"
  have inv: "broker_inv b" using broker_inv_reach [OF reach] by simp
  obtain r1 where add: "Broker_addSubscription uc c q ?b w = (r1, b', w')"
    using run meth
    by (auto simp: Broker_HandleSubscription_def Let_def subscription_methods
        split: prod.splits outcome.splits sum.splits)
  have "\<exists>i. r1 = Ret (Inr i)"
    using run meth ok add
    by (auto simp: Broker_HandleSubscription_def Let_def subscription_methods ErrorResponse_def
        split: outcome.splits sum.splits)
  then obtain i where add: "Broker_addSubscription uc c q ?b w = (Ret (Inr i), b', w')"
    using add by blast
  note clients = addSubscription_clients [OF _ _ param add]
  have inv': "broker_inv b'" by (rule broker_inv_handle [OF inv fresh run])
  show ?thesis
  proof (rule exI [of _ i], intro conjI allI impI)
    show "SubscriptionManager_GetSubscriptionID param (bk_sm b') = Some i"
      using clients(1) inv fresh by simp
  next
    fix msg :: JsonRpcMsg assume msg: "jm_ID msg = GStr i"
    let ?x = "if jm_Method q = methodSubscribeEth then GNil else jm_ID q"
    have after: "clients_of (bk_sm b') i = gm_put c ?x (clients_of (bk_sm b) i)"
      using clients(2) [of i] inv fresh by simp
    show "\<exists>l l0. Broker_onSubscriptionMessage msg b' = Ret l
         \<and> Broker_onSubscriptionMessage msg b = Ret l0 \<and> distinct (map fst l)
         \<and> (c, JsonRpcMsg_CloneWithID ?x msg) \<in> set l
         \<and> (\<forall>c' m. c' \<noteq> c \<longrightarrow> (c', m) \<in> set l \<longleftrightarrow> (c', m) \<in> set l0)"
      using delivery_iff [OF inv' msg] delivery_iff [OF inv msg] by (auto simp: after)
  qed
qed

theorem broker_subscribe_delivers_witness:
  "\<exists>i. SubscriptionManager_GetSubscriptionID ''newBlock'' (bk_sm demo_broker) = Some i
    \<and> (\<forall>msg. jm_ID msg = GStr i \<longrightarrow> (\<exists>l. Broker_onSubscriptionMessage msg demo_broker = Ret l
         \<and> (7, JsonRpcMsg_CloneWithID (GInt 5) msg) \<in> set l))"
proof -
  have "jm_Method demo_subscribe = methodSubscribeCosmos" "jm_Method demo_subscribe \<noteq> methodSubscribeEth"
    "getSubscriptionParam demo_subscribe = Ret (Inr ''newBlock'')"
    "jm_Error (EmptyResult demo_subscribe) = None" "jm_ID demo_subscribe = GInt 5"
    by (simp_all add: demo_subscribe_def subscription_methods getSubscriptionParam_def EmptyResult_def zero_msg_def)
  moreover have "fresh_ids (Cosmos_pool demo_link) (bk_pool (NewBroker 2 :: nat Broker)) demo_world"
    by (simp add: fresh_ids_def NewBroker_def NewUpstreamPool_def)
  moreover have "broker_reach (Cosmos_pool demo_link) 2 (NewBroker 2 :: nat Broker, demo_world)"
    by (rule broker_reach.start)
  ultimately show ?thesis
    using broker_subscribe_delivers [OF _ _ _ _ demo_broker_run, of 2 "''newBlock''"] by fastforce
qed

text \<open>
  C14: When a client disconnects and every unsubscription this needs succeeds, no notification is
  sent to it any more, and the other clients get what they got.  When one fails, the client is
  still taken off the subscriptions up to that one, and stays on those behind it.
\<close>

theorem broker_disconnect_silences:
  assumes "broker_reach uc n (b, w)" and "Broker_removeAllSubscriptions uc c b w = (e, b', w')"
  shows "Broker_onClientDisconnect uc c b w = (b', w')
    \<and> (e = None \<longrightarrow> (\<forall>msg i. jm_ID msg = GStr i \<longrightarrow> (\<exists>l l0. Broker_onSubscriptionMessage msg b' = Ret l
         \<and> Broker_onSubscriptionMessage msg b = Ret l0 \<and> c \<notin> fst ` set l
         \<and> (\<forall>c' m. c' \<noteq> c \<longrightarrow> (c', m) \<in> set l \<longleftrightarrow> (c', m) \<in> set l0))))
    \<and> (e \<noteq> None \<longrightarrow> (\<exists>xs i ys. SubscriptionManager_GetSubscriptions c (bk_sm b) = xs @ i # ys
         \<and> (\<forall>j. clients_of (bk_sm b') j =
              (if j \<in> set (xs @ [i]) then gm_del c (clients_of (bk_sm b) j) else clients_of (bk_sm b) j))))"
proof (intro conjI impI allI)
  show "Broker_onClientDisconnect uc c b w = (b', w')"
    using assms(2) by (simp add: Broker_onClientDisconnect_def)
  have inv: "broker_inv b" using broker_inv_reach [OF assms(1)] by simp
  note inv' = broker_inv_disconnect [OF inv \<open>Broker_onClientDisconnect uc c b w = (b', w')\<close>]
  show "\<exists>l l0. Broker_onSubscriptionMessage msg b' = Ret l
     \<and> Broker_onSubscriptionMessage msg b = Ret l0 \<and> c \<notin> fst ` set l
     \<and> (\<forall>c' m. c' \<noteq> c \<longrightarrow> (c', m) \<in> set l \<longleftrightarrow> (c', m) \<in> set l0)"
    if "e = None" and msg: "jm_ID msg = GStr i" for msg i
  proof -
    have "clients_of (bk_sm b') i = gm_del c (clients_of (bk_sm b) i)"
      using disconnect_clients [OF inv] assms(2) \<open>e = None\<close> by simp
    then show ?thesis
      using delivery_iff [OF inv' msg] delivery_iff [OF inv msg] by (fastforce simp: image_iff)
  qed
  show "\<exists>xs i ys. SubscriptionManager_GetSubscriptions c (bk_sm b) = xs @ i # ys
         \<and> (\<forall>j. clients_of (bk_sm b') j =
              (if j \<in> set (xs @ [i]) then gm_del c (clients_of (bk_sm b) j) else clients_of (bk_sm b) j))"
    if "e \<noteq> None"
  proof -
    from that obtain y where "e = Some y" by blast
    then have "remove_each uc c (SubscriptionManager_GetSubscriptions c (bk_sm b)) b w = (Some y, b', w')"
      using assms(2) by (simp add: Broker_removeAllSubscriptions_def)
    from remove_each_stops [OF this] show ?thesis .
  qed
qed

text \<open>The client of the pool's one subscription leaves; the node confirms.\<close>

lemma demo_disconnect:
  "\<exists>b W. Broker_removeAllSubscriptions (Cosmos_pool demo_link) 7 demo_broker demo_world1 = (None, b, W)"
proof -
  have "fst (Broker_removeAllSubscriptions (Cosmos_pool demo_link) 7 demo_broker demo_world1) = None"
    unfolding demo_broker_def demo_world1_def by code_simp
  then show ?thesis by (metis prod.collapse)
qed

theorem broker_disconnect_silences_witness:
  "\<exists>b'. 7 \<in> fst ` set (clients_of (bk_sm demo_broker) ''1'')
     \<and> fst (Broker_onClientDisconnect (Cosmos_pool demo_link) 7 demo_broker demo_world1) = b'
     \<and> (\<forall>msg. jm_ID msg = GStr ''1'' \<longrightarrow>
          (\<exists>l. Broker_onSubscriptionMessage msg b' = Ret l \<and> 7 \<notin> fst ` set l))"
proof -
  obtain b W where run: "Broker_removeAllSubscriptions (Cosmos_pool demo_link) 7 demo_broker demo_world1 = (None, b, W)"
    using demo_disconnect by blast
  have "broker_reach (Cosmos_pool demo_link) 2 (demo_broker, demo_world1)"
    using pool_reach_broker_reach [OF demo_broker_reach] by blast
  from broker_disconnect_silences [OF this run] demo_broker_clients show ?thesis by fastforce
qed

text \<open>An upstream manager that accepts everything, for runs in which no upstream matters.\<close>

definition accepting_upstream :: "unit UpstreamConnManager" where
  "accepting_upstream = \<lparr>uc_MakeRequest = (\<lambda>_ msg w. (Inr msg, w)), uc_Subscribe = (\<lambda>_ p w. (Inr p, w)),
     uc_Unsubscribe = (\<lambda>_ _ w. (None, w))\<rparr>"

end
