(* ===== verification/UpstreamSteps.thy ===== *)
theory UpstreamSteps
  imports UpstreamRequests
begin

text \<open>
  Many calls on one upstream connection at once, with the goroutine of \<open>Run\<close>.  Every access to
  what the goroutines share (the map of the id generator, \<open>respMap\<close>, the channels, the maps of
  the subscriptions, the client) is a step of its own, and the steps of the calls and of \<open>Run\<close>
  come in any order.  Both managers are instances: they differ in where a message goes
  (\<open>Cosmos_route\<close>, \<open>Eth_route\<close>), in what the end of a call does and in how \<open>Run\<close> reconnects.

  A channel is named by the id it was registered under and a number that no other channel has.
  A panic in any goroutine ends the process: \<open>cs_crashed\<close>, after which there is no step.
\<close>

section \<open>State\<close>

datatype manager = Cosmos | Eth

datatype channel = Channel (ch_id: string) (ch_no: nat)

text \<open>What a call was made for; the goroutine of \<open>Run\<close> makes the resubmissions.\<close>

datatype job =
    Request JsonRpcMsg
  | Subscription string
  | Resubmission string
  | Unsubscription string string

text \<open>The accesses that are left after \<open>makeRequestWithID\<close> has returned, in their order.\<close>

datatype shared_op =
    ReleaseID string
  | BindParam string string
  | BindID string string
  | DeleteID string
  | DeleteParam string
  | DeleteSub string

text \<open>
  Where a call is: in the loop of \<open>ID\<close>, before \<open>Store\<close>, with its id, with its channel in
  \<open>respMap\<close>, with its message sent, in \<open>select\<close> on the channel it found in \<open>respMap\<close> (\<open>None\<close> when it
  found none), behind \<open>select\<close> with the answer or the time-out, back from \<open>makeRequestWithID\<close>,
  and with accesses left to do.  A call with none left has returned.
\<close>

datatype phase =
    Choosing
  | Loaded string
  | Owned string
  | Registered string
  | Sent string
  | Selecting string "channel option"
  | Ended string "JsonRpcMsg option"
  | Returned string "err + JsonRpcMsg"
  | Wrapping string "err + JsonRpcMsg" "shared_op list"

text \<open>
  Where the goroutine of \<open>Run\<close> is: at the top of its loop with a message to read, in \<open>wc <- msg\<close>,
  before \<open>close(wc)\<close>, without a connection, with a new one, after \<open>resetAll\<close>, in the loop of
  \<open>reSubmitSubscriptions\<close> (with the parameters left to visit and the call it makes), and where
  that loop has failed.
\<close>

datatype run_at =
    Reading
  | Handing channel JsonRpcMsg
  | Closing channel
  | Away
  | Connected
  | Cleared
  | Resubmitting "(string \<times> string) list" "(job \<times> phase) option"
  | Failing

text \<open>\<open>cs_read\<close> is a history: the messages handled so far.\<close>

record conn_sys =
  cs_gen :: id_gen
  cs_client :: "bool option"
  cs_respMap :: "(string, channel) gomap"
  cs_made :: nat
  cs_closed :: "channel list"
  cs_subByID :: "(string, string) gomap"
  cs_subByParam :: "(string, string) gomap"
  cs_calls :: "(job \<times> phase) list"
  cs_run :: run_at
  cs_read :: "JsonRpcMsg list"
  cs_crashed :: bool

definition new_conn_sys :: "id_gen \<Rightarrow> conn_sys" where
  "new_conn_sys g = \<lparr>cs_gen = g, cs_client = None, cs_respMap = [], cs_made = 0, cs_closed = [],
     cs_subByID = [], cs_subByParam = [], cs_calls = [], cs_run = Away, cs_read = [], cs_crashed = False\<rparr>"

section \<open>A call\<close>

text \<open>The message the call hands to \<open>makeRequestWithID\<close> with its id.\<close>

definition job_request :: "manager \<Rightarrow> job \<Rightarrow> string \<Rightarrow> JsonRpcMsg" where
  "job_request K j i =
     (let subscribe = (\<lambda>param. subscription_msg
        (if K = Cosmos then methodSubscribeCosmos else methodSubscribeEth) (GStr i) (GSlice [GStr param]))
      in case j of
          Request req \<Rightarrow> req
        | Subscription param \<Rightarrow> subscribe param
        | Resubmission param \<Rightarrow> subscribe param
        | Unsubscription subID param \<Rightarrow>
            if K = Cosmos then subscription_msg methodUnsubscribeCosmos GNil (GSlice [GStr param])
            else subscription_msg methodUnsubscribeEth GNil (GStrSlice [subID]))"

definition subscribed :: "manager \<Rightarrow> string \<Rightarrow> string \<Rightarrow> err + JsonRpcMsg \<Rightarrow> shared_op list outcome" where
  "subscribed K i param r = (case r of
      Inl err \<Rightarrow> Ret [ReleaseID i]
    | Inr resp \<Rightarrow>
        if K = Cosmos then Ret [BindParam param i, BindID i param]
        else case jm_Result resp of
            GStr subID \<Rightarrow> Ret [BindParam param subID, BindID subID param, ReleaseID i]
          | _ \<Rightarrow> Panic ''interface conversion'')"

definition unsubscribed :: "manager \<Rightarrow> string \<Rightarrow> string \<Rightarrow> string \<Rightarrow> err + JsonRpcMsg \<Rightarrow> shared_op list" where
  "unsubscribed K i subID param r = ReleaseID i # (case r of
      Inl err \<Rightarrow> []
    | Inr resp \<Rightarrow> if K = Cosmos then [DeleteID subID, DeleteParam param, ReleaseID subID] else [DeleteSub subID])"

definition wrap_up :: "manager \<Rightarrow> job \<Rightarrow> string \<Rightarrow> err + JsonRpcMsg \<Rightarrow> shared_op list outcome" where
  "wrap_up K j i r = (case j of
      Request req \<Rightarrow> Ret [ReleaseID i]
    | Subscription param \<Rightarrow> subscribed K i param r
    | Resubmission param \<Rightarrow> subscribed K i param r
    | Unsubscription subID param \<Rightarrow> Ret (unsubscribed K i subID param r))"

definition do_op :: "shared_op \<Rightarrow> conn_sys \<Rightarrow> conn_sys" where
  "do_op a s = (case a of
      ReleaseID i \<Rightarrow> s\<lparr>cs_gen := UniqueID_Release i (cs_gen s)\<rparr>
    | BindParam param i \<Rightarrow> s\<lparr>cs_subByParam := gm_put param i (cs_subByParam s)\<rparr>
    | BindID i param \<Rightarrow> s\<lparr>cs_subByID := gm_put i param (cs_subByID s)\<rparr>
    | DeleteID i \<Rightarrow> s\<lparr>cs_subByID := gm_del i (cs_subByID s)\<rparr>
    | DeleteParam param \<Rightarrow> s\<lparr>cs_subByParam := gm_del param (cs_subByParam s)\<rparr>
    | DeleteSub i \<Rightarrow> s\<lparr>cs_subByParam := gm_del (zero_string (gm_get (cs_subByID s) i)) (cs_subByParam s),
        cs_subByID := gm_del i (cs_subByID s)\<rparr>)"

text \<open>
  The steps of one call.  A draw that is taken is drawn again, which changes nothing and is no step.
  \<open>select\<close> looks the channel up when the message has been sent; the time-out may come at any time.
\<close>

inductive call_step ::
  "manager \<Rightarrow> job \<Rightarrow> phase \<times> conn_sys \<Rightarrow> phase \<times> conn_sys \<Rightarrow> bool" for K j where
  load: "draw_ok r \<Longrightarrow> \<not> outstanding (cs_gen s) (Itoa r) \<Longrightarrow>
     call_step K j (Choosing, s) (Loaded (Itoa r), s)"
| store: "call_step K j (Loaded i, s) (Owned i, s\<lparr>cs_gen := gm_put i True (cs_gen s)\<rparr>)"
| refused: "K = Eth \<Longrightarrow> client_IsClosed (cs_client s) \<Longrightarrow>
     call_step K j (Owned i, s) (Returned i (Inl ErrClosed), s)"
| register: "K = Eth \<longrightarrow> \<not> client_IsClosed (cs_client s) \<Longrightarrow>
     call_step K j (Owned i, s) (Registered i,
       s\<lparr>cs_respMap := gm_put i (Channel i (cs_made s)) (cs_respMap s), cs_made := cs_made s + 1\<rparr>)"
| send: "\<not> client_IsClosed (cs_client s) \<Longrightarrow> call_step K j (Registered i, s) (Sent i, s)"
| send_fails: "call_step K j (Registered i, s) (Returned i (Inl err), s)"
| select: "call_step K j (Sent i, s) (Selecting i (gm_get (cs_respMap s) i), s)"
| timeout: "call_step K j (Selecting i c, s) (Ended i None, s)"
| answered: "call_step K j (Ended i (Some response), s)
     (Returned i (Inr (response\<lparr>jm_ID := jm_ID (job_request K j i)\<rparr>)),
      s\<lparr>cs_respMap := gm_del i (cs_respMap s)\<rparr>)"
| gave_up: "call_step K j (Ended i None, s)
     (Returned i (Inl (ErrText ''timeout waiting for response for request'')),
      s\<lparr>cs_respMap := gm_del i (cs_respMap s)\<rparr>)"
| back_from: "wrap_up K j i r = Ret ops \<Longrightarrow> call_step K j (Returned i r, s) (Wrapping i r ops, s)"
| wrapping: "call_step K j (Wrapping i r (a # ops), s) (Wrapping i r ops, do_op a s)"

section \<open>The connection\<close>

definition own_call :: "run_at \<Rightarrow> (job \<times> phase) list" where
  "own_call r = (case r of Resubmitting ps (Some c) \<Rightarrow> [c] | _ \<Rightarrow> [])"

definition flights :: "conn_sys \<Rightarrow> (job \<times> phase) list" where
  "flights s = cs_calls s @ own_call (cs_run s)"

definition route_of ::
  "manager \<Rightarrow> JsonRpcMsg \<Rightarrow> (string, 'c) gomap \<Rightarrow> (string, string) gomap \<Rightarrow> 'c routed outcome" where
  "route_of K = (case K of Cosmos \<Rightarrow> Cosmos_route | Eth \<Rightarrow> Eth_route)"

text \<open>What \<open>onUpstreamMessage\<close> does up to the point where it would wait for a requester.\<close>

definition on_message :: "manager \<Rightarrow> on_subscription \<Rightarrow> JsonRpcMsg \<Rightarrow> conn_sys \<Rightarrow> run_at outcome" where
  "on_message K onSubscriptionMessage msg s =
     (case route_of K msg (cs_respMap s) (cs_subByID s) of
        Panic e \<Rightarrow> Panic e
      | Ret (ToRequest i wc) \<Rightarrow>
          if wc \<in> set (cs_closed s) then Panic ''send on closed channel'' else Ret (Handing wc msg)
      | Ret (ToSubscription n) \<Rightarrow> bind_o (onSubscriptionMessage n) (\<lambda>_. Ret Reading)
      | Ret Drop \<Rightarrow> Ret Reading)"

text \<open>
  The steps of the connection.  The generator is shared with the other connections, which change
  it (\<open>others\<close>); the callback is the broker's, in whatever state it is.  A requester that receives
  on a closed channel gets nil, and its next statement dereferences it.
\<close>

inductive conn_step :: "manager \<Rightarrow> conn_sys \<Rightarrow> conn_sys \<Rightarrow> bool" for K where
  request: "\<not> cs_crashed s \<Longrightarrow>
     conn_step K s (s\<lparr>cs_calls := (Request req, Choosing) # cs_calls s\<rparr>)"
| subscribe: "\<not> cs_crashed s \<Longrightarrow> \<not> gm_has (cs_subByParam s) param \<Longrightarrow>
     conn_step K s (s\<lparr>cs_calls := (Subscription param, Choosing) # cs_calls s\<rparr>)"
| unsubscribe: "\<not> cs_crashed s \<Longrightarrow> conn_step K s
     (s\<lparr>cs_calls := (Unsubscription i (zero_string (gm_get (cs_subByID s) i)), Choosing) # cs_calls s\<rparr>)"
| call: "\<not> cs_crashed s \<Longrightarrow> cs_calls s = xs @ (j, p) # ys \<Longrightarrow> call_step K j (p, s) (p', s1) \<Longrightarrow>
     conn_step K s (s1\<lparr>cs_calls := xs @ (j, p') # ys\<rparr>)"
| resubmission: "\<not> cs_crashed s \<Longrightarrow> cs_run s = Resubmitting ps (Some (j, p)) \<Longrightarrow>
     call_step K j (p, s) (p', s1) \<Longrightarrow> conn_step K s (s1\<lparr>cs_run := Resubmitting ps (Some (j, p'))\<rparr>)"
| nil_answer: "\<not> cs_crashed s \<Longrightarrow> (j, Selecting i (Some c)) \<in> set (flights s) \<Longrightarrow> c \<in> set (cs_closed s) \<Longrightarrow>
     conn_step K s (s\<lparr>cs_crashed := True\<rparr>)"
| bad_result: "\<not> cs_crashed s \<Longrightarrow> (j, Returned i r) \<in> set (flights s) \<Longrightarrow> wrap_up K j i r = Panic e \<Longrightarrow>
     conn_step K s (s\<lparr>cs_crashed := True\<rparr>)"
| others: "\<not> cs_crashed s \<Longrightarrow> conn_step K s (s\<lparr>cs_gen := g\<rparr>)"
| read: "\<not> cs_crashed s \<Longrightarrow> cs_run s = Reading \<Longrightarrow> on_message K onsub msg s = Ret r \<Longrightarrow>
     conn_step K s (s\<lparr>cs_run := r, cs_read := msg # cs_read s\<rparr>)"
| read_panics: "\<not> cs_crashed s \<Longrightarrow> cs_run s = Reading \<Longrightarrow> on_message K onsub msg s = Panic e \<Longrightarrow>
     conn_step K s (s\<lparr>cs_crashed := True\<rparr>)"
| deliver: "\<not> cs_crashed s \<Longrightarrow> cs_run s = Handing c msg \<Longrightarrow>
     cs_calls s = xs @ (j, Selecting i (Some c)) # ys \<Longrightarrow>
     conn_step K s (s\<lparr>cs_run := Closing c, cs_calls := xs @ (j, Ended i (Some msg)) # ys\<rparr>)"
| close: "\<not> cs_crashed s \<Longrightarrow> cs_run s = Closing c \<Longrightarrow>
     conn_step K s (s\<lparr>cs_run := Reading, cs_closed := c # cs_closed s\<rparr>)"
| lost: "\<not> cs_crashed s \<Longrightarrow> cs_run s = Reading \<Longrightarrow> conn_step K s (s\<lparr>cs_client := Some True\<rparr>)"
| leave: "\<not> cs_crashed s \<Longrightarrow> cs_run s = Reading \<Longrightarrow> client_IsClosed (cs_client s) \<Longrightarrow>
     conn_step K s (s\<lparr>cs_run := Away\<rparr>)"
| connect: "\<not> cs_crashed s \<Longrightarrow> cs_run s = Away \<Longrightarrow>
     conn_step K s (s\<lparr>cs_client := Some False, cs_run := Connected\<rparr>)"
| reset: "\<not> cs_crashed s \<Longrightarrow> K = Eth \<Longrightarrow> cs_run s = Connected \<Longrightarrow>
     conn_step K s (s\<lparr>cs_subByParam := [], cs_subByID := [], cs_respMap := [], cs_run := Cleared\<rparr>)"
| range: "\<not> cs_crashed s \<Longrightarrow> cs_run s = (if K = Cosmos then Connected else Cleared) \<Longrightarrow>
     conn_step K s (s\<lparr>cs_run := Resubmitting (cs_subByParam s) None\<rparr>)"
| next_removed: "\<not> cs_crashed s \<Longrightarrow> cs_run s = Resubmitting ((param, i) # ps) None \<Longrightarrow>
     \<not> gm_has (cs_subByParam s) param \<Longrightarrow> conn_step K s (s\<lparr>cs_run := Resubmitting ps None\<rparr>)"
| next_Cosmos: "\<not> cs_crashed s \<Longrightarrow> K = Cosmos \<Longrightarrow> cs_run s = Resubmitting ((param, i) # ps) None \<Longrightarrow>
     gm_get (cs_subByParam s) param = Some k \<Longrightarrow>
     conn_step K s (s\<lparr>cs_run := Resubmitting ps (Some (Resubmission param, Owned k))\<rparr>)"
| next_Eth: "\<not> cs_crashed s \<Longrightarrow> K = Eth \<Longrightarrow> cs_run s = Resubmitting ((param, i) # ps) None \<Longrightarrow>
     \<not> gm_has (cs_subByParam s) param \<Longrightarrow>
     conn_step K s (s\<lparr>cs_run := Resubmitting ps (Some (Resubmission param, Choosing))\<rparr>)"
| next_exists: "\<not> cs_crashed s \<Longrightarrow> K = Eth \<Longrightarrow> cs_run s = Resubmitting ((param, i) # ps) None \<Longrightarrow>
     gm_has (cs_subByParam s) param \<Longrightarrow> conn_step K s (s\<lparr>cs_run := Failing\<rparr>)"
| next_ok: "\<not> cs_crashed s \<Longrightarrow> cs_run s = Resubmitting ps (Some (j, Wrapping i (Inr r) [])) \<Longrightarrow>
     conn_step K s (s\<lparr>cs_run := Resubmitting ps None\<rparr>)"
| next_failed: "\<not> cs_crashed s \<Longrightarrow> cs_run s = Resubmitting ps (Some (j, Wrapping i (Inl err) [])) \<Longrightarrow>
     conn_step K s (s\<lparr>cs_run := Failing\<rparr>)"
| give_up: "\<not> cs_crashed s \<Longrightarrow> cs_run s = Failing \<Longrightarrow>
     conn_step K s (s\<lparr>cs_client := Some True, cs_run := Away\<rparr>)"
| stay_open: "\<not> cs_crashed s \<Longrightarrow> cs_run s = Failing \<Longrightarrow> conn_step K s (s\<lparr>cs_run := Reading\<rparr>)"
| ready: "\<not> cs_crashed s \<Longrightarrow> cs_run s = Resubmitting [] None \<Longrightarrow> conn_step K s (s\<lparr>cs_run := Reading\<rparr>)"

inductive conn_reach :: "manager \<Rightarrow> conn_sys \<Rightarrow> bool" for K where
  start: "conn_reach K (new_conn_sys g)"
| step: "conn_reach K s \<Longrightarrow> conn_step K s s' \<Longrightarrow> conn_reach K s'"

inductive_cases call_stepE: "call_step K j (p, s) (p', s')"

section \<open>What the steps of a call leave alone\<close>

lemma do_op_frame [simp]:
  "cs_calls (do_op a s) = cs_calls s" "cs_run (do_op a s) = cs_run s" "cs_read (do_op a s) = cs_read s"
  "cs_closed (do_op a s) = cs_closed s" "cs_respMap (do_op a s) = cs_respMap s"
  "cs_made (do_op a s) = cs_made s" "cs_crashed (do_op a s) = cs_crashed s"
  by (simp_all add: do_op_def split: shared_op.splits)

lemma call_step_frame:
  assumes "call_step K j (p, s) (p', s')"
  shows "cs_calls s' = cs_calls s" and "cs_run s' = cs_run s" and "cs_read s' = cs_read s"
    and "cs_closed s' = cs_closed s" and "cs_crashed s' = cs_crashed s"
  using assms by (cases rule: call_step.cases; simp)+

text \<open>
  The three ways a call touches \<open>respMap\<close>: not at all, registering a new channel under its id, or
  deleting the entry of its id.
\<close>

lemma call_step_respMap:
  assumes "call_step K j (p, s) (p', s')"
  obtains (same) "cs_respMap s' = cs_respMap s" "cs_made s' = cs_made s"
      "\<And>i c. p' = Selecting i (Some c) \<Longrightarrow> gm_get (cs_respMap s) i = Some c"
      "\<And>i a. p \<noteq> Ended i a"
  | (register) i where "p = Owned i" "p' = Registered i" "cs_made s' = cs_made s + 1"
      "cs_respMap s' = gm_put i (Channel i (cs_made s)) (cs_respMap s)"
  | (delete) i a r where "p = Ended i a" "p' = Returned i r"
      "cs_respMap s' = gm_del i (cs_respMap s)" "cs_made s' = cs_made s"
  | (timeout) i c where "p = Selecting i c" "p' = Ended i None"
      "cs_respMap s' = cs_respMap s" "cs_made s' = cs_made s"
  using assms by (cases rule: call_step.cases) simp_all

section \<open>Channels belong to their id\<close>

definition channel_ok :: "nat \<Rightarrow> string \<Rightarrow> channel \<Rightarrow> bool" where
  "channel_ok n i c \<longleftrightarrow> ch_id c = i \<and> ch_no c < n"

definition phase_ok :: "nat \<Rightarrow> phase \<Rightarrow> bool" where
  "phase_ok n p \<longleftrightarrow> (\<forall>i c. p = Selecting i (Some c) \<longrightarrow> channel_ok n i c)"

text \<open>The loop holds a message only for the channel of its id, and only one that is open.\<close>

definition run_ok :: "conn_sys \<Rightarrow> bool" where
  "run_ok s = (case cs_run s of
      Handing c msg \<Rightarrow> msg_id_string (jm_ID msg) = Some (ch_id c) \<and> ch_no c < cs_made s \<and> c \<notin> set (cs_closed s)
    | Closing c \<Rightarrow> ch_no c < cs_made s
    | _ \<Rightarrow> True)"

definition channels_inv :: "conn_sys \<Rightarrow> bool" where
  "channels_inv s \<longleftrightarrow> (\<forall>i c. gm_get (cs_respMap s) i = Some c \<longrightarrow> channel_ok (cs_made s) i c)
     \<and> (\<forall>x\<in>set (flights s). phase_ok (cs_made s) (snd x))
     \<and> (\<forall>c\<in>set (cs_closed s). ch_no c < cs_made s) \<and> run_ok s"

lemma channel_ok_mono: "channel_ok n i c \<Longrightarrow> n \<le> n' \<Longrightarrow> channel_ok n' i c"
  by (simp add: channel_ok_def)

lemma phase_ok_mono: "phase_ok n p \<Longrightarrow> n \<le> n' \<Longrightarrow> phase_ok n' p"
  by (auto simp: phase_ok_def intro: channel_ok_mono)

lemma call_step_channels:
  assumes "call_step K j (p, s) (p', s')"
    and "\<forall>i c. gm_get (cs_respMap s) i = Some c \<longrightarrow> channel_ok (cs_made s) i c" and "phase_ok (cs_made s) p"
  shows "(\<forall>i c. gm_get (cs_respMap s') i = Some c \<longrightarrow> channel_ok (cs_made s') i c)
    \<and> phase_ok (cs_made s') p' \<and> cs_made s \<le> cs_made s'"
  using assms(1)
proof (cases rule: call_step_respMap)
  case same
  then show ?thesis using assms(2) by (auto simp: phase_ok_def)
next
  case (register i)
  then show ?thesis using assms(2) by (auto simp: phase_ok_def channel_ok_def dest: less_SucI)
next
  case (delete i a r)
  then show ?thesis using assms(2) by (simp add: phase_ok_def)
next
  case (timeout i c)
  then show ?thesis using assms(2) by (simp add: phase_ok_def)
qed

lemma route_of_request:
  "route_of K msg resp subs = Ret (ToRequest i c) \<longleftrightarrow>
     msg_id_string (jm_ID msg) = Some i \<and> gm_get resp i = Some c"
  by (cases K) (simp_all add: route_of_def cosmos.to_request_iff eth.to_request_iff)

lemma on_message_cases:
  assumes "on_message K onsub msg s = Ret r"
  shows "r = Reading \<or> (\<exists>i c. r = Handing c msg \<and> msg_id_string (jm_ID msg) = Some i
    \<and> gm_get (cs_respMap s) i = Some c \<and> c \<notin> set (cs_closed s))"
  using assms
  by (auto simp: on_message_def route_of_request bind_o_Ret_iff split: outcome.splits routed.splits if_splits)

lemma own_call_simps [simp]:
  "own_call Reading = []" "own_call (Handing c msg) = []" "own_call (Closing c) = []"
  "own_call Away = []" "own_call Connected = []" "own_call Cleared = []" "own_call Failing = []"
  "own_call (Resubmitting ps None) = []" "own_call (Resubmitting ps (Some x)) = [x]"
  by (simp_all add: own_call_def)

lemma run_ok_frame [simp]:
  "run_ok (s\<lparr>cs_calls := l\<rparr>) = run_ok s" "run_ok (s\<lparr>cs_gen := g\<rparr>) = run_ok s"
  "run_ok (s\<lparr>cs_client := cl\<rparr>) = run_ok s" "run_ok (s\<lparr>cs_crashed := cr\<rparr>) = run_ok s"
  by (simp_all add: run_ok_def split: run_at.split)

lemma channels_inv_new: "channels_inv (new_conn_sys g)"
  by (simp add: channels_inv_def new_conn_sys_def flights_def run_ok_def)

lemma channels_inv_call:
  assumes inv: "channels_inv s" and calls: "cs_calls s = xs @ (j, p) # ys"
    and run: "call_step K j (p, s) (p', s1)"
  shows "channels_inv (s1\<lparr>cs_calls := xs @ (j, p') # ys\<rparr>)"
proof -
  note frame = call_step_frame [OF run]
  have resp: "\<forall>i c. gm_get (cs_respMap s) i = Some c \<longrightarrow> channel_ok (cs_made s) i c" "phase_ok (cs_made s) p"
    using inv by (auto simp: channels_inv_def flights_def calls)
  note step = call_step_channels [OF run resp, THEN conjunct1] call_step_channels [OF run resp, THEN conjunct2, THEN conjunct1]
    call_step_channels [OF run resp, THEN conjunct2, THEN conjunct2]
  have "\<forall>x\<in>set (flights s). phase_ok (cs_made s1) (snd x)"
    using inv step(3) by (auto simp: channels_inv_def intro: phase_ok_mono)
  moreover have "\<forall>c\<in>set (cs_closed s). ch_no c < cs_made s1" "run_ok s1"
    using inv step(3) by (auto simp: channels_inv_def run_ok_def frame split: run_at.splits)
  ultimately show ?thesis
    using step(1,2) by (auto simp: channels_inv_def flights_def calls frame)
qed

lemma channels_inv_resubmission:
  assumes inv: "channels_inv s" and own: "cs_run s = Resubmitting ps (Some (j, p))"
    and run: "call_step K j (p, s) (p', s1)"
  shows "channels_inv (s1\<lparr>cs_run := Resubmitting ps (Some (j, p'))\<rparr>)"
proof -
  note frame = call_step_frame [OF run]
  have resp: "\<forall>i c. gm_get (cs_respMap s) i = Some c \<longrightarrow> channel_ok (cs_made s) i c" "phase_ok (cs_made s) p"
    using inv by (auto simp: channels_inv_def flights_def own)
  note step = call_step_channels [OF run resp, THEN conjunct1] call_step_channels [OF run resp, THEN conjunct2, THEN conjunct1]
    call_step_channels [OF run resp, THEN conjunct2, THEN conjunct2]
  have "\<forall>x\<in>set (flights s). phase_ok (cs_made s1) (snd x)"
    using inv step(3) by (auto simp: channels_inv_def intro: phase_ok_mono)
  moreover have "\<forall>c\<in>set (cs_closed s). ch_no c < cs_made s1"
    using inv step(3) by (auto simp: channels_inv_def)
  ultimately show ?thesis
    using step(1,2) by (auto simp: channels_inv_def flights_def own frame run_ok_def)
qed

lemma channels_inv_step:
  assumes "conn_step K s s'" and "channels_inv s"
  shows "channels_inv s'"
  using assms
proof (cases rule: conn_step.cases)
  case (call xs j p ys p' s1)
  then show ?thesis using channels_inv_call [OF assms(2)] by simp
next
  case (resubmission ps j p p' s1)
  then show ?thesis using channels_inv_resubmission [OF assms(2)] by simp
next
  case (read onsub msg r)
  then show ?thesis
    using on_message_cases [OF read(4)] assms(2)
    by (elim disjE exE)
      (auto simp: channels_inv_def flights_def run_ok_def channel_ok_def prod_eq_iff dest!: spec)
qed (auto simp: channels_inv_def flights_def phase_ok_def, auto simp: run_ok_def)

lemma channels_inv_reach: "conn_reach K s \<Longrightarrow> channels_inv s"
  by (induction rule: conn_reach.induct) (blast intro: channels_inv_new channels_inv_step)+

section \<open>Every message goes to one call of its id\<close>

text \<open>
  \<open>erase\<close> is the content of a message without its id, \<open>stamp\<close> the content with the id it came
  under; \<open>answer_of\<close> is what a call has got: the id it waited under and the content.
\<close>

definition erase :: "JsonRpcMsg \<Rightarrow> JsonRpcMsg" where
  "erase msg = msg\<lparr>jm_ID := GNil\<rparr>"

definition stamp :: "JsonRpcMsg \<Rightarrow> string option \<times> JsonRpcMsg" where
  "stamp msg = (msg_id_string (jm_ID msg), erase msg)"

fun answer_of :: "phase \<Rightarrow> (string option \<times> JsonRpcMsg) list" where
  "answer_of (Ended i (Some msg)) = [(Some i, erase msg)]"
| "answer_of (Returned i (Inr resp)) = [(Some i, erase resp)]"
| "answer_of (Wrapping i (Inr resp) ops) = [(Some i, erase resp)]"
| "answer_of _ = []"

definition answers :: "conn_sys \<Rightarrow> (string option \<times> JsonRpcMsg) list" where
  "answers s = concat (map (\<lambda>(j, p). answer_of p) (cs_calls s))"

definition in_hand :: "run_at \<Rightarrow> (string option \<times> JsonRpcMsg) list" where
  "in_hand r = (case r of Handing c msg \<Rightarrow> [stamp msg] | _ \<Rightarrow> [])"

definition answers_inv :: "conn_sys \<Rightarrow> bool" where
  "answers_inv s \<longleftrightarrow> mset (answers s) + mset (in_hand (cs_run s)) \<subseteq># mset (map stamp (cs_read s))"

lemma in_hand_simps [simp]:
  "in_hand Reading = []" "in_hand (Handing c msg) = [stamp msg]" "in_hand (Closing c) = []"
  "in_hand Away = []" "in_hand Connected = []" "in_hand Cleared = []" "in_hand Failing = []"
  "in_hand (Resubmitting ps cl) = []"
  by (simp_all add: in_hand_def)

lemma erase_id [simp]: "erase (msg\<lparr>jm_ID := i\<rparr>) = erase msg"
  by (simp add: erase_def)

lemma call_step_answer_of:
  assumes "call_step K j (p, s) (p', s')"
  shows "answer_of p' = answer_of p"
  using assms
proof (cases rule: call_step.cases)
  case (back_from i r ops)
  then show ?thesis by (cases r) simp_all
next
  case (wrapping i r a ops)
  then show ?thesis by (cases r) simp_all
qed simp_all

lemma answers_inv_read:
  "answers_inv s \<Longrightarrow> cs_run s = Reading \<Longrightarrow> r = Reading \<or> (\<exists>c. r = Handing c msg) \<Longrightarrow>
     answers_inv (s\<lparr>cs_run := r, cs_read := msg # cs_read s\<rparr>)"
  unfolding answers_inv_def answers_def
  by (auto intro: subset_mset.order_trans mset_subset_eq_add_right)

lemma answers_inv_deliver:
  assumes "answers_inv s" and "cs_run s = Handing c msg" and "cs_calls s = xs @ (j, Selecting i (Some c)) # ys"
    and "msg_id_string (jm_ID msg) = Some i"
  shows "answers_inv (s\<lparr>cs_run := Closing c, cs_calls := xs @ (j, Ended i (Some msg)) # ys\<rparr>)"
  using assms by (simp add: answers_inv_def answers_def stamp_def)

lemma answers_inv_step:
  assumes "conn_step K s s'" and "answers_inv s" and inv: "channels_inv s"
  shows "answers_inv s'"
  using assms(1,2)
proof (cases rule: conn_step.cases)
  case (call xs j p ys p' s1)
  then show ?thesis
    using assms(2) call_step_frame [OF call(4)] call_step_answer_of [OF call(4)]
    by (simp add: answers_inv_def answers_def)
next
  case (resubmission ps j p p' s1)
  then show ?thesis
    using assms(2) call_step_frame [OF resubmission(4)] by (simp add: answers_inv_def answers_def)
next
  case (read onsub msg r)
  then show ?thesis
    using answers_inv_read [OF assms(2), of r msg] on_message_cases [OF read(4)] by auto
next
  case (deliver c msg xs j i ys)
  have "channel_ok (cs_made s) i c" "msg_id_string (jm_ID msg) = Some (ch_id c)"
    using inv deliver by (auto simp: channels_inv_def flights_def phase_ok_def run_ok_def)
  then show ?thesis
    using answers_inv_deliver [OF assms(2) deliver(3,4)] deliver(1) by (simp add: channel_ok_def)
qed (auto simp: answers_inv_def answers_def split: if_splits)

lemma answers_inv_reach: "conn_reach K s \<Longrightarrow> answers_inv s"
proof (induction rule: conn_reach.induct)
  case (start g)
  show ?case by (simp add: answers_inv_def answers_def new_conn_sys_def)
next
  case (step s s')
  then show ?case using answers_inv_step channels_inv_reach by blast
qed

text \<open>The caller gets the id it asked with.\<close>

fun restored :: "manager \<Rightarrow> job \<Rightarrow> phase \<Rightarrow> bool" where
  "restored K j (Returned i (Inr resp)) \<longleftrightarrow> jm_ID resp = jm_ID (job_request K j i)"
| "restored K j (Wrapping i (Inr resp) ops) \<longleftrightarrow> jm_ID resp = jm_ID (job_request K j i)"
| "restored K j _ \<longleftrightarrow> True"

lemma call_step_restored:
  assumes "call_step K j (p, s) (p', s')" and "restored K j p"
  shows "restored K j p'"
  using assms
proof (cases rule: call_step.cases)
  case (back_from i r ops)
  with assms(2) show ?thesis by (cases r) simp_all
next
  case (wrapping i r a ops)
  with assms(2) show ?thesis by (cases r) simp_all
qed simp_all

lemma restored_step:
  assumes "conn_step K s s'" and "\<forall>(j, p)\<in>set (cs_calls s). restored K j p"
  shows "\<forall>(j, p)\<in>set (cs_calls s'). restored K j p"
  using assms
proof (cases rule: conn_step.cases)
  case (call xs j p ys p' s1)
  then show ?thesis using assms(2) call_step_restored [OF call(4)] by auto
next
  case (resubmission ps j p p' s1)
  then show ?thesis using assms(2) call_step_frame [OF resubmission(4)] by simp
qed auto

lemma restored_reach: "conn_reach K s \<Longrightarrow> \<forall>(j, p)\<in>set (cs_calls s). restored K j p"
proof (induction rule: conn_reach.induct)
  case (start g)
  show ?case by (simp add: new_conn_sys_def)
next
  case (step s s')
  then show ?case using restored_step by blast
qed

section \<open>Closed channels\<close>

text \<open>
  A closed channel is still bound only as long as a call that has been answered has not deleted
  the entry.
\<close>

definition answered_under :: "string \<Rightarrow> conn_sys \<Rightarrow> bool" where
  "answered_under i s \<longleftrightarrow> (\<exists>j a. (j, Ended i (Some a)) \<in> set (cs_calls s))"

definition closed_inv :: "conn_sys \<Rightarrow> bool" where
  "closed_inv s \<longleftrightarrow> (\<forall>i c. gm_get (cs_respMap s) i = Some c \<longrightarrow>
     c \<in> set (cs_closed s) \<or> cs_run s = Closing c \<longrightarrow> answered_under i s)"

lemma closed_inv_call:
  assumes inv: "closed_inv s" "channels_inv s" and calls: "cs_calls s = xs @ (j, p) # ys"
    and run: "call_step K j (p, s) (p', s1)"
  shows "closed_inv (s1\<lparr>cs_calls := xs @ (j, p') # ys\<rparr>)"
proof -
  let ?s = "s1\<lparr>cs_calls := xs @ (j, p') # ys\<rparr>"
  note frame = call_step_frame [OF run]
  have made: "\<forall>c\<in>set (cs_closed s). ch_no c < cs_made s" "\<And>c. cs_run s = Closing c \<Longrightarrow> ch_no c < cs_made s"
    using inv(2) by (auto simp: channels_inv_def run_ok_def)
  have other: "answered_under k ?s" if "answered_under k s" "\<And>a. p \<noteq> Ended k (Some a)" for k
    using that by (auto simp: answered_under_def calls)
  show ?thesis
    using run
  proof (cases rule: call_step_respMap)
    case same
    then show ?thesis using inv(1) other by (auto simp: closed_inv_def frame)
  next
    case (register i)
    then show ?thesis using inv(1) other made by (auto simp: closed_inv_def frame)
  next
    case (delete i a r)
    then show ?thesis using inv(1) other by (auto simp: closed_inv_def frame)
  next
    case (timeout i c)
    then show ?thesis using inv(1) other by (auto simp: closed_inv_def frame)
  qed
qed

lemma closed_inv_resubmission:
  assumes inv: "closed_inv s" "channels_inv s" and own: "cs_run s = Resubmitting ps (Some (j, p))"
    and run: "call_step K j (p, s) (p', s1)"
  shows "closed_inv (s1\<lparr>cs_run := Resubmitting ps (Some (j, p'))\<rparr>)"
proof -
  note frame = call_step_frame [OF run]
  have made: "\<forall>c\<in>set (cs_closed s). ch_no c < cs_made s"
    using inv(2) by (auto simp: channels_inv_def)
  show ?thesis
    using run
    by (cases rule: call_step_respMap)
      (use inv(1) made in \<open>auto simp: closed_inv_def answered_under_def frame\<close>)
qed

lemma closed_inv_step:
  assumes "conn_step K s s'" and inv: "closed_inv s" "channels_inv s"
  shows "closed_inv s'"
  using assms(1)
proof (cases rule: conn_step.cases)
  case (call xs j p ys p' s1)
  then show ?thesis using closed_inv_call [OF inv] by simp
next
  case (resubmission ps j p p' s1)
  then show ?thesis using closed_inv_resubmission [OF inv] by simp
next
  case (read onsub msg r)
  then show ?thesis
    using inv(1) on_message_cases [OF read(4)] by (auto simp: closed_inv_def answered_under_def)
next
  case (deliver c msg xs j i ys)
  have "ch_id c = i" using inv(2) deliver by (auto simp: channels_inv_def flights_def phase_ok_def channel_ok_def)
  moreover have "\<forall>k d. gm_get (cs_respMap s) k = Some d \<longrightarrow> ch_id d = k"
    using inv(2) by (auto simp: channels_inv_def channel_ok_def)
  ultimately show ?thesis
    using inv(1) deliver by (fastforce simp: closed_inv_def answered_under_def)
qed (use inv(1) in \<open>auto simp: closed_inv_def answered_under_def\<close>)

lemma closed_inv_reach: "conn_reach K s \<Longrightarrow> closed_inv s"
proof (induction rule: conn_reach.induct)
  case (start g)
  show ?case by (simp add: closed_inv_def new_conn_sys_def)
next
  case (step s s')
  then show ?case using closed_inv_step channels_inv_reach by blast
qed

section \<open>What the reader panics on\<close>

lemma Cosmos_on_message_panics:
  "(\<exists>p. on_message Cosmos (broker_callback b) msg s = Panic p) \<longleftrightarrow>
      (\<exists>i. msg_id_string (jm_ID msg) = Some i
         \<and> ((\<exists>c. gm_get (cs_respMap s) i = Some c \<and> c \<in> set (cs_closed s))
            \<or> (gm_get (cs_respMap s) i = None \<and> gm_has (cs_subByID s) i \<and> (\<exists>n. jm_ID msg = GInt n))))"
proof (cases "route_of Cosmos msg (cs_respMap s) (cs_subByID s)")
  case (Panic p)
  then show ?thesis by (simp add: route_of_def Cosmos_route_no_panic)
next
  case (Ret r)
  have int: "(\<nexists>k. jm_ID msg = GStr k) \<longleftrightarrow> (\<exists>n. jm_ID msg = GInt n)"
    if "msg_id_string (jm_ID msg) = Some i" for i
    using that by (auto simp: msg_id_string_def split: any.splits)
  have nowhere: "r = Drop \<Longrightarrow> msg_id_string (jm_ID msg) = Some i \<Longrightarrow>
      gm_get (cs_respMap s) i = None \<and> \<not> gm_has (cs_subByID s) i" for i
    using Ret by (auto simp: route_of_def Cosmos_route_def dest: msg_id_not_nil split: if_splits option.splits)
  show ?thesis
  proof (cases r)
    case (ToRequest i c)
    with Ret have "msg_id_string (jm_ID msg) = Some i" "gm_get (cs_respMap s) i = Some c"
      by (simp_all add: route_of_request)
    with Ret ToRequest show ?thesis by (simp add: on_message_def)
  next
    case (ToSubscription n)
    with Ret obtain i where i: "n = msg" "msg_id_string (jm_ID msg) = Some i"
      "gm_get (cs_respMap s) i = None" "gm_has (cs_subByID s) i"
      by (auto simp: route_of_def Cosmos_route_subscription)
    have "(\<exists>p. on_message Cosmos (broker_callback b) msg s = Panic p) \<longleftrightarrow> (\<exists>p. broker_callback b msg = Panic p)"
      using Ret ToSubscription i(1)
      by (cases "broker_callback b msg") (simp_all add: on_message_def)
    with i int show ?thesis by (simp add: broker_callback_panics)
  next
    case Drop
    with Ret nowhere show ?thesis by (auto simp: on_message_def)
  qed
qed

section \<open>A loop that waits for nobody\<close>

text \<open>
  The loop hands a message to a channel that no call selects on, and none will: a call that has
  still to look its channel up will not find this one.
\<close>

definition unclaimed :: "channel \<Rightarrow> conn_sys \<Rightarrow> bool" where
  "unclaimed c s \<longleftrightarrow> (\<forall>(j, p)\<in>set (cs_calls s). p \<noteq> Selecting (ch_id c) (Some c)
     \<and> (p = Registered (ch_id c) \<or> p = Sent (ch_id c) \<longrightarrow> gm_get (cs_respMap s) (ch_id c) \<noteq> Some c))"

lemma unclaimed_call:
  assumes un: "unclaimed c s" and made: "ch_no c < cs_made s" and calls: "cs_calls s = xs @ (j, p) # ys"
    and run: "call_step K j (p, s) (p', s1)"
  shows "unclaimed c (s1\<lparr>cs_calls := xs @ (j, p') # ys\<rparr>)"
proof -
  have "Channel i (cs_made s) \<noteq> c" for i using made by auto
  with run un show ?thesis
    by (cases rule: call_step.cases) (auto simp: unclaimed_def calls)
qed

lemma stuck_step:
  assumes "conn_step K s s'" and run: "cs_run s = Handing c msg"
    and inv: "channels_inv s" and un: "unclaimed c s"
  shows "cs_run s' = Handing c msg \<and> unclaimed c s'"
  using assms(1)
proof (cases rule: conn_step.cases)
  case (call xs j p ys p' s1)
  have "ch_no c < cs_made s" using inv run by (simp add: channels_inv_def run_ok_def)
  with call unclaimed_call [OF un _ call(3,4)] run call_step_frame [OF call(4)] show ?thesis by simp
next
  case (deliver c1 msg1 xs j i ys)
  have "ch_id c = i" using inv deliver run by (auto simp: channels_inv_def flights_def phase_ok_def channel_ok_def)
  with un deliver run show ?thesis by (auto simp: unclaimed_def)
qed (use run un in \<open>auto simp: unclaimed_def split: if_splits\<close>)

lemma stuck_forever:
  assumes "(conn_step K)\<^sup>*\<^sup>* s s'" and "conn_reach K s" and "cs_run s = Handing c msg" and "unclaimed c s"
  shows "cs_run s' = Handing c msg \<and> unclaimed c s' \<and> conn_reach K s'"
  using assms
proof (induction rule: rtranclp_induct)
  case base
  then show ?case by simp
next
  case (step s1 s2)
  then show ?case using stuck_step [OF step(2)] channels_inv_reach conn_reach.step by blast
qed

end
