(* ===== verification/UpstreamProps.thy ===== *)
theory UpstreamProps
  imports BrokerProps UpstreamSteps
begin

text \<open>The properties of the pool's choice of connections and of the connections themselves.\<close>

section \<open>The pool\<close>

text \<open>
  C33: Requests go round the connections: the \<open>k\<close> requests from counter \<open>i\<close> on use the
  connections \<open>i mod n, (i + 1) mod n, ...\<close>, so that each of \<open>n\<close> connections gets one of any \<open>n\<close>
  requests in a row, until the 32-bit counter wraps.
\<close>

theorem pool_round_robin:
  assumes "up_connIdx p = of_nat i" and "0 < up_conns p"
  shows "(i + k < 2 ^ 32 \<longrightarrow>
      connections k p = Ret (map (\<lambda>j. j mod up_conns p) [i..<i + k]))
    \<and> (i + up_conns p < 2 ^ 32 \<longrightarrow> (\<forall>c < up_conns p.
      \<exists>cs. connections (up_conns p) p = Ret cs \<and> count_list cs c = 1))"
  using connections_round_robin [OF assms(1) _ assms(2)] connections_round [OF assms(1) _ assms(2)]
  by blast

theorem pool_round_robin_witness:
  "connections 3 ((NewUpstreamPool 2)\<lparr>up_connIdx := 5\<rparr>) = Ret [1, 0, 1]"
  using pool_round_robin [of "(NewUpstreamPool 2)\<lparr>up_connIdx := 5\<rparr>" 5 3]
  by (simp add: NewUpstreamPool_def upt_rec)

text \<open>
  At the wrap of the counter the index is negative: with two or more connections, the request
  that comes then panics, and so does a subscription to a new parameter.
\<close>

theorem pool_wrap_panics:
  assumes "up_connIdx p = - 1" and "2 \<le> up_conns p"
  shows "(\<exists>e p'. UpstreamPool_MakeRequest uc msg p w = (Panic e, p', w))
    \<and> (gm_get (up_subscriptionID p) param = None \<longrightarrow>
        (\<exists>e p'. UpstreamPool_Subscribe uc param p w = (Panic e, p', w)))"
  using getConnection_wrap [OF assms]
  by (simp add: UpstreamPool_MakeRequest_def UpstreamPool_Subscribe_def)

theorem pool_wrap_panics_witness:
  "\<exists>e p'. UpstreamPool_MakeRequest accepting_upstream zero_msg
     ((NewUpstreamPool 10)\<lparr>up_connIdx := 0xFFFFFFFF\<rparr>) () = (Panic e, p', ())"
  using pool_wrap_panics [of "(NewUpstreamPool 10)\<lparr>up_connIdx := 0xFFFFFFFF\<rparr>" accepting_upstream zero_msg "()"]
  by (simp add: NewUpstreamPool_def)

section \<open>Runs of a connection\<close>

text \<open>A connection that is connected and has no subscription, in the middle of some calls.\<close>

definition conn_st ::
  "id_gen \<Rightarrow> (string, channel) gomap \<Rightarrow> nat \<Rightarrow> channel list \<Rightarrow> (job \<times> phase) list \<Rightarrow> run_at
     \<Rightarrow> JsonRpcMsg list \<Rightarrow> conn_sys" where
  "conn_st g rs n cl l r ms = \<lparr>cs_gen = g, cs_client = Some False, cs_respMap = rs, cs_made = n,
     cs_closed = cl, cs_subByID = [], cs_subByParam = [], cs_calls = l, cs_run = r, cs_read = ms,
     cs_crashed = False\<rparr>"

lemma conn_st_sel [simp]:
  "cs_gen (conn_st g rs n cl l r ms) = g" "cs_client (conn_st g rs n cl l r ms) = Some False"
  "cs_respMap (conn_st g rs n cl l r ms) = rs" "cs_made (conn_st g rs n cl l r ms) = n"
  "cs_closed (conn_st g rs n cl l r ms) = cl" "cs_calls (conn_st g rs n cl l r ms) = l"
  "cs_run (conn_st g rs n cl l r ms) = r" "cs_read (conn_st g rs n cl l r ms) = ms"
  "\<not> cs_crashed (conn_st g rs n cl l r ms)"
  "cs_subByID (conn_st g rs n cl l r ms) = []"
  by (simp_all add: conn_st_def)

lemma reach_ready: "conn_reach K (conn_st [] [] 0 [] [] Reading [])"
proof -
  let ?s = "\<lambda>r. conn_st [] [] 0 [] [] r []"
  have "conn_step K (new_conn_sys []) (?s Connected)"
    using conn_step.connect [of "new_conn_sys []" K] by (simp add: new_conn_sys_def conn_st_def)
  from conn_reach.step [OF conn_reach.start this] have connected: "conn_reach K (?s Connected)" .
  have "conn_reach K (?s (if K = Cosmos then Connected else Cleared))"
  proof (cases K)
    case Eth
    with conn_reach.step [OF connected conn_step.reset] show ?thesis by (simp add: conn_st_def)
  qed (use connected in simp)
  from conn_reach.step [OF this conn_step.range] have "conn_reach K (?s (Resubmitting [] None))"
    by (simp add: conn_st_def)
  from conn_reach.step [OF this conn_step.ready] show ?thesis by (simp add: conn_st_def)
qed

lemma st_request:
  assumes "conn_reach K (conn_st g rs n cl l r ms)"
  shows "conn_reach K (conn_st g rs n cl ((Request q, Choosing) # l) r ms)"
  using conn_reach.step [OF assms conn_step.request [of _ K q]] by (simp add: conn_st_def)

lemma st_call:
  assumes reach: "conn_reach K (conn_st g rs n cl l r ms)" and k: "k < length l" "l ! k = (j, p)"
    and run: "call_step K j (p, conn_st g rs n cl l r ms) (p', conn_st g' rs' n' cl l r ms)"
  shows "conn_reach K (conn_st g' rs' n' cl (l[k := (j, p')]) r ms)"
proof -
  have l: "l = take k l @ (j, p) # drop (Suc k) l" using k by (metis id_take_nth_drop)
  from conn_reach.step [OF reach conn_step.call [OF _ _ run, of "take k l" "drop (Suc k) l"]] l k(1)
  show ?thesis by (simp add: conn_st_def upd_conv_take_nth_drop)
qed

text \<open>Call \<open>k\<close> takes the id \<open>i\<close>, when nothing else happens; and goes on to its \<open>select\<close>.\<close>

lemma st_load:
  assumes "conn_reach K (conn_st g rs n cl l r ms)" and "k < length l" "l ! k = (j, Choosing)"
    and "draw_ok d" and "\<not> outstanding g (Itoa d)"
  shows "conn_reach K (conn_st g rs n cl (l[k := (j, Loaded (Itoa d))]) r ms)"
  using assms(4,5) by (intro st_call [OF assms(1-3)] call_step.load) simp_all

lemma st_store:
  assumes "conn_reach K (conn_st g rs n cl l r ms)" and "k < length l" "l ! k = (j, Loaded i)"
  shows "conn_reach K (conn_st (gm_put i True g) rs n cl (l[k := (j, Owned i)]) r ms)"
proof (rule st_call [OF assms])
  show "call_step K j (Loaded i, conn_st g rs n cl l r ms) (Owned i, conn_st (gm_put i True g) rs n cl l r ms)"
    using call_step.store [of K j i "conn_st g rs n cl l r ms"] by (simp add: conn_st_def)
qed

lemma st_register:
  assumes "conn_reach K (conn_st g rs n cl l r ms)" and "k < length l" "l ! k = (j, Owned i)"
  shows "conn_reach K (conn_st g (gm_put i (Channel i n) rs) (n + 1) cl (l[k := (j, Registered i)]) r ms)"
proof (rule st_call [OF assms])
  show "call_step K j (Owned i, conn_st g rs n cl l r ms)
      (Registered i, conn_st g (gm_put i (Channel i n) rs) (n + 1) cl l r ms)"
    using call_step.register [of K "conn_st g rs n cl l r ms" j i]
    by (simp add: conn_st_def client_IsClosed_def)
qed

lemma st_send:
  assumes "conn_reach K (conn_st g rs n cl l r ms)" and "k < length l" "l ! k = (j, Registered i)"
  shows "conn_reach K (conn_st g rs n cl (l[k := (j, Sent i)]) r ms)"
  by (intro st_call [OF assms] call_step.send) (simp add: client_IsClosed_def)


lemma st_select:
  assumes "conn_reach K (conn_st g rs n cl l r ms)" and "k < length l" "l ! k = (j, Sent i)"
  shows "conn_reach K (conn_st g rs n cl (l[k := (j, Selecting i (gm_get rs i))]) r ms)"
  using call_step.select [of K j i "conn_st g rs n cl l r ms"] by (intro st_call [OF assms]) simp

text \<open>An answer under the id of an open channel is taken up by the loop.\<close>

lemma st_hand:
  assumes "conn_reach K (conn_st g rs n cl l Reading ms)" and "msg_id_string (jm_ID msg) = Some i"
    and "gm_get rs i = Some c" and "c \<notin> set cl"
  shows "conn_reach K (conn_st g rs n cl l (Handing c msg) (msg # ms))"
proof -
  have "route_of K msg rs [] = Ret (ToRequest i c)"
    using assms(2,3) by (simp add: route_of_request)
  then have "on_message K (\<lambda>_. Ret ()) msg (conn_st g rs n cl l Reading ms) = Ret (Handing c msg)"
    using assms(4) by (simp add: on_message_def)
  from conn_reach.step [OF assms(1) conn_step.read [OF _ _ this]] show ?thesis
    by (simp add: conn_st_def)
qed

lemma st_answer:
  assumes reach: "conn_reach K (conn_st g rs n cl l (Handing c msg) ms)"
    and k: "k < length l" "l ! k = (j, Selecting i (Some c))"
  shows "conn_reach K (conn_st g rs n (c # cl) (l[k := (j, Ended i (Some msg))]) Reading ms)"
proof -
  have l: "l = take k l @ (j, Selecting i (Some c)) # drop (Suc k) l" using k by (metis id_take_nth_drop)
  have "conn_reach K (conn_st g rs n cl (l[k := (j, Ended i (Some msg))]) (Closing c) ms)"
    using conn_reach.step [OF reach conn_step.deliver [of _ c msg "take k l" j i "drop (Suc k) l"]] l k(1)
    by (simp add: conn_st_def upd_conv_take_nth_drop)
  from conn_reach.step [OF this conn_step.close [of _ c]] show ?thesis by (simp add: conn_st_def)
qed

text \<open>One request alone, up to its \<open>select\<close>.\<close>

lemma one_registered:
  assumes "draw_ok d"
  shows "conn_reach K (conn_st [(Itoa d, True)] [(Itoa d, Channel (Itoa d) 0)] 1 []
     [(Request q, Registered (Itoa d))] Reading [])"
proof -
  let ?i = "Itoa d"
  have "conn_reach K (conn_st [] [] 0 [] [(Request q, Choosing)] Reading [])"
    by (rule st_request [OF reach_ready])
  from st_load [OF this, of 0 "Request q" d] assms
  have "conn_reach K (conn_st [] [] 0 [] [(Request q, Loaded ?i)] Reading [])"
    by (simp add: outstanding_def)
  from st_store [OF this, of 0] have "conn_reach K (conn_st [(?i, True)] [] 0 [] [(Request q, Owned ?i)] Reading [])"
    by simp
  from st_register [OF this, of 0] show ?thesis by simp
qed

lemma one_answered:
  assumes "draw_ok d" and "msg_id_string (jm_ID msg) = Some (Itoa d)"
  shows "conn_reach K (conn_st [(Itoa d, True)] [(Itoa d, Channel (Itoa d) 0)] 1 [Channel (Itoa d) 0]
     [(Request q, Ended (Itoa d) (Some msg))] Reading [msg])"
proof -
  let ?i = "Itoa d" and ?c = "Channel (Itoa d) 0"
  from st_send [OF one_registered [OF assms(1)], of 0]
  have "conn_reach K (conn_st [(?i, True)] [(?i, ?c)] 1 [] [(Request q, Sent ?i)] Reading [])" by simp
  from st_select [OF this, of 0]
  have "conn_reach K (conn_st [(?i, True)] [(?i, ?c)] 1 [] [(Request q, Selecting ?i (Some ?c))] Reading [])"
    by simp
  from st_hand [OF this assms(2), of ?c]
  have "conn_reach K (conn_st [(?i, True)] [(?i, ?c)] 1 [] [(Request q, Selecting ?i (Some ?c))] (Handing ?c msg) [msg])"
    by simp
  from st_answer [OF this, of 0] show ?thesis by simp
qed

section \<open>Requests on one connection\<close>

text \<open>
  C18: However calls, messages of the node, other connections and reconnections interleave, on
  either manager: the answers the calls have got, each under the id of its call, are among the
  messages the node sent under these ids, each message counted as often as it was sent, so that no
  message reaches two calls or a call with another id; the content is unchanged and the id is the
  one the caller asked with.
\<close>

theorem answers_reach_their_request:
  assumes "conn_reach K s"
  shows "mset (answers s) \<subseteq># mset (map stamp (cs_read s))
    \<and> (\<forall>j i resp ops. (j, Wrapping i (Inr resp) ops) \<in> set (cs_calls s) \<longrightarrow>
         jm_ID resp = jm_ID (job_request K j i) \<and> (Some i, erase resp) \<in> set (map stamp (cs_read s)))"
proof (intro conjI allI impI)
  show sub: "mset (answers s) \<subseteq># mset (map stamp (cs_read s))"
    using answers_inv_reach [OF assms] unfolding answers_inv_def
    by (rule subset_mset.order_trans [rotated]) simp
  fix j i resp ops assume call: "(j, Wrapping i (Inr resp) ops) \<in> set (cs_calls s)"
  with restored_reach [OF assms] show "jm_ID resp = jm_ID (job_request K j i)" by fastforce
  have "(Some i, erase resp) \<in> set (answers s)"
    using call unfolding answers_def by force
  with sub show "(Some i, erase resp) \<in> set (map stamp (cs_read s))"
    by (metis mset_subset_eqD set_mset_mset)
qed

theorem answers_reach_their_request_witness:
  "\<exists>s. conn_reach Cosmos s \<and> answers s \<noteq> [] \<and> mset (answers s) \<subseteq># mset (map stamp (cs_read s))"
proof -
  let ?msg = "zero_msg\<lparr>jm_ID := GStr (Itoa 1)\<rparr>"
  let ?s = "conn_st [(Itoa 1, True)] [(Itoa 1, Channel (Itoa 1) 0)] 1 [Channel (Itoa 1) 0]
     [(Request demo_subscribe, Ended (Itoa 1) (Some ?msg))] Reading [?msg]"
  have "conn_reach Cosmos ?s"
    by (rule one_answered) (simp_all add: draw_ok_def msg_id_string_def)
  with answers_reach_their_request [OF this] show ?thesis
    by (intro exI [of _ ?s]) (simp add: answers_def)
qed



text \<open>
  C32: What brings the reader of a Cosmos connection down, with the broker's callback, in every
  state it reads in: exactly a message under an id whose channel is closed, or one under the id of
  a subscription (and of no request) that is an integer instead of a string.  The first happens
  only while a call that has been answered has not deleted its entry.
\<close>

theorem second_answer_panics:
  assumes "conn_reach Cosmos s" and "cs_run s = Reading"
  shows "((\<exists>p. on_message Cosmos (broker_callback b) msg s = Panic p) \<longleftrightarrow>
      (\<exists>i. msg_id_string (jm_ID msg) = Some i
         \<and> ((\<exists>c. gm_get (cs_respMap s) i = Some c \<and> c \<in> set (cs_closed s))
            \<or> (gm_get (cs_respMap s) i = None \<and> gm_has (cs_subByID s) i \<and> (\<exists>n. jm_ID msg = GInt n)))))
    \<and> (\<forall>i c. gm_get (cs_respMap s) i = Some c \<and> c \<in> set (cs_closed s) \<longrightarrow>
         (\<exists>j a. (j, Ended i (Some a)) \<in> set (cs_calls s)))"
proof (intro conjI allI impI)
  show "(\<exists>p. on_message Cosmos (broker_callback b) msg s = Panic p) \<longleftrightarrow>
      (\<exists>i. msg_id_string (jm_ID msg) = Some i
         \<and> ((\<exists>c. gm_get (cs_respMap s) i = Some c \<and> c \<in> set (cs_closed s))
            \<or> (gm_get (cs_respMap s) i = None \<and> gm_has (cs_subByID s) i \<and> (\<exists>n. jm_ID msg = GInt n))))"
    by (rule Cosmos_on_message_panics)
  show "\<exists>j a. (j, Ended i (Some a)) \<in> set (cs_calls s)"
    if "gm_get (cs_respMap s) i = Some c \<and> c \<in> set (cs_closed s)" for i c
    using closed_inv_reach [OF assms(1)] that unfolding closed_inv_def answered_under_def by blast
qed

theorem second_answer_panics_witness:
  "\<exists>s p. conn_reach Cosmos s \<and> cs_run s = Reading
     \<and> on_message Cosmos (broker_callback demo_broker) (zero_msg\<lparr>jm_ID := GStr (Itoa 1)\<rparr>) s = Panic p"
proof -
  let ?i = "Itoa 1" and ?c = "Channel (Itoa 1) 0" and ?msg = "zero_msg\<lparr>jm_ID := GStr (Itoa 1)\<rparr>"
  let ?s = "conn_st [(?i, True)] [(?i, ?c)] 1 [?c] [(Request demo_subscribe, Ended ?i (Some ?msg))] Reading [?msg]"
  have reach: "conn_reach Cosmos ?s"
    by (rule one_answered) (simp_all add: draw_ok_def msg_id_string_def)
  have "msg_id_string (jm_ID ?msg) = Some ?i" "gm_get (cs_respMap ?s) ?i = Some ?c" "?c \<in> set (cs_closed ?s)"
    by (simp_all add: msg_id_string_def)
  moreover have "cs_run ?s = Reading" by simp
  ultimately have "\<exists>p. on_message Cosmos (broker_callback demo_broker) ?msg ?s = Panic p"
    using second_answer_panics [OF reach, of demo_broker ?msg, THEN conjunct1, THEN iffD2] by blast
  then show ?thesis using reach \<open>cs_run ?s = Reading\<close> by blast
qed

text \<open>
  The id generator looks an id up and reserves it in two steps, so two requests can get the same
  id.  Then one answer of the node, under that id, brings the process down: both requests wait on
  the channel of the one that registered last, one gets the answer and the other, when the
  channel is closed, nil.
\<close>

theorem id_race_crashes:
  assumes "draw_ok d" and "msg_id_string (jm_ID msg) = Some (Itoa d)"
  shows "\<exists>s. conn_reach K s \<and> cs_crashed s \<and> cs_read s = [msg]
    \<and> map fst (cs_calls s) = [Request q1, Request q2]"
proof -
  let ?i = "Itoa d" and ?c = "Channel (Itoa d) 0" and ?d = "Channel (Itoa d) 1"
  let ?l = "\<lambda>p p'. [(Request q1, p), (Request q2, p')]"
  have "conn_reach K (conn_st [] [] 0 [] (?l Choosing Choosing) Reading [])"
    by (rule st_request [OF st_request [OF reach_ready]])
  from st_load [OF this, of 0 "Request q1" d] assms(1)
  have "conn_reach K (conn_st [] [] 0 [] (?l (Loaded ?i) Choosing) Reading [])" by (simp add: outstanding_def)
  from st_load [OF this, of 1 "Request q2" d] assms(1)
  have "conn_reach K (conn_st [] [] 0 [] (?l (Loaded ?i) (Loaded ?i)) Reading [])" by (simp add: outstanding_def)
  from st_store [OF this, of 0] have "conn_reach K (conn_st [(?i, True)] [] 0 [] (?l (Owned ?i) (Loaded ?i)) Reading [])"
    by simp
  from st_store [OF this, of 1] have "conn_reach K (conn_st [(?i, True)] [] 0 [] (?l (Owned ?i) (Owned ?i)) Reading [])"
    by simp
  from st_register [OF this, of 0]
  have "conn_reach K (conn_st [(?i, True)] [(?i, ?c)] 1 [] (?l (Registered ?i) (Owned ?i)) Reading [])" by simp
  from st_register [OF this, of 1]
  have "conn_reach K (conn_st [(?i, True)] [(?i, ?d)] 2 [] (?l (Registered ?i) (Registered ?i)) Reading [])"
    by (simp add: numeral_2_eq_2)
  from st_send [OF this, of 0]
  have "conn_reach K (conn_st [(?i, True)] [(?i, ?d)] 2 [] (?l (Sent ?i) (Registered ?i)) Reading [])" by simp
  from st_send [OF this, of 1]
  have "conn_reach K (conn_st [(?i, True)] [(?i, ?d)] 2 [] (?l (Sent ?i) (Sent ?i)) Reading [])" by simp
  from st_select [OF this, of 0]
  have "conn_reach K (conn_st [(?i, True)] [(?i, ?d)] 2 [] (?l (Selecting ?i (Some ?d)) (Sent ?i)) Reading [])"
    by simp
  from st_select [OF this, of 1]
  have "conn_reach K (conn_st [(?i, True)] [(?i, ?d)] 2 [] (?l (Selecting ?i (Some ?d)) (Selecting ?i (Some ?d))) Reading [])"
    by simp
  from st_hand [OF this assms(2), of ?d]
  have "conn_reach K (conn_st [(?i, True)] [(?i, ?d)] 2 []
     (?l (Selecting ?i (Some ?d)) (Selecting ?i (Some ?d))) (Handing ?d msg) [msg])" by simp
  from st_answer [OF this, of 0]
  have reach: "conn_reach K (conn_st [(?i, True)] [(?i, ?d)] 2 [?d]
     (?l (Ended ?i (Some msg)) (Selecting ?i (Some ?d))) Reading [msg])" (is "conn_reach K ?s") by simp
  from conn_reach.step [OF reach conn_step.nil_answer [of ?s "Request q2" ?i ?d]]
  have "conn_reach K (?s\<lparr>cs_crashed := True\<rparr>)" by (simp add: flights_def)
  then show ?thesis by (intro exI [of _ "?s\<lparr>cs_crashed := True\<rparr>"]) (simp add: conn_st_def)
qed

theorem id_race_crashes_witness:
  "\<exists>s. conn_reach Cosmos s \<and> cs_crashed s \<and> cs_read s = [zero_msg\<lparr>jm_ID := GStr (Itoa 1)\<rparr>]"
  using id_race_crashes [of 1 "zero_msg\<lparr>jm_ID := GStr (Itoa 1)\<rparr>" Cosmos demo_subscribe demo_subscribe]
  by (auto simp: draw_ok_def msg_id_string_def)

text \<open>
  C29: \<open>MakeRequest\<close> returns, with an answer or a time-out, exactly when some draw of the id
  generator is free; when it has returned, the ids taken are those taken before.
\<close>

theorem request_returns:
  "(Cosmos_MakeRequest lk reading req m w \<noteq> None \<longleftrightarrow>
      (\<exists>r\<in>set (cm_draws m). \<not> outstanding (cm_IdGen m) (Itoa r)))
   \<and> (\<forall>r m' w'. Cosmos_MakeRequest lk reading req m w = Some (r, m', w') \<longrightarrow>
        outstanding (cm_IdGen m') = outstanding (cm_IdGen m))"
  by (intro conjI allI impI) (rule Cosmos_MakeRequest_returns, rule Cosmos_MakeRequest_ids(1))

theorem request_returns_witness:
  "Cosmos_MakeRequest demo_link True demo_subscribe demo_mgr 0 \<noteq> None"
proof -
  have "1 \<in> set (cm_draws demo_mgr)" "\<not> outstanding (cm_IdGen demo_mgr) (Itoa 1)" by code_simp+
  with request_returns [of demo_link True demo_subscribe demo_mgr 0] show ?thesis by blast
qed

section \<open>Subscriptions of one connection\<close>

text \<open>
  C30: The two maps of a Cosmos connection stay inverse to each other and every id in them stays
  reserved, through requests, new subscriptions and the end of known ones, whether they succeed
  or fail, through the messages it reads, and through connecting without subscriptions; submitting
  them again after a connection was lost breaks this: it releases an id that stays in the maps.
\<close>

theorem cosmos_maps_inverse:
  assumes "mgr_inv m"
  shows "(\<forall>reading req r m' w'. Cosmos_MakeRequest lk reading req m w = Some (r, m', w') \<longrightarrow> mgr_inv m')
    \<and> (\<forall>param r m' w'. Cosmos_Subscribe lk param m w = Some (r, m', w') \<longrightarrow> mgr_inv m')
    \<and> (\<forall>i r m' w'. gm_has (cm_subByID m) i \<longrightarrow> Cosmos_Unsubscribe lk i m w = Some (r, m', w') \<longrightarrow> mgr_inv m')
    \<and> (\<forall>onsub received e m' w'. may_run m \<longrightarrow>
          Cosmos_Run_iteration onsub lk received m w = (e, m', w') \<longrightarrow> mgr_inv m')
    \<and> (\<forall>e m' w'. cm_subByParam m \<noteq> [] \<longrightarrow>
          Cosmos_reSubmitSubscriptions lk m w = (e, m', w') \<longrightarrow> e \<noteq> None \<and> \<not> mgr_inv m')"
proof (intro conjI allI impI)
  show "mgr_inv m'" if "Cosmos_MakeRequest lk reading req m w = Some (r, m', w')" for reading req r m' w'
    using mgr_inv_cong [OF Cosmos_MakeRequest_ids(3,2,1) [OF that]] assms by simp
  show "mgr_inv m'" if "Cosmos_Subscribe lk param m w = Some (r, m', w')" for param r m' w'
    using that by (rule mgr_inv_Cosmos_Subscribe [OF assms])
  show "mgr_inv m'" if "gm_has (cm_subByID m) i" "Cosmos_Unsubscribe lk i m w = Some (r, m', w')" for i r m' w'
    using that mgr_inv_Cosmos_Unsubscribe [OF assms _ that(2)] by auto
  show "mgr_inv m'" if "may_run m" "Cosmos_Run_iteration onsub lk received m w = (e, m', w')"
    for onsub received e m' w'
    using that by (rule mgr_inv_Run_iteration [OF assms])
  show "e \<noteq> None" "\<not> mgr_inv m'"
    if "cm_subByParam m \<noteq> []" "Cosmos_reSubmitSubscriptions lk m w = (e, m', w')" for e m' w'
    using mgr_inv_reSubmit [OF assms that] by simp_all
qed

theorem cosmos_maps_inverse_witness:
  "\<exists>r m w. Cosmos_Subscribe demo_link ''newBlock'' demo_mgr 0 = Some (r, m, w) \<and> mgr_inv m
     \<and> gm_get (cm_subByID m) ''1'' = Some ''newBlock''"
proof -
  have "mgr_inv demo_mgr" by (simp add: mgr_inv_def demo_mgr_def new_conn_mgr_def)
  note maps = cosmos_maps_inverse [OF this, of demo_link 0]
  have "map_option (\<lambda>(r, m, w). gm_get (cm_subByID m) ''1'')
      (Cosmos_Subscribe demo_link ''newBlock'' demo_mgr 0) = Some (Some ''newBlock'')"
    by code_simp
  then obtain r m w where run: "Cosmos_Subscribe demo_link ''newBlock'' demo_mgr 0 = Some (r, m, w)"
    and "gm_get (cm_subByID m) ''1'' = Some ''newBlock''" by auto
  moreover have "mgr_inv m" using maps run by blast
  ultimately show ?thesis by blast
qed

text \<open>
  C19: A Cosmos connection that is lost while it carries a subscription never gets back to reading:
  however often the loop dials and whatever the node would send, submitting the subscriptions
  again times out in the very loop that would read the answer, and the new connection is closed.
  Not one message is handled.
\<close>

theorem cosmos_reconnect_never_ready:
  assumes "closes lk" and "client_IsClosed (cm_client m)" and "cm_subByParam m \<noteq> []"
    and "Cosmos_Run_loop onsub lk received m w = (handled, m', w')"
  shows "set handled \<subseteq> {Ret Unread} \<and> client_IsClosed (cm_client m') \<and> cm_subByParam m' = cm_subByParam m"
  by (rule Cosmos_Run_loop_fails [OF assms])

theorem cosmos_reconnect_never_ready_witness:
  "\<exists>handled m w. Cosmos_Run_loop (broker_callback demo_broker) demo_link [Inr zero_msg, Inr zero_msg, Inr zero_msg]
     (demo_mgr\<lparr>cm_client := Some True, cm_subByParam := [(''newBlock'', ''1'')]\<rparr>) 0 = (handled, m, w)
     \<and> set handled \<subseteq> {Ret Unread} \<and> client_IsClosed (cm_client m)"
proof -
  let ?m = "demo_mgr\<lparr>cm_client := Some True, cm_subByParam := [(''newBlock'', ''1'')]\<rparr>"
  obtain handled m w where run: "Cosmos_Run_loop (broker_callback demo_broker) demo_link [Inr zero_msg, Inr zero_msg, Inr zero_msg] ?m 0 = (handled, m, w)"
    by (metis surj_pair)
  have "closes demo_link" "client_IsClosed (cm_client ?m)" "cm_subByParam ?m \<noteq> []"
    by (simp_all add: client_IsClosed_def closes_def demo_link_def)
  from cosmos_reconnect_never_ready [OF this run] run show ?thesis by blast
qed

text \<open>
  C31: An Ethereum connection that reconnects is ready at once but has forgotten its subscriptions,
  having cleared the maps before submitting what they hold: nothing is sent to the node, and
  every notification is dropped.
\<close>

theorem eth_reconnect_forgets:
  assumes "client_IsClosed (cm_client m)" and "ln_dial lk w = (None, w')"
  shows "\<exists>m'. Eth_Run_connect lk m w = Some (Ret True, m', w')
    \<and> (\<forall>param. \<not> gm_has (cm_subByParam m') param)
    \<and> (\<forall>msg params i. jm_ID msg = GNil \<longrightarrow> jm_Params msg = GMap params \<longrightarrow>
         gm_get params ''subscription'' = Some (GStr i) \<longrightarrow>
         Eth_onUpstreamMessage onsub msg m' = (Ret Dropped, m'))"
proof (intro exI conjI allI impI)
  show "Eth_Run_connect lk m w = Some (Ret True, Eth_resetAll (m\<lparr>cm_client := Some False\<rparr>), w')"
    by (rule Eth_Run_connect_forgets [OF assms])
  show "Eth_onUpstreamMessage onsub msg (Eth_resetAll (m\<lparr>cm_client := Some False\<rparr>)) =
      (Ret Dropped, Eth_resetAll (m\<lparr>cm_client := Some False\<rparr>))"
    if "jm_ID msg = GNil" "jm_Params msg = GMap params"
      "gm_get params ''subscription'' = Some (GStr i)" for msg params i
    by (rule Eth_onUpstreamMessage_unknown [OF that]) (simp add: Eth_resetAll_def)
qed (simp add: Eth_resetAll_def)

theorem eth_reconnect_forgets_witness:
  "\<exists>m'. Eth_Run_connect demo_link
     (demo_mgr\<lparr>cm_client := Some True, cm_subByParam := [(''newHeads'', ''0xa'')],
       cm_subByID := [(''0xa'', ''newHeads'')]\<rparr>) 0 = Some (Ret True, m', 1)
     \<and> (\<forall>param. \<not> gm_has (cm_subByParam m') param)"
proof -
  let ?m = "demo_mgr\<lparr>cm_client := Some True, cm_subByParam := [(''newHeads'', ''0xa'')],
       cm_subByID := [(''0xa'', ''newHeads'')]\<rparr>"
  have "client_IsClosed (cm_client ?m)" "ln_dial demo_link 0 = (None, 1)"
    by (simp_all add: client_IsClosed_def demo_link_def)
  from eth_reconnect_forgets [OF this] show ?thesis by blast
qed

end
