(* ===== verification/WsProxy.thy ===== *)
theory WsProxy
  imports Broker JsonRpcHandlerSpec
begin

text \<open>
  \<open>src/pkg/cosmoguard/ws_proxy.go\<close> and \<open>ws_jsonrpc_client.go\<close>: the WebSocket proxy, which serves
  the JSON-RPC requests of one client after the other, and the client's connection.

  What a client sends is the list of results of reading its connection.  Messages written to
  clients are a log; whether writing and closing succeed is a parameter.  \<open>'w\<close> is the world of
  the upstream connections.
\<close>

section \<open>State\<close>

record ('g, 'c, 'cl, 'w) WsState =
  ws_broker :: "'cl Broker"
  ws_cache :: 'c
  ws_rules :: "'g JsonRpcRule list"
  ws_defaultAction :: RuleAction
  ws_responseTimeHist :: "string list list option"
  ws_closed :: "'cl list"
  ws_sent :: "('cl \<times> string) list"
  ws_world :: 'w

record ('g, 'c, 'cl, 'w) ws_env =
  we_glob :: "'g globber"
  we_cache :: "('c, 64 word, JsonRpcMsg) cache_api"
  we_codec :: codec
  we_upstream :: "'w UpstreamConnManager"
  we_write :: "'cl \<Rightarrow> string \<Rightarrow> err option"
  we_close :: "'cl \<Rightarrow> err option"

definition NewJsonRpcWebSocketProxy ::
  "nat \<Rightarrow> 'c \<Rightarrow> bool \<Rightarrow> 'w \<Rightarrow> ('g, 'c, 'cl, 'w) WsState" where
  "NewJsonRpcWebSocketProxy conns cache metricsEnabled w =
     \<lparr>ws_broker = NewBroker conns, ws_cache = cache, ws_rules = [], ws_defaultAction = [],
      ws_responseTimeHist = (if metricsEnabled then Some [] else None),
      ws_closed = [], ws_sent = [], ws_world = w\<rparr>"

definition WebSocketProxy_SetRules ::
  "'g JsonRpcRule list \<Rightarrow> RuleAction \<Rightarrow> ('g, 'c, 'cl, 'w) WsState \<Rightarrow> ('g, 'c, 'cl, 'w) WsState" where
  "WebSocketProxy_SetRules rules defaultAction s =
     s\<lparr>ws_rules := rules, ws_defaultAction := defaultAction\<rparr>"

section \<open>The client\<close>

text \<open>
  \<open>ReadClose\<close> is every error that \<open>IsUnexpectedCloseError\<close> does not report: the expected close
  codes and errors that are no close frame.
\<close>

datatype ws_read = ReadMessage string | ReadClose | ReadUnexpected err

definition WsClient_SendMsg ::
  "('g, 'c, 'cl, 'w) ws_env \<Rightarrow> 'cl \<Rightarrow> JsonRpcMsg \<Rightarrow> ('g, 'c, 'cl, 'w) WsState
     \<Rightarrow> err option \<times> ('g, 'c, 'cl, 'w) WsState" where
  "WsClient_SendMsg L c msg s =
     (if c \<in> set (ws_closed s) then (Some ErrClosed, s)
      else case JsonRpcMsg_Marshal (we_codec L) msg of
          Inl e \<Rightarrow> (Some (ErrText ''error encoding msg''), s)
        | Inr b \<Rightarrow> (case we_write L c b of
              Some e \<Rightarrow> (Some e, s)
            | None \<Rightarrow> (None, s\<lparr>ws_sent := ws_sent s @ [(c, b)]\<rparr>)))"

definition WsClient_Close ::
  "('g, 'c, 'cl, 'w) ws_env \<Rightarrow> 'cl \<Rightarrow> ('g, 'c, 'cl, 'w) WsState
     \<Rightarrow> err option \<times> ('g, 'c, 'cl, 'w) WsState" where
  "WsClient_Close L c s =
     (if c \<in> set (ws_closed s) then (Some ErrClosed, s)
      else
        (let s1 = (if c \<in> set (bk_callbacks (ws_broker s)) then
              (case Broker_onClientDisconnect (we_upstream L) c (ws_broker s) (ws_world s) of
                 (b, w) \<Rightarrow> s\<lparr>ws_broker := b, ws_world := w\<rparr>)
              else s)
         in case we_close L c of
              Some e \<Rightarrow> (Some e, s1)
            | None \<Rightarrow> (None, s1\<lparr>ws_closed := c # ws_closed s1\<rparr>)))"

definition WsClient_ReceiveMsg ::
  "('g, 'c, 'cl, 'w) ws_env \<Rightarrow> 'cl \<Rightarrow> ws_read \<Rightarrow> ('g, 'c, 'cl, 'w) WsState
     \<Rightarrow> (err + JsonRpcMsg) \<times> ('g, 'c, 'cl, 'w) WsState" where
  "WsClient_ReceiveMsg L c r s =
     (if c \<in> set (ws_closed s) then (Inl ErrClosed, s)
      else case r of
          ReadUnexpected e \<Rightarrow> (Inl e, s)
        | ReadClose \<Rightarrow> (Inl ErrClosed, snd (WsClient_Close L c s))
        | ReadMessage message \<Rightarrow>
            if message = [] then (Inl (ErrText ''received empty json rpc message''), s)
            else (case ParseJsonRpcMessage (we_codec L) message of
                (_, _, Some e) \<Rightarrow> (Inl (ErrText ''error decoding msg''), s)
              | (None, _, None) \<Rightarrow> (Inl (ErrText ''bad request''), s)
              | (Some msg, _, None) \<Rightarrow> (Inr msg, s)))"

section \<open>Handling a request\<close>

definition ws_observe :: "string list \<Rightarrow> ('g, 'c, 'cl, 'w) WsState \<Rightarrow> ('g, 'c, 'cl, 'w) WsState" where
  "ws_observe labels s =
     s\<lparr>ws_responseTimeHist := map_option (\<lambda>l. l @ [labels]) (ws_responseTimeHist s)\<rparr>"

definition ws_labels :: "JsonRpcMsg \<Rightarrow> string \<Rightarrow> RuleAction \<Rightarrow> string list" where
  "ws_labels request cached action =
     [jm_Method request, JsonRpcMsg_MaybeGetPath request, cached, action]"

definition ws_upstream ::
  "('g, 'c, 'cl, 'w) ws_env \<Rightarrow> 'cl \<Rightarrow> JsonRpcMsg \<Rightarrow> ('g, 'c, 'cl, 'w) WsState
     \<Rightarrow> (err + JsonRpcMsg) outcome \<times> ('g, 'c, 'cl, 'w) WsState" where
  "ws_upstream L client request s =
     (case (if hasSubscriptionMethod request
            then Broker_HandleSubscription (we_upstream L) client request (ws_broker s) (ws_world s)
            else Broker_HandleRequest (we_upstream L) request (ws_broker s) (ws_world s)) of
        (r, b, w) \<Rightarrow> (r, s\<lparr>ws_broker := b, ws_world := w\<rparr>))"

text \<open>Forward, answer the client, and go on with the answer when both succeeded.\<close>

definition ws_forward ::
  "('g, 'c, 'cl, 'w) ws_env \<Rightarrow> 'cl \<Rightarrow> JsonRpcMsg \<Rightarrow> RuleAction
     \<Rightarrow> (JsonRpcMsg \<Rightarrow> ('g, 'c, 'cl, 'w) WsState \<Rightarrow> err option outcome \<times> ('g, 'c, 'cl, 'w) WsState)
     \<Rightarrow> ('g, 'c, 'cl, 'w) WsState \<Rightarrow> err option outcome \<times> ('g, 'c, 'cl, 'w) WsState" where
  "ws_forward L client request label k s =
     (case ws_upstream L client request s of
        (Panic e, s1) \<Rightarrow> (Panic e, s1)
      | (Ret (Inl err), s1) \<Rightarrow> (Ret (Some err), s1)
      | (Ret (Inr res), s1) \<Rightarrow> (case WsClient_SendMsg L client res s1 of
            (Some err, s2) \<Rightarrow> (Ret (Some err), s2)
          | (None, s2) \<Rightarrow> k res (ws_observe (ws_labels request cacheMiss label) s2)))"

definition ws_store ::
  "('g, 'c, 'cl, 'w) ws_env \<Rightarrow> 64 word \<Rightarrow> RuleCache option \<Rightarrow> JsonRpcMsg
     \<Rightarrow> ('g, 'c, 'cl, 'w) WsState \<Rightarrow> err option outcome \<times> ('g, 'c, 'cl, 'w) WsState" where
  "ws_store L hash cache res s =
     (case cache of
        None \<Rightarrow> (Ret None, s)
      | Some rc \<Rightarrow>
          if \<not> cacheable rc res then (Ret None, s)
          else (case c_set (we_cache L) hash res (rc_TTL rc) (ws_cache s) of
              (Some e, c) \<Rightarrow> (Ret (Some (ErrText ''error storing in cache'')), s\<lparr>ws_cache := c\<rparr>)
            | (None, c) \<Rightarrow> (Ret None, s\<lparr>ws_cache := c\<rparr>)))"

definition ws_allowed ::
  "('g, 'c, 'cl, 'w) ws_env \<Rightarrow> 'cl \<Rightarrow> JsonRpcMsg \<Rightarrow> RuleCache option
     \<Rightarrow> ('g, 'c, 'cl, 'w) WsState \<Rightarrow> err option outcome \<times> ('g, 'c, 'cl, 'w) WsState" where
  "ws_allowed L client request cache s =
     (let hash = JsonRpcMsg_Hash (we_codec L) request;
          miss = ws_forward L client request RuleActionAllow (ws_store L hash cache)
      in case cache of
           None \<Rightarrow> miss s
         | Some rc \<Rightarrow> (case c_has (we_cache L) hash (ws_cache s) of
               ((cached, err), c) \<Rightarrow>
                 if cached then
                   (case c_get (we_cache L) hash c of
                      (Inl e, c') \<Rightarrow> (Ret (Some e), s\<lparr>ws_cache := c'\<rparr>)
                    | (Inr res, c') \<Rightarrow>
                        (case WsClient_SendMsg L client (JsonRpcMsg_CloneWithID (jm_ID request) res)
                            (s\<lparr>ws_cache := c'\<rparr>) of
                           (Some e, s1) \<Rightarrow> (Ret (Some e), s1)
                         | (None, s1) \<Rightarrow>
                             (Ret None, ws_observe (ws_labels request cacheHit RuleActionAllow) s1)))
                 else miss (s\<lparr>ws_cache := c\<rparr>)))"

definition ws_denied ::
  "('g, 'c, 'cl, 'w) ws_env \<Rightarrow> 'cl \<Rightarrow> JsonRpcMsg \<Rightarrow> RuleAction
     \<Rightarrow> ('g, 'c, 'cl, 'w) WsState \<Rightarrow> err option outcome \<times> ('g, 'c, 'cl, 'w) WsState" where
  "ws_denied L client request label s =
     (case WsClient_SendMsg L client (UnauthorizedResponse request) s of
        (Some e, s1) \<Rightarrow> (Ret (Some e), s1)
      | (None, s1) \<Rightarrow> (Ret None, ws_observe (ws_labels request cacheMiss label) s1))"

fun ws_rules_loop ::
  "('g, 'c, 'cl, 'w) ws_env \<Rightarrow> 'cl \<Rightarrow> JsonRpcMsg \<Rightarrow> 'g JsonRpcRule list
     \<Rightarrow> ('g, 'c, 'cl, 'w) WsState \<Rightarrow> err option outcome \<times> ('g, 'c, 'cl, 'w) WsState" where
  "ws_rules_loop L client request [] s =
     (if ws_defaultAction s = RuleActionAllow
      then ws_forward L client request (ws_defaultAction s) (\<lambda>_ s'. (Ret None, s')) s
      else ws_denied L client request (ws_defaultAction s) s)"
| "ws_rules_loop L client request (rule # rules) s =
     (case JsonRpcRule_Match (we_glob L) rule request of
        Panic e \<Rightarrow> (Panic e, s)
      | Ret False \<Rightarrow> ws_rules_loop L client request rules s
      | Ret True \<Rightarrow>
          if jq_Action rule = RuleActionAllow then ws_allowed L client request (jq_Cache rule) s
          else if jq_Action rule = RuleActionDeny then ws_denied L client request RuleActionDeny s
          else ws_rules_loop L client request rules s)"

definition WebSocketProxy_handleRequest ::
  "('g, 'c, 'cl, 'w) ws_env \<Rightarrow> 'cl \<Rightarrow> JsonRpcMsg
     \<Rightarrow> ('g, 'c, 'cl, 'w) WsState \<Rightarrow> err option outcome \<times> ('g, 'c, 'cl, 'w) WsState" where
  "WebSocketProxy_handleRequest L client request s = ws_rules_loop L client request (ws_rules s) s"

text \<open>
  The loop over what the client sends; it ends when the client is closed.  A panic of
  \<open>handleRequest\<close> ends it too.  \<open>client.Close\<close> is deferred.
\<close>

fun ws_serve ::
  "('g, 'c, 'cl, 'w) ws_env \<Rightarrow> 'cl \<Rightarrow> ws_read list
     \<Rightarrow> ('g, 'c, 'cl, 'w) WsState \<Rightarrow> unit outcome \<times> ('g, 'c, 'cl, 'w) WsState" where
  "ws_serve L client [] s = (Ret (), s)"
| "ws_serve L client (r # rs) s =
     (case WsClient_ReceiveMsg L client r s of
        (Inl e, s1) \<Rightarrow>
          if e = ErrClosed then (Ret (), snd (WsClient_Close L client s1))
          else ws_serve L client rs s1
      | (Inr req, s1) \<Rightarrow> (case WebSocketProxy_handleRequest L client req s1 of
            (Panic e, s2) \<Rightarrow> (Panic e, s2)
          | (Ret _, s2) \<Rightarrow> ws_serve L client rs s2))"

definition WebSocketProxy_HandleConnection ::
  "('g, 'c, 'cl, 'w) ws_env \<Rightarrow> err option \<Rightarrow> 'cl \<Rightarrow> ws_read list
     \<Rightarrow> ('g, 'c, 'cl, 'w) WsState \<Rightarrow> unit outcome \<times> ('g, 'c, 'cl, 'w) WsState" where
  "WebSocketProxy_HandleConnection L upgrade client reads s =
     (case upgrade of
        Some e \<Rightarrow> (Ret (), s)
      | None \<Rightarrow> (case ws_serve L client reads s of
            (r, s1) \<Rightarrow> (r, snd (WsClient_Close L client s1))))"

text \<open>A notification from the upstream, sent to each subscriber; failures are logged only.\<close>

definition ws_notify ::
  "('g, 'c, 'cl, 'w) ws_env \<Rightarrow> JsonRpcMsg \<Rightarrow> ('g, 'c, 'cl, 'w) WsState
     \<Rightarrow> ('g, 'c, 'cl, 'w) WsState outcome" where
  "ws_notify L msg s = (case Broker_onSubscriptionMessage msg (ws_broker s) of
      Panic e \<Rightarrow> Panic e
    | Ret l \<Rightarrow> Ret (fold (\<lambda>(c, m) s'. snd (WsClient_SendMsg L c m s')) l s))"

section \<open>The loop implements the policy\<close>

lemma ws_rules_loop_policy:
  "ws_rules_loop L client q rules s =
     (case rpc_policy (we_glob L) q (ws_defaultAction s) rules of
        Panic e \<Rightarrow> (Panic e, s)
      | Ret (Allowed None) \<Rightarrow>
          ws_forward L client q (ws_defaultAction s) (\<lambda>_ s'. (Ret None, s')) s
      | Ret (Allowed (Some rule)) \<Rightarrow> ws_allowed L client q (jq_Cache rule) s
      | Ret (Denied None) \<Rightarrow> ws_denied L client q (ws_defaultAction s) s
      | Ret (Denied (Some _)) \<Rightarrow> ws_denied L client q RuleActionDeny s)"
proof (induction rules)
  case Nil
  then show ?case by (simp add: rpc_policy_def)
next
  case (Cons rule rules)
  show ?case
  proof (cases "JsonRpcRule_Match (we_glob L) rule q")
    case (Ret b)
    with Cons show ?thesis by (cases b) (auto simp: rpc_policy_def)
  qed (simp add: rpc_policy_def)
qed

lemma WsClient_SendMsg_frame:
  "WsClient_SendMsg L c m s = (e, s') \<Longrightarrow> ws_broker s' = ws_broker s \<and> ws_cache s' = ws_cache s
     \<and> ws_world s' = ws_world s \<and> ws_rules s' = ws_rules s \<and> ws_defaultAction s' = ws_defaultAction s
     \<and> ws_closed s' = ws_closed s"
  by (auto simp: WsClient_SendMsg_def split: if_splits sum.splits option.splits)

lemma ws_observe_frame [simp]:
  "ws_broker (ws_observe l s) = ws_broker s" "ws_cache (ws_observe l s) = ws_cache s"
  "ws_world (ws_observe l s) = ws_world s" "ws_rules (ws_observe l s) = ws_rules s"
  "ws_defaultAction (ws_observe l s) = ws_defaultAction s" "ws_sent (ws_observe l s) = ws_sent s"
  "ws_closed (ws_observe l s) = ws_closed s"
  by (simp_all add: ws_observe_def)

end
