(* ===== verification/WsSpec.thy ===== *)
theory WsSpec
  imports WsProxy
begin

text \<open>
  What a WebSocket session does beyond its own client: two states that differ only in the metrics
  and in the refusals this client got are told apart by nothing the proxy does (\<open>ws_sim\<close>), and a
  denied request leads from one such state to another.
\<close>

section \<open>States that differ only in refusals\<close>

definition refusal :: "('g, 'c, 'cl, 'w) ws_env \<Rightarrow> 'cl \<Rightarrow> 'cl \<times> string \<Rightarrow> bool" where
  "refusal L c x \<longleftrightarrow> fst x = c
     \<and> (\<exists>q. JsonRpcMsg_Marshal (we_codec L) (UnauthorizedResponse q) = Inr (snd x))"

definition ws_sim ::
  "('g, 'c, 'cl, 'w) ws_env \<Rightarrow> 'cl \<Rightarrow> ('g, 'c, 'cl, 'w) WsState \<Rightarrow> ('g, 'c, 'cl, 'w) WsState \<Rightarrow> bool" where
  "ws_sim L c s t \<longleftrightarrow> ws_broker s = ws_broker t \<and> ws_cache s = ws_cache t \<and> ws_rules s = ws_rules t
     \<and> ws_defaultAction s = ws_defaultAction t \<and> ws_closed s = ws_closed t \<and> ws_world s = ws_world t
     \<and> filter (Not \<circ> refusal L c) (ws_sent s) = filter (Not \<circ> refusal L c) (ws_sent t)"

text \<open>An operation that does not tell such states apart.\<close>

definition ws_respects ::
  "('g, 'c, 'cl, 'w) ws_env \<Rightarrow> 'cl
     \<Rightarrow> (('g, 'c, 'cl, 'w) WsState \<Rightarrow> 'a \<times> ('g, 'c, 'cl, 'w) WsState) \<Rightarrow> bool" where
  "ws_respects L c f \<longleftrightarrow> (\<forall>s t. ws_sim L c s t \<longrightarrow>
     fst (f s) = fst (f t) \<and> ws_sim L c (snd (f s)) (snd (f t)))"

lemma ws_sim_refl [simp]: "ws_sim L c s s"
  by (simp add: ws_sim_def)

lemma ws_sim_trans: "ws_sim L c s t \<Longrightarrow> ws_sim L c t u \<Longrightarrow> ws_sim L c s u"
  by (simp add: ws_sim_def)

lemma ws_sim_sym: "ws_sim L c s t \<Longrightarrow> ws_sim L c t s"
  by (simp add: ws_sim_def)

lemma respectsI:
  "(\<And>s t. ws_sim L c s t \<Longrightarrow> fst (f s) = fst (f t) \<and> ws_sim L c (snd (f s)) (snd (f t))) \<Longrightarrow> ws_respects L c f"
  by (simp add: ws_respects_def)

lemma respectsE:
  assumes "ws_respects L c f" and "ws_sim L c s t"
  obtains x s' t' where "f s = (x, s')" "f t = (x, t')" "ws_sim L c s' t'"
  using assms unfolding ws_respects_def by (metis prod.collapse)

lemma ws_sim_updates:
  "ws_sim L c s t \<Longrightarrow> ws_sim L c (s\<lparr>ws_cache := k\<rparr>) (t\<lparr>ws_cache := k\<rparr>)"
  "ws_sim L c s t \<Longrightarrow> ws_sim L c (s\<lparr>ws_broker := b, ws_world := w\<rparr>) (t\<lparr>ws_broker := b, ws_world := w\<rparr>)"
  "ws_sim L c s t \<Longrightarrow> ws_sim L c (s\<lparr>ws_closed := l\<rparr>) (t\<lparr>ws_closed := l\<rparr>)"
  "ws_sim L c s t \<Longrightarrow> ws_sim L c (s\<lparr>ws_sent := ws_sent s @ m\<rparr>) (t\<lparr>ws_sent := ws_sent t @ m\<rparr>)"
  by (simp_all add: ws_sim_def)

lemma ws_sim_observe: "ws_sim L c s t \<Longrightarrow> ws_sim L c (ws_observe l s) (ws_observe l' t)"
  by (simp add: ws_sim_def)

section \<open>The operations\<close>

lemma ws_respects_SendMsg: "ws_respects L c (WsClient_SendMsg L d msg)"
proof (rule respectsI)
  fix s t assume sim: "ws_sim L c s t"
  then have "ws_closed s = ws_closed t" by (simp add: ws_sim_def)
  with sim show "fst (WsClient_SendMsg L d msg s) = fst (WsClient_SendMsg L d msg t)
      \<and> ws_sim L c (snd (WsClient_SendMsg L d msg s)) (snd (WsClient_SendMsg L d msg t))"
    by (simp add: WsClient_SendMsg_def ws_sim_updates split: sum.split option.split)
qed

lemma ws_respects_Close: "ws_respects L c (WsClient_Close L d)"
proof (rule respectsI)
  fix s t assume sim: "ws_sim L c s t"
  then have "ws_closed s = ws_closed t" "ws_broker s = ws_broker t" "ws_world s = ws_world t"
    by (simp_all add: ws_sim_def)
  with sim show "fst (WsClient_Close L d s) = fst (WsClient_Close L d t)
      \<and> ws_sim L c (snd (WsClient_Close L d s)) (snd (WsClient_Close L d t))"
    by (simp add: WsClient_Close_def Let_def ws_sim_def split: option.split prod.split)
qed

lemma ws_respects_ReceiveMsg: "ws_respects L c (WsClient_ReceiveMsg L d r)"
proof (rule respectsI)
  fix s t assume sim: "ws_sim L c s t"
  then have "ws_closed s = ws_closed t" by (simp add: ws_sim_def)
  moreover have "ws_sim L c (snd (WsClient_Close L d s)) (snd (WsClient_Close L d t))"
    using ws_respects_Close [of L c d] sim by (simp add: ws_respects_def)
  ultimately show "fst (WsClient_ReceiveMsg L d r s) = fst (WsClient_ReceiveMsg L d r t)
      \<and> ws_sim L c (snd (WsClient_ReceiveMsg L d r s)) (snd (WsClient_ReceiveMsg L d r t))"
    using sim by (simp add: WsClient_ReceiveMsg_def split: ws_read.split prod.split option.split)
qed

lemma ws_respects_upstream: "ws_respects L c (ws_upstream L d q)"
proof (rule respectsI)
  fix s t assume sim: "ws_sim L c s t"
  then have "ws_broker s = ws_broker t" "ws_world s = ws_world t" by (simp_all add: ws_sim_def)
  with sim show "fst (ws_upstream L d q s) = fst (ws_upstream L d q t)
      \<and> ws_sim L c (snd (ws_upstream L d q s)) (snd (ws_upstream L d q t))"
    by (simp add: ws_upstream_def ws_sim_updates split: prod.split)
qed

lemma ws_respects_forward:
  assumes "\<And>res. ws_respects L c (k res)"
  shows "ws_respects L c (ws_forward L d q label k)"
proof (rule respectsI)
  fix s t assume "ws_sim L c s t"
  then obtain x s1 t1 where up: "ws_upstream L d q s = (x, s1)" "ws_upstream L d q t = (x, t1)"
    and s1: "ws_sim L c s1 t1" by (rule respectsE [OF ws_respects_upstream])
  have send: "\<exists>e s2 t2. WsClient_SendMsg L d res s1 = (e, s2) \<and> WsClient_SendMsg L d res t1 = (e, t2)
      \<and> ws_sim L c s2 t2" for res
    using respectsE [OF ws_respects_SendMsg s1] by metis
  show "fst (ws_forward L d q label k s) = fst (ws_forward L d q label k t)
      \<and> ws_sim L c (snd (ws_forward L d q label k s)) (snd (ws_forward L d q label k t))"
  proof (cases "\<exists>res. x = Ret (Inr res)")
    case True
    then obtain res where x: "x = Ret (Inr res)" by blast
    obtain e s2 t2 where "WsClient_SendMsg L d res s1 = (e, s2)" "WsClient_SendMsg L d res t1 = (e, t2)"
      "ws_sim L c s2 t2" using send by blast
    with up x assms [of res] show ?thesis
      by (cases e) (simp_all add: ws_forward_def ws_respects_def ws_sim_observe)
  next
    case False
    with up s1 show ?thesis by (auto simp: ws_forward_def split: outcome.split sum.split)
  qed
qed

lemma ws_respects_store: "ws_respects L c (ws_store L hash rc res)"
proof (rule respectsI)
  fix s t assume sim: "ws_sim L c s t"
  then have "ws_cache s = ws_cache t" by (simp add: ws_sim_def)
  with sim show "fst (ws_store L hash rc res s) = fst (ws_store L hash rc res t)
      \<and> ws_sim L c (snd (ws_store L hash rc res s)) (snd (ws_store L hash rc res t))"
    by (simp add: ws_store_def ws_sim_updates split: option.split prod.split)
qed

lemma ws_respects_denied: "ws_respects L c (ws_denied L d q label)"
proof (rule respectsI)
  fix s t assume "ws_sim L c s t"
  then obtain e s1 t1 where "WsClient_SendMsg L d (UnauthorizedResponse q) s = (e, s1)"
    "WsClient_SendMsg L d (UnauthorizedResponse q) t = (e, t1)" "ws_sim L c s1 t1"
    by (rule respectsE [OF ws_respects_SendMsg])
  then show "fst (ws_denied L d q label s) = fst (ws_denied L d q label t)
      \<and> ws_sim L c (snd (ws_denied L d q label s)) (snd (ws_denied L d q label t))"
    by (cases e) (simp_all add: ws_denied_def ws_sim_observe)
qed

lemma ws_respects_allowed: "ws_respects L c (ws_allowed L d q rc)"
proof (cases rc)
  case None
  then have "ws_allowed L d q rc = ws_forward L d q RuleActionAllow (ws_store L (JsonRpcMsg_Hash (we_codec L) q) rc)"
    by (simp add: ws_allowed_def fun_eq_iff)
  then show ?thesis using ws_respects_forward [OF ws_respects_store] by simp
next
  case (Some x)
  let ?hash = "JsonRpcMsg_Hash (we_codec L) q"
  show ?thesis
  proof (rule respectsI)
    fix s t assume sim: "ws_sim L c s t"
    then have cache: "ws_cache s = ws_cache t" by (simp add: ws_sim_def)
    obtain cached e k where has: "c_has (we_cache L) ?hash (ws_cache t) = ((cached, e), k)" by (metis surj_pair)
    obtain g k' where get: "c_get (we_cache L) ?hash k = (g, k')" by fastforce
    have miss: "ws_respects L c (ws_forward L d q RuleActionAllow (ws_store L ?hash rc))"
      by (rule ws_respects_forward) (rule ws_respects_store)
    have send: "\<exists>e s2 t2. WsClient_SendMsg L d m (s\<lparr>ws_cache := k'\<rparr>) = (e, s2)
        \<and> WsClient_SendMsg L d m (t\<lparr>ws_cache := k'\<rparr>) = (e, t2) \<and> ws_sim L c s2 t2" for m
      using respectsE [OF ws_respects_SendMsg ws_sim_updates(1) [OF sim]] by metis
    show "fst (ws_allowed L d q rc s) = fst (ws_allowed L d q rc t)
        \<and> ws_sim L c (snd (ws_allowed L d q rc s)) (snd (ws_allowed L d q rc t))"
    proof (cases "cached \<and> (\<exists>res. g = Inr res)")
      case True
      then obtain res where res: "cached" "g = Inr res" by blast
      obtain e' s2 t2 where
        "WsClient_SendMsg L d (JsonRpcMsg_CloneWithID (jm_ID q) res) (s\<lparr>ws_cache := k'\<rparr>) = (e', s2)"
        "WsClient_SendMsg L d (JsonRpcMsg_CloneWithID (jm_ID q) res) (t\<lparr>ws_cache := k'\<rparr>) = (e', t2)"
        "ws_sim L c s2 t2" using send by blast
      with Some cache has get res show ?thesis
        by (cases e') (simp_all add: ws_allowed_def Let_def ws_sim_observe)
    next
      case False
      with Some cache has get miss ws_sim_updates(1) [OF sim] show ?thesis
        by (cases g) (auto simp: ws_allowed_def Let_def ws_respects_def)
    qed
  qed
qed

lemma ws_respects_handleRequest: "ws_respects L c (WebSocketProxy_handleRequest L d q)"
proof (rule respectsI)
  fix s t assume sim: "ws_sim L c s t"
  then have "ws_rules s = ws_rules t" "ws_defaultAction s = ws_defaultAction t" by (simp_all add: ws_sim_def)
  moreover have "ws_respects L c (ws_forward L d q label (\<lambda>_ s'. (Ret None, s')))" for label
    by (rule ws_respects_forward) (simp add: ws_respects_def)
  ultimately show "fst (WebSocketProxy_handleRequest L d q s) = fst (WebSocketProxy_handleRequest L d q t)
      \<and> ws_sim L c (snd (WebSocketProxy_handleRequest L d q s)) (snd (WebSocketProxy_handleRequest L d q t))"
    using sim ws_respects_allowed [of L c d q] ws_respects_denied [of L c d q]
    by (auto simp: WebSocketProxy_handleRequest_def ws_rules_loop_policy ws_respects_def
        split: outcome.split verdict.split option.split)
qed

section \<open>A denied request\<close>

text \<open>What the client sent is a request that the rules deny.\<close>

definition ws_refuses ::
  "('g, 'c, 'cl, 'w) ws_env \<Rightarrow> 'g JsonRpcRule list \<Rightarrow> RuleAction \<Rightarrow> ws_read \<Rightarrow> bool" where
  "ws_refuses L rules d r = (case r of
       ReadMessage m \<Rightarrow> m \<noteq> [] \<and> (case ParseJsonRpcMessage (we_codec L) m of
           (None, _, _) \<Rightarrow> False
         | (Some q, _, e) \<Rightarrow> e = None
             \<and> (case rpc_policy (we_glob L) q d rules of Ret (Denied _) \<Rightarrow> True | _ \<Rightarrow> False))
     | _ \<Rightarrow> False)"

lemma ws_denied_sim:
  "\<exists>e. fst (ws_denied L c q label s) = Ret e \<and> ws_sim L c s (snd (ws_denied L c q label s))"
proof -
  have "ws_sim L c s (snd (WsClient_SendMsg L c (UnauthorizedResponse q) s))"
    by (auto simp: WsClient_SendMsg_def ws_sim_def refusal_def split: sum.split option.split)
  then show ?thesis
    by (cases "WsClient_SendMsg L c (UnauthorizedResponse q) s"; cases "fst (WsClient_SendMsg L c (UnauthorizedResponse q) s)")
      (simp_all add: ws_denied_def ws_sim_def)
qed

lemma ws_refused_step:
  assumes "ws_refuses L (ws_rules s) (ws_defaultAction s) r"
  shows "\<exists>s'. ws_serve L c (r # rs) s = (if c \<in> set (ws_closed s) then (Ret (), s) else ws_serve L c rs s')
    \<and> ws_sim L c s s'"
proof -
  obtain m q ms x where r: "r = ReadMessage m" "m \<noteq> []" "ParseJsonRpcMessage (we_codec L) m = (Some q, ms, None)"
    and deny: "rpc_policy (we_glob L) q (ws_defaultAction s) (ws_rules s) = Ret (Denied x)"
    using assms
    by (auto simp: ws_refuses_def split: ws_read.splits prod.splits option.splits outcome.splits verdict.splits)
  obtain label where run: "WebSocketProxy_handleRequest L c q s = ws_denied L c q label s"
    using deny by (cases x) (simp_all add: WebSocketProxy_handleRequest_def ws_rules_loop_policy)
  obtain e where "fst (ws_denied L c q label s) = Ret e" "ws_sim L c s (snd (ws_denied L c q label s))"
    using ws_denied_sim [of L c q label s] by blast
  then show ?thesis
    using r run
    by (cases "ws_denied L c q label s")
      (auto simp: WsClient_ReceiveMsg_def WsClient_Close_def)
qed

lemma ws_sim_rules:
  "ws_sim L c s t \<Longrightarrow> ws_refuses L (ws_rules s) (ws_defaultAction s) = ws_refuses L (ws_rules t) (ws_defaultAction t)"
  by (simp add: ws_sim_def)

section \<open>Sessions\<close>

lemma ws_serve_closed:
  "c \<in> set (ws_closed s) \<Longrightarrow> ws_serve L c rs s = (Ret (), s)"
  by (cases rs) (simp_all add: WsClient_ReceiveMsg_def WsClient_Close_def)

text \<open>The rules change by \<open>SetRules\<close> only.\<close>

definition ws_policy_of :: "('g, 'c, 'cl, 'w) WsState \<Rightarrow> 'g JsonRpcRule list \<times> RuleAction" where
  "ws_policy_of s = (ws_rules s, ws_defaultAction s)"

lemma ws_policy_of_simps [simp]:
  "ws_policy_of (s\<lparr>ws_cache := k\<rparr>) = ws_policy_of s"
  "ws_policy_of (s\<lparr>ws_broker := b, ws_world := w\<rparr>) = ws_policy_of s"
  "ws_policy_of (s\<lparr>ws_closed := l\<rparr>) = ws_policy_of s"
  "ws_policy_of (ws_observe l' s) = ws_policy_of s"
  by (simp_all add: ws_policy_of_def)

lemma SendMsg_policy: "WsClient_SendMsg L c m s = (e, s') \<Longrightarrow> ws_policy_of s' = ws_policy_of s"
  by (auto dest!: WsClient_SendMsg_frame simp: ws_policy_of_def)

lemma Close_policy: "ws_policy_of (snd (WsClient_Close L c s)) = ws_policy_of s"
  by (simp add: WsClient_Close_def Let_def split: option.split prod.split)

lemma ReceiveMsg_policy: "WsClient_ReceiveMsg L c r s = (m, s') \<Longrightarrow> ws_policy_of s' = ws_policy_of s"
  using Close_policy [of L c s]
  by (auto simp: WsClient_ReceiveMsg_def split: if_splits ws_read.splits prod.splits option.splits)

lemma denied_policy: "ws_denied L c q label s = (e, s') \<Longrightarrow> ws_policy_of s' = ws_policy_of s"
  by (auto simp: ws_denied_def split: prod.splits option.splits dest: SendMsg_policy)

lemma forward_policy:
  assumes "ws_forward L c q label k s = (e, s')"
    and "\<And>res t e t'. k res t = (e, t') \<Longrightarrow> ws_policy_of t' = ws_policy_of t"
  shows "ws_policy_of s' = ws_policy_of s"
proof -
  obtain x s1 where up: "ws_upstream L c q s = (x, s1)" by fastforce
  then have s1: "ws_policy_of s1 = ws_policy_of s" by (auto simp: ws_upstream_def split: prod.splits)
  show ?thesis
  proof (cases "\<exists>res. x = Ret (Inr res)")
    case True
    then obtain res where x: "x = Ret (Inr res)" by blast
    obtain e2 s2 where send: "WsClient_SendMsg L c res s1 = (e2, s2)" by fastforce
    have "ws_policy_of s2 = ws_policy_of s1" using SendMsg_policy [OF send] .
    with s1 assms(1) up x send show ?thesis
      by (cases e2) (auto simp: ws_forward_def dest!: assms(2))
  next
    case False
    with assms(1) up s1 show ?thesis by (auto simp: ws_forward_def split: outcome.splits sum.splits)
  qed
qed

lemma store_policy: "ws_store L hash rc res s = (e, s') \<Longrightarrow> ws_policy_of s' = ws_policy_of s"
  by (auto simp: ws_store_def split: option.splits if_splits prod.splits)

lemma allowed_policy:
  assumes "ws_allowed L c q rc s = (e, s')"
  shows "ws_policy_of s' = ws_policy_of s"
proof -
  have miss: "ws_policy_of t' = ws_policy_of t"
    if "ws_forward L c q RuleActionAllow (ws_store L (JsonRpcMsg_Hash (we_codec L) q) rc') t = (x, t')" for rc' t x t'
    by (rule forward_policy [OF that store_policy])
  show ?thesis
    using assms
    by (cases rc) (auto simp: ws_allowed_def Let_def split: option.splits prod.splits if_splits sum.splits
        dest!: miss SendMsg_policy)
qed

lemma handleRequest_policy:
  assumes "WebSocketProxy_handleRequest L c q s = (e, s')"
  shows "ws_policy_of s' = ws_policy_of s"
proof -
  have "ws_policy_of s' = ws_policy_of s" if "ws_forward L c q l (\<lambda>_ t. (Ret None, t)) s = (e, s')" for l
    by (rule forward_policy [OF that]) simp
  then show ?thesis
    using assms
    by (auto simp: WebSocketProxy_handleRequest_def ws_rules_loop_policy
        split: outcome.splits verdict.splits option.splits dest: allowed_policy denied_policy)
qed

text \<open>Reading one more message ends the session, or leaves it in related states.\<close>

lemma ws_serve_step:
  assumes "ws_sim L c s t"
  shows "(\<exists>o' s1 t1. ws_sim L c s1 t1 \<and> (\<forall>rs. ws_serve L c (r # rs) s = (o', s1) \<and> ws_serve L c (r # rs) t = (o', t1)))
    \<or> (\<exists>s1 t1. ws_sim L c s1 t1 \<and> ws_policy_of s1 = ws_policy_of s
         \<and> (\<forall>rs. ws_serve L c (r # rs) s = ws_serve L c rs s1 \<and> ws_serve L c (r # rs) t = ws_serve L c rs t1))"
proof -
  obtain m s1 t1 where recv: "WsClient_ReceiveMsg L c r s = (m, s1)" "WsClient_ReceiveMsg L c r t = (m, t1)"
    and s1: "ws_sim L c s1 t1" by (rule respectsE [OF ws_respects_ReceiveMsg assms])
  note pol = ReceiveMsg_policy [OF recv(1)]
  show ?thesis
  proof (cases m)
    case (Inl e)
    obtain x s2 t2 where "WsClient_Close L c s1 = (x, s2)" "WsClient_Close L c t1 = (x, t2)" "ws_sim L c s2 t2"
      by (rule respectsE [OF ws_respects_Close s1])
    with Inl recv s1 pol show ?thesis by (cases "e = ErrClosed") auto
  next
    case (Inr q)
    obtain x s2 t2 where q: "WebSocketProxy_handleRequest L c q s1 = (x, s2)"
      "WebSocketProxy_handleRequest L c q t1 = (x, t2)" "ws_sim L c s2 t2"
      by (rule respectsE [OF ws_respects_handleRequest s1])
    with Inr recv pol handleRequest_policy [OF q(1)] show ?thesis by (cases x) auto
  qed
qed

text \<open>Leaving out the requests that the rules deny changes nothing but the refusals.\<close>

definition ws_admits :: "('g, 'c, 'cl, 'w) ws_env \<Rightarrow> ('g, 'c, 'cl, 'w) WsState \<Rightarrow> ws_read \<Rightarrow> bool" where
  "ws_admits L s r \<longleftrightarrow> \<not> ws_refuses L (ws_rules s) (ws_defaultAction s) r"

lemma ws_admits_cong: "ws_policy_of s = ws_policy_of t \<Longrightarrow> ws_admits L s = ws_admits L t"
  by (simp add: ws_admits_def ws_policy_of_def fun_eq_iff)

lemma ws_serve_filtered:
  "ws_sim L c s t \<Longrightarrow> \<exists>o' s' t'. ws_serve L c rs s = (o', s')
     \<and> ws_serve L c (filter (ws_admits L s) rs) t = (o', t') \<and> ws_sim L c s' t'"
proof (induction rs arbitrary: s t)
  case (Cons r rs)
  show ?case
  proof (cases "ws_admits L s r")
    case False
    then obtain s1 where s1: "ws_sim L c s s1"
      and run: "ws_serve L c (r # rs) s = (if c \<in> set (ws_closed s) then (Ret (), s) else ws_serve L c rs s1)"
      using ws_refused_step [of L s r c rs] by (auto simp: ws_admits_def)
    have "ws_policy_of s1 = ws_policy_of s" using s1 by (simp add: ws_sim_def ws_policy_of_def)
    note same = ws_admits_cong [OF this, of L]
    have "ws_closed s = ws_closed t" using Cons.prems by (simp add: ws_sim_def)
    with Cons.prems False run ws_serve_closed [of c t L]
      Cons.IH [OF ws_sim_trans [OF ws_sim_sym [OF s1] Cons.prems], unfolded same]
    show ?thesis by auto
  next
    case True
    from ws_serve_step [OF Cons.prems, of r] show ?thesis
    proof (elim disjE exE conjE)
      fix o' s1 t1 assume "ws_sim L c s1 t1"
        "\<forall>rs. ws_serve L c (r # rs) s = (o', s1) \<and> ws_serve L c (r # rs) t = (o', t1)"
      with True show ?thesis by simp
    next
      fix s1 t1 assume s1: "ws_sim L c s1 t1" "ws_policy_of s1 = ws_policy_of s"
        "\<forall>rs. ws_serve L c (r # rs) s = ws_serve L c rs s1 \<and> ws_serve L c (r # rs) t = ws_serve L c rs t1"
      with True Cons.IH [OF s1(1), unfolded ws_admits_cong [OF s1(2), of L]] show ?thesis by simp
    qed
  qed
qed simp

lemma ws_session_filtered:
  "\<exists>o' s' t'. WebSocketProxy_HandleConnection L up c reads s = (o', s')
     \<and> WebSocketProxy_HandleConnection L up c (filter (ws_admits L s) reads) s = (o', t') \<and> ws_sim L c s' t'"
proof (cases up)
  case None
  obtain o' s1 t1 where "ws_serve L c reads s = (o', s1)" "ws_serve L c (filter (ws_admits L s) reads) s = (o', t1)"
    and s1: "ws_sim L c s1 t1" using ws_serve_filtered [OF ws_sim_refl [of L c s], of reads] by blast
  obtain x s2 t2 where "WsClient_Close L c s1 = (x, s2)" "WsClient_Close L c t1 = (x, t2)" "ws_sim L c s2 t2"
    by (rule respectsE [OF ws_respects_Close s1])
  with None \<open>ws_serve L c reads s = (o', s1)\<close>
    \<open>ws_serve L c (filter (ws_admits L s) reads) s = (o', t1)\<close>
  show ?thesis by (simp add: WebSocketProxy_HandleConnection_def)
qed (simp add: WebSocketProxy_HandleConnection_def)

section \<open>Sessions in which every request is denied\<close>

definition refusals :: "('g, 'c, 'cl, 'w) ws_env \<Rightarrow> 'cl \<Rightarrow> ('cl \<times> string) list \<Rightarrow> bool" where
  "refusals L c l \<longleftrightarrow> (\<forall>(c', b)\<in>set l. c' = c
     \<and> (\<exists>q. JsonRpcMsg_Marshal (we_codec L) (UnauthorizedResponse q) = Inr b))"

text \<open>What a session may do to the proxy when it is refused everything.\<close>

definition only_refused ::
  "('g, 'c, 'cl, 'w) ws_env \<Rightarrow> 'cl \<Rightarrow> ('g, 'c, 'cl, 'w) WsState \<Rightarrow> ('g, 'c, 'cl, 'w) WsState \<Rightarrow> bool" where
  "only_refused L c s s' \<longleftrightarrow> ws_broker s' = ws_broker s \<and> ws_cache s' = ws_cache s
     \<and> ws_world s' = ws_world s \<and> ws_rules s' = ws_rules s \<and> ws_defaultAction s' = ws_defaultAction s
     \<and> (\<exists>l. ws_sent s' = ws_sent s @ l \<and> refusals L c l)"

lemma only_refused_refl: "only_refused L c s s"
  by (simp add: only_refused_def refusals_def)

lemma only_refused_trans: "only_refused L c s t \<Longrightarrow> only_refused L c t u \<Longrightarrow> only_refused L c s u"
  by (fastforce simp: only_refused_def refusals_def)

lemma only_refused_close:
  assumes "c \<notin> set (bk_callbacks (ws_broker s))"
  shows "only_refused L c s (snd (WsClient_Close L c s))"
proof -
  have "only_refused L c s (s\<lparr>ws_closed := x\<rparr>)" for x
    by (simp add: only_refused_def refusals_def)
  then show ?thesis
    using assms only_refused_refl [of L c s]
    by (auto simp: WsClient_Close_def Let_def split: option.split)
qed

lemma only_refused_receive:
  "c \<notin> set (bk_callbacks (ws_broker s)) \<Longrightarrow> only_refused L c s (snd (WsClient_ReceiveMsg L c r s))"
  using only_refused_close [of c s L] only_refused_refl [of L c s]
  by (auto simp: WsClient_ReceiveMsg_def split: ws_read.split prod.split option.split)

lemma only_refused_send:
  "only_refused L c s (snd (WsClient_SendMsg L c (UnauthorizedResponse q) s))"
  using only_refused_refl [of L c s]
  by (auto simp: WsClient_SendMsg_def only_refused_def refusals_def split: sum.split option.split)

lemma ws_observe_refused: "only_refused L c s s' \<Longrightarrow> only_refused L c s (ws_observe l s')"
  by (simp add: only_refused_def)

lemma ws_denied_refused:
  "returns (fst (ws_denied L c q label s)) \<and> only_refused L c s (snd (ws_denied L c q label s))"
proof -
  obtain e s' where send: "WsClient_SendMsg L c (UnauthorizedResponse q) s = (e, s')" by fastforce
  with only_refused_send [of L c s q] have "only_refused L c s s'" by simp
  then show ?thesis
    by (cases e) (simp_all add: ws_denied_def send ws_observe_refused)
qed

text \<open>Every request among what the client sends is denied.\<close>

definition all_denied ::
  "('g, 'c, 'cl, 'w) ws_env \<Rightarrow> 'g JsonRpcRule list \<Rightarrow> RuleAction \<Rightarrow> ws_read list \<Rightarrow> bool" where
  "all_denied L rules d rs \<longleftrightarrow> (\<forall>m q ms. ReadMessage m \<in> set rs \<longrightarrow>
     ParseJsonRpcMessage (we_codec L) m = (Some q, ms, None) \<longrightarrow>
     (\<exists>x. rpc_policy (we_glob L) q d rules = Ret (Denied x)))"

lemma all_deniedD:
  "all_denied L rules d rs \<Longrightarrow> ReadMessage m \<in> set rs \<Longrightarrow>
     ParseJsonRpcMessage (we_codec L) m = (Some q, ms, None) \<Longrightarrow>
     \<exists>x. rpc_policy (we_glob L) q d rules = Ret (Denied x)"
  by (simp add: all_denied_def)

lemma handleRequest_refused:
  assumes "rpc_policy (we_glob L) q (ws_defaultAction s) (ws_rules s) = Ret (Denied x)"
  shows "returns (fst (WebSocketProxy_handleRequest L c q s))
    \<and> only_refused L c s (snd (WebSocketProxy_handleRequest L c q s))"
  using assms
  by (simp add: WebSocketProxy_handleRequest_def ws_rules_loop_policy ws_denied_refused split: option.split)

lemma ReceiveMsg_request:
  "WsClient_ReceiveMsg L c r s = (Inr q, s') \<Longrightarrow>
     \<exists>m ms. r = ReadMessage m \<and> ParseJsonRpcMessage (we_codec L) m = (Some q, ms, None)"
  by (auto simp: WsClient_ReceiveMsg_def split: if_splits ws_read.splits prod.splits option.splits)

lemma ws_serve_refused:
  "all_denied L (ws_rules s) (ws_defaultAction s) rs \<Longrightarrow> c \<notin> set (bk_callbacks (ws_broker s)) \<Longrightarrow>
     ws_serve L c rs s = (out, s') \<Longrightarrow> out = Ret () \<and> only_refused L c s s'"
proof (induction rs arbitrary: s)
  case Nil
  then show ?case by (simp add: only_refused_refl)
next
  case (Cons r rs)
  have step: "all_denied L (ws_rules t) (ws_defaultAction t) rs" "c \<notin> set (bk_callbacks (ws_broker t))"
    if "only_refused L c s t" for t
    using that Cons.prems(1,2) by (auto simp: only_refused_def all_denied_def)
  have rest: "out = Ret () \<and> only_refused L c s s'"
    if "only_refused L c s t" "ws_serve L c rs t = (out, s')" for t
    using Cons.IH [OF step [OF that(1)] that(2)] only_refused_trans [OF that(1)] by blast
  obtain m s1 where recv: "WsClient_ReceiveMsg L c r s = (m, s1)" by fastforce
  have s1: "only_refused L c s s1" using only_refused_receive [OF Cons.prems(2), of L r] recv by simp
  show ?case
  proof (cases m)
    case (Inl e)
    show ?thesis
    proof (cases "e = ErrClosed")
      case True
      with Cons.prems(3) recv Inl have "out = Ret ()" "s' = snd (WsClient_Close L c s1)" by auto
      with only_refused_trans [OF s1 only_refused_close [OF step(2) [OF s1]]] show ?thesis by blast
    next
      case False
      with Cons.prems(3) recv Inl rest [OF s1] show ?thesis by simp
    qed
  next
    case (Inr q)
    obtain o2 s2 where run: "WebSocketProxy_handleRequest L c q s1 = (o2, s2)" by fastforce
    obtain x where "rpc_policy (we_glob L) q (ws_defaultAction s1) (ws_rules s1) = Ret (Denied x)"
      using ReceiveMsg_request [OF recv [unfolded Inr]] all_deniedD [OF Cons.prems(1), of _ q] s1
      by (auto simp: only_refused_def)
    from handleRequest_refused [OF this, of c] have "returns o2" "only_refused L c s s2"
      using only_refused_trans [OF s1] run by auto
    with Cons.prems(3) recv Inr run rest [of s2] show ?thesis by (auto elim: returnsE)
  qed
qed

lemma ws_session_refused:
  assumes "all_denied L (ws_rules s) (ws_defaultAction s) reads" and "c \<notin> set (bk_callbacks (ws_broker s))"
    and "WebSocketProxy_HandleConnection L upgrade c reads s = (out, s')"
  shows "out = Ret () \<and> only_refused L c s s'"
proof (cases upgrade)
  case (Some e)
  with assms(3) show ?thesis by (simp add: WebSocketProxy_HandleConnection_def only_refused_refl)
next
  case None
  obtain o1 s1 where serve: "ws_serve L c reads s = (o1, s1)" by fastforce
  then have s1: "o1 = Ret ()" "only_refused L c s s1"
    using ws_serve_refused [OF assms(1,2)] by simp_all
  then have "c \<notin> set (bk_callbacks (ws_broker s1))" using assms(2) by (simp add: only_refused_def)
  from only_refused_trans [OF s1(2) only_refused_close [OF this]]
  show ?thesis using assms(3) None serve s1(1) by (simp add: WebSocketProxy_HandleConnection_def)
qed

text \<open>A session leaves the rules as they are.\<close>

lemma ws_serve_policy: "ws_serve L c rs s = (out, s') \<Longrightarrow> ws_policy_of s' = ws_policy_of s"
proof (induction rs arbitrary: s)
  case (Cons r rs)
  obtain m s1 where recv: "WsClient_ReceiveMsg L c r s = (m, s1)" by fastforce
  note s1 = ReceiveMsg_policy [OF recv]
  show ?case
  proof (cases m)
    case (Inl e)
    with Cons recv s1 Close_policy [of L c s1] show ?thesis by (auto split: if_splits)
  next
    case (Inr q)
    obtain x s2 where q: "WebSocketProxy_handleRequest L c q s1 = (x, s2)" by fastforce
    with Cons recv s1 Inr handleRequest_policy [OF q] show ?thesis by (auto split: outcome.splits)
  qed
qed simp

lemma ws_session_policy:
  assumes "WebSocketProxy_HandleConnection L up c rs s = (out, s')"
  shows "ws_policy_of s' = ws_policy_of s"
proof -
  obtain o1 s1 where serve: "ws_serve L c rs s = (o1, s1)" by fastforce
  show ?thesis using assms Close_policy [of L c s1] ws_serve_policy [OF serve]
    by (cases up) (auto simp: WebSocketProxy_HandleConnection_def serve)
qed

end
