(* ===== verification/WsProps.thy ===== *)
theory WsProps
  imports WsSpec JsonRpcProps BrokerProps
begin

text \<open>The properties of the WebSocket proxy.\<close>

section \<open>A session in which every request is denied\<close>

text \<open>
  C15: A session in which the client sends only requests that the rules deny (and anything that is no
  request): it ends without a panic, leaves the upstream connections, the subscriptions and the
  cache as they were, and all the client gets is refusals.
\<close>

theorem ws_denied_session_untouched:
  assumes "\<And>m q ms. ReadMessage m \<in> set reads \<Longrightarrow> ParseJsonRpcMessage (we_codec L) m = (Some q, ms, None) \<Longrightarrow>
      \<exists>x. rpc_policy (we_glob L) q (ws_defaultAction s) (ws_rules s) = Ret (Denied x)"
    and "c \<notin> set (bk_callbacks (ws_broker s))"
    and "WebSocketProxy_HandleConnection L upgrade c reads s = (out, s')"
  shows "out = Ret () \<and> ws_broker s' = ws_broker s \<and> ws_world s' = ws_world s \<and> ws_cache s' = ws_cache s
    \<and> (\<exists>l. ws_sent s' = ws_sent s @ l \<and> (\<forall>(c', b)\<in>set l. c' = c
         \<and> (\<exists>q. JsonRpcMsg_Marshal (we_codec L) (UnauthorizedResponse q) = Inr b)))"
  using ws_session_refused [OF _ assms(2,3)] assms(1)
  by (simp add: all_denied_def only_refused_def refusals_def)

text \<open>A proxy over an upstream that accepts everything, with a Go map for its cache.\<close>

definition map_cache :: "((64 word, JsonRpcMsg) gomap, 64 word, JsonRpcMsg) cache_api" where
  "map_cache = \<lparr>c_set = (\<lambda>k v ttl c. (None, gm_put k v c)),
     c_get = (\<lambda>k c. (case gm_get c k of None \<Rightarrow> Inl ErrNotFound | Some v \<Rightarrow> Inr v, c)),
     c_has = (\<lambda>k c. ((gm_has c k, None), c))\<rparr>"

type_synonym demo_ws_state = "(string, (64 word, JsonRpcMsg) gomap, nat, unit) WsState"

definition demo_ws_env :: "(string, (64 word, JsonRpcMsg) gomap, nat, unit) ws_env" where
  "demo_ws_env = \<lparr>we_glob = exact_glob, we_cache = map_cache, we_codec = demo_codec,
     we_upstream = accepting_upstream, we_write = (\<lambda>_ _. None), we_close = (\<lambda>_. None)\<rparr>"

definition demo_ws :: "string JsonRpcRule list \<Rightarrow> RuleAction \<Rightarrow> demo_ws_state" where
  "demo_ws rules d = WebSocketProxy_SetRules rules d (NewJsonRpcWebSocketProxy 2 [] False ())"

theorem ws_denied_session_untouched_witness:
  "\<exists>s'. WebSocketProxy_HandleConnection demo_ws_env None 7 [ReadMessage ''a'', ReadClose]
      (demo_ws [] RuleActionDeny) = (Ret (), s')
    \<and> ws_broker s' = NewBroker 2 \<and> ws_cache s' = []"
proof -
  let ?s = "demo_ws [] RuleActionDeny"
  obtain out s' where run:
    "WebSocketProxy_HandleConnection demo_ws_env None 7 [ReadMessage ''a'', ReadClose] ?s = (out, s')"
    by fastforce
  have s: "ws_rules ?s = []" "ws_defaultAction ?s = RuleActionDeny" "ws_broker ?s = NewBroker 2"
    "ws_cache ?s = []" "RuleActionDeny \<noteq> RuleActionAllow"
    by (simp_all add: demo_ws_def WebSocketProxy_SetRules_def NewJsonRpcWebSocketProxy_def
        RuleActionDeny_def RuleActionAllow_def)
  have "\<exists>x. rpc_policy (we_glob demo_ws_env) q (ws_defaultAction ?s) (ws_rules ?s) = Ret (Denied x)" for q
    by (simp add: s rpc_policy_def)
  moreover have "7 \<notin> set (bk_callbacks (ws_broker ?s))" by (simp add: s NewBroker_def)
  ultimately show ?thesis using ws_denied_session_untouched [OF _ _ run] run s by fastforce
qed

section \<open>Denied requests leave no trace\<close>

text \<open>
  C16: In any session, mixed requests included, the requests that the rules deny are invisible but for
  their refusals: had the client not sent them, the session would end the same way and leave the same
  subscriptions, upstream connections, cache and closed clients, and every client would have
  got the same messages other than this client's refusals.
\<close>

theorem ws_denied_requests_invisible:
  "\<exists>out s' t'. WebSocketProxy_HandleConnection L upgrade c reads s = (out, s')
     \<and> WebSocketProxy_HandleConnection L upgrade c (filter (ws_admits L s) reads) s = (out, t')
     \<and> ws_broker s' = ws_broker t' \<and> ws_world s' = ws_world t' \<and> ws_cache s' = ws_cache t'
     \<and> ws_closed s' = ws_closed t'
     \<and> filter (Not \<circ> refusal L c) (ws_sent s') = filter (Not \<circ> refusal L c) (ws_sent t')"
  using ws_session_filtered [of L upgrade c reads s] unfolding ws_sim_def by blast

section \<open>The cache\<close>

text \<open>
  C34: When an allowing rule with a \<open>cache\<close> section decides a WebSocket request and an answer to an
  equal request is cached, the client gets that answer under its own id and neither the upstream
  nor the broker is asked.  This holds whatever \<open>enable\<close> says, and for \<open>subscribe\<close> too: the client is
  then told that it subscribed, and is not.
\<close>

theorem ws_cache_hit:
  assumes "rpc_policy (we_glob L) q (ws_defaultAction s) (ws_rules s) = Ret (Allowed (Some rule))"
    and "jq_Cache rule = Some rc"
    and "c_has (we_cache L) (JsonRpcMsg_Hash (we_codec L) q) (ws_cache s) = ((True, e), k1)"
    and "c_get (we_cache L) (JsonRpcMsg_Hash (we_codec L) q) k1 = (Inr res, k2)"
    and "c \<notin> set (ws_closed s)"
    and "JsonRpcMsg_Marshal (we_codec L) (JsonRpcMsg_CloneWithID (jm_ID q) res) = Inr b"
    and "we_write L c b = None"
  shows "\<exists>s'. WebSocketProxy_handleRequest L c q s = (Ret None, s')
    \<and> ws_sent s' = ws_sent s @ [(c, b)] \<and> ws_broker s' = ws_broker s \<and> ws_world s' = ws_world s"
  using assms
  by (simp add: WebSocketProxy_handleRequest_def ws_rules_loop_policy ws_allowed_def WsClient_SendMsg_def)

theorem ws_cache_hit_witness:
  "\<exists>s'. WebSocketProxy_handleRequest demo_ws_env 8 demo_subscribe
      ((demo_ws [demo_rpc_rule RuleActionAllow [] (Some \<lparr>rc_Enable = False, rc_TTL = 5, rc_CacheError = False,
         rc_CacheEmptyResult = False\<rparr>)] RuleActionDeny)
       \<lparr>ws_cache := [(JsonRpcMsg_Hash demo_codec demo_subscribe, EmptyResult demo_subscribe)]\<rparr>) = (Ret None, s')
    \<and> ws_broker s' = NewBroker 2"
proof -
  let ?rc = "\<lparr>rc_Enable = False, rc_TTL = 5, rc_CacheError = False, rc_CacheEmptyResult = False\<rparr>"
  let ?rule = "demo_rpc_rule RuleActionAllow [] (Some ?rc)"
  let ?c = "[(JsonRpcMsg_Hash demo_codec demo_subscribe, EmptyResult demo_subscribe)]"
  let ?s = "(demo_ws [?rule] RuleActionDeny)\<lparr>ws_cache := ?c\<rparr>"
  have s: "ws_rules ?s = [?rule]" "ws_broker ?s = NewBroker 2" "ws_cache ?s = ?c" "ws_closed ?s = []"
    by (simp_all add: demo_ws_def WebSocketProxy_SetRules_def NewJsonRpcWebSocketProxy_def)
  have "rpc_policy (we_glob demo_ws_env) demo_subscribe (ws_defaultAction ?s) (ws_rules ?s) = Ret (Allowed (Some ?rule))"
    unfolding s by (simp add: rpc_policy_def demo_ws_env_def demo_match)
  moreover have "jq_Cache ?rule = Some ?rc" by simp
  moreover have "c_has (we_cache demo_ws_env) (JsonRpcMsg_Hash (we_codec demo_ws_env) demo_subscribe) (ws_cache ?s)
      = ((True, None), ?c)"
    unfolding s by (simp add: demo_ws_env_def map_cache_def)
  moreover have "c_get (we_cache demo_ws_env) (JsonRpcMsg_Hash (we_codec demo_ws_env) demo_subscribe) ?c
      = (Inr (EmptyResult demo_subscribe), ?c)"
    by (simp add: demo_ws_env_def map_cache_def)
  moreover have "8 \<notin> set (ws_closed ?s)" by (simp add: s)
  moreover have "JsonRpcMsg_Marshal (we_codec demo_ws_env)
      (JsonRpcMsg_CloneWithID (jm_ID demo_subscribe) (EmptyResult demo_subscribe)) = Inr []"
    by (simp add: demo_ws_env_def JsonRpcMsg_Marshal_def demo_codec_def EmptyResult_def zero_msg_def)
  moreover have "we_write demo_ws_env 8 [] = None" by (simp add: demo_ws_env_def)
  ultimately show ?thesis using ws_cache_hit [of demo_ws_env demo_subscribe ?s ?rule ?rc None ?c] s(2) by metis
qed

end
