(* ===== verification/CosmoGuard.thy ===== *)
theory CosmoGuard
  imports GrpcProxy JsonRpcHandlerSpec
begin

text \<open>
  \<open>src/pkg/cosmoguard/cosmoguard.go\<close>: the supervisor, which builds the proxies from the
  configuration, hands them their rules, and loads the configuration again when its directory
  changes.

  The proxies are those of their theories; an endpoint handler is a name, for the pointer the
  HTTP proxy and the supervisor share.  \<open>Run\<close> of the proxies and the metrics server, which serve in
  goroutines of their own, are not modelled.
\<close>

section \<open>State\<close>

datatype rpc_handler = RpcJsonRpc | EvmJsonRpc | EvmJsonRpcWs

record ('g, 'c, 'k, 'x, 'n) CosmoGuard =
  cgd_cfgFile :: string
  cgd_cfg :: "'g Config option"
  cgd_lcdProxy :: "('g, 'c, rpc_handler) HttpProxy"
  cgd_rpcProxy :: "('g, 'c, rpc_handler) HttpProxy"
  cgd_grpcProxy :: "('g, 'n) GrpcProxy"
  cgd_jsonRpcHandler :: "('g, 'k, 'x) JsonRpcHandler"
  cgd_evmRpcProxy :: "('g, 'c, rpc_handler) HttpProxy option"
  cgd_evmRpcWsProxy :: "('g, 'c, rpc_handler) HttpProxy option"
  cgd_evmJsonRpcHandler :: "('g, 'k, 'x) JsonRpcHandler option"
  cgd_evmJsonRpcWsHandler :: "('g, 'k, 'x) JsonRpcHandler option"

text \<open>
  What building uses: the configuration's library, the network, the cache libraries, and the
  construction of a WebSocket proxy from a name and the options.
\<close>

record ('g, 'n, 'm, 'q, 's, 'o, 'x) sys_lib =
  sl_config :: "'g config_lib"
  sl_Listen :: "string \<Rightarrow> err option"
  sl_Dial :: "string \<Rightarrow> err + 'n"
  sl_url_Parse :: "string \<Rightarrow> err option"
  sl_http_ttlcache :: "('m, string namespacedKey, CachedResponse) ttlcache"
  sl_rpc_ttlcache :: "('q, 64 word namespacedKey, JsonRpcMsg) ttlcache"
  sl_redis :: "('s, 'o) redis"
  sl_newWs :: "string \<Rightarrow> JsonRpcHandlerOptions \<Rightarrow> 'x"

type_synonym ('g, 'm, 'q, 's, 'x, 'n) guard =
  "('g, ('m, 's) any_cache, ('q, 's) any_cache, 'x, 'n) CosmoGuard"

section \<open>Building\<close>

definition host_port :: "string \<Rightarrow> int \<Rightarrow> string" where
  "host_port host port = host @ '':'' @ Itoa port"

definition http_host_port :: "string \<Rightarrow> int \<Rightarrow> string" where
  "http_host_port host port = ''http://'' @ host_port host port"

definition set_up :: "string \<Rightarrow> err + 'a \<Rightarrow> ('a \<Rightarrow> err + 'b) \<Rightarrow> err + 'b" where
  "set_up what r f = (case r of Inl _ \<Rightarrow> Inl (ErrText what) | Inr x \<Rightarrow> f x)"

definition new_http ::
  "('g, 'n, 'm, 'q, 's, 'o, 'x) sys_lib \<Rightarrow> 'g Config \<Rightarrow> string \<Rightarrow> int \<Rightarrow> int
     \<Rightarrow> (rpc_handler HttpProxyOptions \<Rightarrow> rpc_handler HttpProxyOptions) list
     \<Rightarrow> err + ('g, ('m, 's) any_cache, rpc_handler) HttpProxy" where
  "new_http lib cfg name port node_port opts =
     NewHttpProxy (sl_http_ttlcache lib) (sl_redis lib) (sl_url_Parse lib) name
       (host_port (cfg_Host cfg) port) (http_host_port (nc_Host (cfg_Node cfg)) node_port)
       ([WithCacheConfig_Http (Some (cfg_Cache cfg)),
         WithMetricsEnabled_Http (mt_Enable (cfg_Metrics cfg))] @ opts)"

definition new_rpc_handler ::
  "('g, 'n, 'm, 'q, 's, 'o, 'x) sys_lib \<Rightarrow> 'g Config \<Rightarrow> string
     \<Rightarrow> (JsonRpcHandlerOptions \<Rightarrow> JsonRpcHandlerOptions) list
     \<Rightarrow> err + ('g, ('q, 's) any_cache, 'x) JsonRpcHandler" where
  "new_rpc_handler lib cfg name opts =
     NewJsonRpcHandler (sl_rpc_ttlcache lib) (sl_redis lib) (sl_newWs lib) name
       (WithCacheConfig_JsonRpc (Some (cfg_Cache cfg)) # opts @
        [WithMetricsEnabled_JsonRpc (mt_Enable (cfg_Metrics cfg))])"

definition rpc_endpoints :: "Endpoint list" where
  "rpc_endpoints = [\<lparr>ep_Path = ''/'', ep_Method = ''POST''\<rparr>,
     \<lparr>ep_Path = defaultWebsocketPath, ep_Method = ''GET''\<rparr>]"

text \<open>The four proxies and handlers for EVM.\<close>

definition New_evm ::
  "('g, 'n, 'm, 'q, 's, 'o, 'x) sys_lib \<Rightarrow> 'g Config \<Rightarrow> ('g, 'm, 'q, 's, 'x, 'n) guard
     \<Rightarrow> err + ('g, 'm, 'q, 's, 'x, 'n) guard" where
  "New_evm lib cfg f =
     (let node = cfg_Node cfg
      in set_up ''error setting up jsonrpc handler for evm-rpc''
           (new_rpc_handler lib cfg ''evm_jsonrpc'' [WithWebSocketEnabled False]) (\<lambda>handler.
         set_up ''error setting up evm-rpc cosmoguard proxy''
           (new_http lib cfg ''evm_rpc'' (cfg_EvmRpcPort cfg) (nc_EvmRpcPort node)
             [WithEndpointHandler [\<lparr>ep_Path = ''/'', ep_Method = ''POST''\<rparr>] EvmJsonRpc]) (\<lambda>rpc.
         set_up ''error setting up jsonrpc handler for evm-rpc''
           (new_rpc_handler lib cfg ''evm_jsonrpc_ws''
             [WithWebSocketEnabled True,
              WithWebSocketConnections (ew_WebSocketConnections (evm_WS (cfg_EVM cfg))),
              WithWebSocketBackend (host_port (nc_Host node) (nc_EvmRpcWsPort node)),
              WithWebSocketPath ''/'', WithUpstreamManager EthUpstream]) (\<lambda>ws_handler.
         set_up ''error setting up evm-rpc-ws cosmoguard proxy''
           (new_http lib cfg ''evm_rpc_ws'' (cfg_EvmRpcWsPort cfg) (nc_EvmRpcWsPort node)
             [WithEndpointHandler [\<lparr>ep_Path = ''/'', ep_Method = ''GET''\<rparr>] EvmJsonRpcWs]) (\<lambda>ws.
         Inr (f\<lparr>cgd_evmJsonRpcHandler := Some handler, cgd_evmRpcProxy := Some rpc,
           cgd_evmJsonRpcWsHandler := Some ws_handler, cgd_evmRpcWsProxy := Some ws\<rparr>))))))"

definition New_from ::
  "('g, 'n, 'm, 'q, 's, 'o, 'x) sys_lib \<Rightarrow> string \<Rightarrow> 'g Config
     \<Rightarrow> err + ('g, 'm, 'q, 's, 'x, 'n) guard" where
  "New_from lib path cfg =
     (let node = cfg_Node cfg; metrics = mt_Enable (cfg_Metrics cfg)
      in set_up ''error setting up grpc cosmoguard proxy''
           (NewGrpcProxy (sl_Listen lib) (sl_Dial lib) ''grpc'' (host_port (cfg_Host cfg) (cfg_GrpcPort cfg))
             (host_port (nc_Host node) (nc_GrpcPort node)) [WithMetricsEnabled_Grpc metrics]) (\<lambda>grpc.
         set_up ''error setting up lcd cosmoguard proxy''
           (new_http lib cfg ''lcd'' (cfg_LcdPort cfg) (nc_LcdPort node) []) (\<lambda>lcd.
         set_up ''error setting up jsonrpc handler''
           (new_rpc_handler lib cfg ''jsonrpc''
             [WithWebSocketEnabled (rpc_WebSocketEnabled (cfg_RPC cfg)),
              WithWebSocketBackend (host_port (nc_Host node) (nc_RpcPort node)),
              WithWebSocketConnections (rpc_WebSocketConnections (cfg_RPC cfg))]) (\<lambda>handler.
         set_up ''error setting up rpc cosmoguard proxy''
           (new_http lib cfg ''rpc'' (cfg_RpcPort cfg) (nc_RpcPort node)
             [WithEndpointHandler rpc_endpoints RpcJsonRpc]) (\<lambda>rpc.
         let f = \<lparr>cgd_cfgFile = path, cgd_cfg = Some cfg, cgd_lcdProxy = lcd, cgd_rpcProxy = rpc,
               cgd_grpcProxy = grpc, cgd_jsonRpcHandler = handler, cgd_evmRpcProxy = None,
               cgd_evmRpcWsProxy = None, cgd_evmJsonRpcHandler = None, cgd_evmJsonRpcWsHandler = None\<rparr>
         in if cfg_EnableEvm cfg then New_evm lib cfg f else Inr f)))))"

definition New ::
  "('g, 'n, 'm, 'q, 's, 'o, 'x) sys_lib \<Rightarrow> string
     \<Rightarrow> (err + ('g, 'm, 'q, 's, 'x, 'n) guard) outcome" where
  "New lib path = bind_o (ReadConfigFromFile (sl_config lib) path) (\<lambda>r. case r of
       (_, Some err) \<Rightarrow> Ret (Inl err)
     | (None, None) \<Rightarrow> Panic ''nil pointer dereference''
     | (Some cfg, None) \<Rightarrow> Ret (New_from lib path cfg))"

section \<open>Rules\<close>

text \<open>
  How far a goroutine gets: to the end, to a lock it never gets, or to a panic, which ends the
  process here.
\<close>

datatype progress = Done | Blocked | Crashed string

definition nil_pointer :: progress where
  "nil_pointer = Crashed ''nil pointer dereference''"

definition applyEvmRules ::
  "('g, 'k, 'x, 'u) rpc_env \<Rightarrow> 'g Config \<Rightarrow> ('g, 'c, 'k, 'x, 'n) CosmoGuard
     \<Rightarrow> progress \<times> ('g, 'c, 'k, 'x, 'n) CosmoGuard" where
  "applyEvmRules L cfg f =
     (let er = evm_RPC (cfg_EVM cfg); ew = evm_WS (cfg_EVM cfg)
      in case cgd_evmRpcProxy f of
           None \<Rightarrow> (nil_pointer, f)
         | Some p \<Rightarrow>
             (let f1 = f\<lparr>cgd_evmRpcProxy := Some (HttpProxy_SetRules (er_HttpRules er) (er_Default er) p)\<rparr>
              in case cgd_evmJsonRpcHandler f1 of
                   None \<Rightarrow> (nil_pointer, f1)
                 | Some h \<Rightarrow> (case JsonRpcHandler_SetRules L (er_Rules er) (er_Default er) h of
                       None \<Rightarrow> (Blocked, f1)
                     | Some h' \<Rightarrow>
                         (let f2 = f1\<lparr>cgd_evmJsonRpcHandler := Some h'\<rparr>
                          in case cgd_evmJsonRpcWsHandler f2 of
                               None \<Rightarrow> (nil_pointer, f2)
                             | Some k \<Rightarrow> (case JsonRpcHandler_SetRules L (ew_Rules ew) (ew_Default ew) k of
                                   None \<Rightarrow> (Blocked, f2)
                                 | Some k' \<Rightarrow> (Done, f2\<lparr>cgd_evmJsonRpcWsHandler := Some k'\<rparr>))))))"

definition CosmoGuard_applyRules ::
  "('g, 'k, 'x, 'u) rpc_env \<Rightarrow> ('g, 'c, 'k, 'x, 'n) CosmoGuard
     \<Rightarrow> progress \<times> ('g, 'c, 'k, 'x, 'n) CosmoGuard" where
  "CosmoGuard_applyRules L f =
     (case cgd_cfg f of
        None \<Rightarrow> (nil_pointer, f)
      | Some cfg \<Rightarrow>
          (let lcd = cfg_LCD cfg; grpc = cfg_GRPC cfg; rpc = cfg_RPC cfg;
               f1 = f\<lparr>cgd_lcdProxy := HttpProxy_SetRules (lcd_Rules lcd) (lcd_Default lcd) (cgd_lcdProxy f)\<rparr>;
               f2 = f1\<lparr>cgd_grpcProxy := GrpcProxy_SetRules (grpc_Rules grpc) (grpc_Default grpc) (cgd_grpcProxy f1)\<rparr>;
               f3 = f2\<lparr>cgd_rpcProxy := HttpProxy_SetRules (rpc_Rules rpc) (rpc_Default rpc) (cgd_rpcProxy f2)\<rparr>
           in case JsonRpcHandler_SetRules L (jc_Rules (rpc_JsonRpc rpc)) (jc_Default (rpc_JsonRpc rpc))
                 (cgd_jsonRpcHandler f3) of
                None \<Rightarrow> (Blocked, f3)
              | Some h \<Rightarrow>
                  (let f4 = f3\<lparr>cgd_jsonRpcHandler := h\<rparr>
                   in if cfg_EnableEvm cfg then applyEvmRules L cfg f4 else (Done, f4))))"

section \<open>Watching the configuration\<close>

definition CosmoGuard_loadConfig ::
  "'g config_lib \<Rightarrow> ('g, 'c, 'k, 'x, 'n) CosmoGuard
     \<Rightarrow> err option outcome \<times> ('g, 'c, 'k, 'x, 'n) CosmoGuard" where
  "CosmoGuard_loadConfig cl f =
     (case ReadConfigFromFile cl (cgd_cfgFile f) of
        Panic e \<Rightarrow> (Panic e, f)
      | Ret (cfg, err) \<Rightarrow> (Ret err, f\<lparr>cgd_cfg := cfg\<rparr>))"

text \<open>An event comes with the file system as it is then; \<open>fsnotify\<close> is the source of the events.\<close>

datatype fs_event =
    DirChanged "string \<Rightarrow> err + string"
  | EventsClosed
  | WatchError err
  | ErrorsClosed

datatype watch_result = Watching | Stopped err | Stalled | Died string

fun watch_loop ::
  "('g, 'k, 'x, 'u) rpc_env \<Rightarrow> 'g config_lib \<Rightarrow> fs_event list \<Rightarrow> ('g, 'c, 'k, 'x, 'n) CosmoGuard
     \<Rightarrow> watch_result \<times> ('g, 'c, 'k, 'x, 'n) CosmoGuard" where
  "watch_loop L cl [] f = (Watching, f)"
| "watch_loop L cl (DirChanged read # evs) f =
     (case CosmoGuard_loadConfig (cl\<lparr>cl_ReadFile := read\<rparr>) f of
        (Panic e, f1) \<Rightarrow> (Died e, f1)
      | (Ret (Some err), f1) \<Rightarrow> (Stopped err, f1)
      | (Ret None, f1) \<Rightarrow> (case CosmoGuard_applyRules L f1 of
            (Done, f2) \<Rightarrow> watch_loop L cl evs f2
          | (Blocked, f2) \<Rightarrow> (Stalled, f2)
          | (Crashed e, f2) \<Rightarrow> (Died e, f2)))"
| "watch_loop L cl (EventsClosed # evs) f = (Stopped (ErrText ''could not retrieve event''), f)"
| "watch_loop L cl (WatchError e # evs) f = (Stopped e, f)"
| "watch_loop L cl (ErrorsClosed # evs) f = (Stopped (ErrText ''could not retrieve error''), f)"

definition CosmoGuard_WatchConfigFile ::
  "('g, 'k, 'x, 'u) rpc_env \<Rightarrow> 'g config_lib \<Rightarrow> err option \<Rightarrow> err option \<Rightarrow> fs_event list
     \<Rightarrow> ('g, 'c, 'k, 'x, 'n) CosmoGuard \<Rightarrow> watch_result \<times> ('g, 'c, 'k, 'x, 'n) CosmoGuard" where
  "CosmoGuard_WatchConfigFile L cl newWatcher added evs f =
     (case newWatcher of
        Some err \<Rightarrow> (Stopped err, f)
      | None \<Rightarrow> (case added of Some err \<Rightarrow> (Stopped err, f) | None \<Rightarrow> watch_loop L cl evs f))"

definition CosmoGuard_Run ::
  "('g, 'k, 'x, 'u) rpc_env \<Rightarrow> 'g config_lib \<Rightarrow> err option \<Rightarrow> err option \<Rightarrow> fs_event list
     \<Rightarrow> ('g, 'c, 'k, 'x, 'n) CosmoGuard \<Rightarrow> watch_result \<times> ('g, 'c, 'k, 'x, 'n) CosmoGuard" where
  "CosmoGuard_Run L cl newWatcher added evs f =
     (case CosmoGuard_applyRules L f of
        (Done, f1) \<Rightarrow> CosmoGuard_WatchConfigFile L cl newWatcher added evs f1
      | (Blocked, f1) \<Rightarrow> (Stalled, f1)
      | (Crashed e, f1) \<Rightarrow> (Died e, f1))"

end
