(* ===== verification/Serving.thy ===== *)
theory Serving
  imports CosmoGuard WsSpec
begin

text \<open>
  The guard as it serves: the HTTP proxies of the four ports, each over its own node port, with the
  endpoint handlers the supervisor gave them, and each handler with its WebSocket proxy.  A
  request is served to its end before the next one; so is a WebSocket session.

  The nodes, the network and the cache libraries are parameters (\<open>sys_env\<close>), and so is what one
  client does on a WebSocket connection (\<open>session\<close>).
\<close>

section \<open>The parts put together\<close>

datatype port = LcdPort | RpcPort | EvmRpcPort | EvmWsPort

record 'cl session =
  ses_upgrade :: "err option"
  ses_client :: 'cl
  ses_reads :: "ws_read list"
  ses_writer :: "ResponseWriter \<Rightarrow> ResponseWriter"

record ('g, 'c, 'k, 'cl, 'w, 'u) sys_env =
  se_glob :: "'g globber"
  se_http_cache :: "('c, string, CachedResponse) cache_api"
  se_rpc_cache :: "('k, 64 word, JsonRpcMsg) cache_api"
  se_digest :: "string \<Rightarrow> string"
  se_grow :: "nat \<Rightarrow> nat"
  se_codec :: codec
  se_node :: "port \<Rightarrow> Request \<Rightarrow> string \<Rightarrow> 'u \<Rightarrow> wcall list \<times> 'u"
  se_ws_upstream :: "rpc_handler \<Rightarrow> 'w UpstreamConnManager"
  se_write :: "'cl \<Rightarrow> string \<Rightarrow> err option"
  se_close :: "'cl \<Rightarrow> err option"

type_synonym ('g, 'c, 'k, 'cl, 'w, 'n) serving_guard =
  "('g, 'c, 'k, ('g, 'k, 'cl, 'w) WsState, 'n) CosmoGuard"

definition ws_env_of ::
  "('g, 'c, 'k, 'cl, 'w, 'u) sys_env \<Rightarrow> rpc_handler \<Rightarrow> ('g, 'k, 'cl, 'w) ws_env" where
  "ws_env_of E name = \<lparr>we_glob = se_glob E, we_cache = se_rpc_cache E, we_codec = se_codec E,
     we_upstream = se_ws_upstream E name, we_write = se_write E, we_close = se_close E\<rparr>"

text \<open>The WebSocket proxy works on the cache of its handler.\<close>

definition ws_handler ::
  "('g, 'c, 'k, 'cl, 'w, 'u) sys_env \<Rightarrow> 'cl session \<Rightarrow> rpc_handler
     \<Rightarrow> ('g, 'k, 'cl, 'w) WsState \<Rightarrow> 'k \<Rightarrow> ResponseWriter \<Rightarrow> Request \<Rightarrow> 'u
     \<Rightarrow> ResponseWriter outcome \<times> ('g, 'k, 'cl, 'w) WsState \<times> 'k \<times> 'u" where
  "ws_handler E ses name s c w r u =
     (case WebSocketProxy_HandleConnection (ws_env_of E name) (ses_upgrade ses) (ses_client ses)
         (ses_reads ses) (s\<lparr>ws_cache := c\<rparr>) of
        (out, s') \<Rightarrow> (bind_o out (\<lambda>_. Ret (ses_writer ses w)), s', ws_cache s', u))"

definition rpc_env_of ::
  "('g, 'c, 'k, 'cl, 'w, 'u) sys_env \<Rightarrow> 'cl session \<Rightarrow> port \<Rightarrow> rpc_handler
     \<Rightarrow> ('g, 'k, ('g, 'k, 'cl, 'w) WsState, 'u) rpc_env" where
  "rpc_env_of E ses port name = \<lparr>jl_glob = se_glob E, jl_cache = se_rpc_cache E, jl_codec = se_codec E,
     jl_grow = se_grow E, jl_next = se_node E port, jl_ws_handle = ws_handler E ses name,
     jl_ws_SetRules = WebSocketProxy_SetRules\<rparr>"

fun handler_at :: "rpc_handler \<Rightarrow> ('g, 'c, 'k, 'x, 'n) CosmoGuard \<Rightarrow> ('g, 'k, 'x) JsonRpcHandler option" where
  "handler_at RpcJsonRpc f = Some (cgd_jsonRpcHandler f)"
| "handler_at EvmJsonRpc f = cgd_evmJsonRpcHandler f"
| "handler_at EvmJsonRpcWs f = cgd_evmJsonRpcWsHandler f"

fun set_handler ::
  "rpc_handler \<Rightarrow> ('g, 'k, 'x) JsonRpcHandler \<Rightarrow> ('g, 'c, 'k, 'x, 'n) CosmoGuard \<Rightarrow> ('g, 'c, 'k, 'x, 'n) CosmoGuard" where
  "set_handler RpcJsonRpc h f = f\<lparr>cgd_jsonRpcHandler := h\<rparr>"
| "set_handler EvmJsonRpc h f = f\<lparr>cgd_evmJsonRpcHandler := Some h\<rparr>"
| "set_handler EvmJsonRpcWs h f = f\<lparr>cgd_evmJsonRpcWsHandler := Some h\<rparr>"

fun proxy_at ::
  "port \<Rightarrow> ('g, 'c, 'k, 'x, 'n) CosmoGuard \<Rightarrow> ('g, 'c, rpc_handler) HttpProxy option" where
  "proxy_at LcdPort f = Some (cgd_lcdProxy f)"
| "proxy_at RpcPort f = Some (cgd_rpcProxy f)"
| "proxy_at EvmRpcPort f = cgd_evmRpcProxy f"
| "proxy_at EvmWsPort f = cgd_evmRpcWsProxy f"

fun set_proxy ::
  "port \<Rightarrow> ('g, 'c, rpc_handler) HttpProxy \<Rightarrow> ('g, 'c, 'k, 'x, 'n) CosmoGuard \<Rightarrow> ('g, 'c, 'k, 'x, 'n) CosmoGuard" where
  "set_proxy LcdPort p f = f\<lparr>cgd_lcdProxy := p\<rparr>"
| "set_proxy RpcPort p f = f\<lparr>cgd_rpcProxy := p\<rparr>"
| "set_proxy EvmRpcPort p f = f\<lparr>cgd_evmRpcProxy := Some p\<rparr>"
| "set_proxy EvmWsPort p f = f\<lparr>cgd_evmRpcWsProxy := Some p\<rparr>"

text \<open>
  What the HTTP proxy of a port works with.  The world beyond it is the guard, whose handlers it
  calls, and the nodes; a handler gets the proxy's own reverse proxy.
\<close>

definition http_env_of ::
  "('g, 'c, 'k, 'cl, 'w, 'u) sys_env \<Rightarrow> 'cl session \<Rightarrow> port
     \<Rightarrow> ('g, 'c, rpc_handler, ('g, 'c, 'k, 'cl, 'w, 'n) serving_guard \<times> 'u) http_env" where
  "http_env_of E ses port = \<lparr>he_glob = se_glob E, he_cache = se_http_cache E, he_digest = se_digest E,
     he_grow = se_grow E,
     he_proxy = (\<lambda>r b (f, u). case se_node E port r b u of (cs, u') \<Rightarrow> (cs, f, u')),
     he_handle = (\<lambda>name w r (f, u). case handler_at name f of
         None \<Rightarrow> (Panic ''nil pointer dereference'', f, u)
       | Some h \<Rightarrow> (case JsonRpcHandler_ServeHTTP (rpc_env_of E ses port name) w r h u of
             (out, h', u') \<Rightarrow> (out, set_handler name h' f, u')))\<rparr>"

text \<open>A request on a port; \<open>None\<close> when nothing listens there.\<close>

definition CosmoGuard_serve ::
  "('g, 'c, 'k, 'cl, 'w, 'u) sys_env \<Rightarrow> 'cl session \<Rightarrow> port \<Rightarrow> Request
     \<Rightarrow> ('g, 'c, 'k, 'cl, 'w, 'n) serving_guard \<Rightarrow> 'u
     \<Rightarrow> (ResponseWriter outcome \<times> ('g, 'c, 'k, 'cl, 'w, 'n) serving_guard \<times> 'u) option" where
  "CosmoGuard_serve E ses port r f u = (case proxy_at port f of
       None \<Rightarrow> None
     | Some p \<Rightarrow> (case HttpProxy_ServeHTTP (http_env_of E ses port) new_writer r p (f, u) of
           (out, p', f', u') \<Rightarrow> Some (out, set_proxy port p' f', u')))"

text \<open>
  The guard at work: requests are served, and the configuration is read again when it changes.  The
  state comes with the configurations applied so far, the latest first.  A reload that stalls or
  stops the program is no step.
\<close>

inductive guard_step ::
  "('g, 'c, 'k, 'cl, 'w, 'u) sys_env \<Rightarrow> 'g config_lib
     \<Rightarrow> 'g Config list \<times> ('g, 'c, 'k, 'cl, 'w, 'n) serving_guard \<times> 'u
     \<Rightarrow> 'g Config list \<times> ('g, 'c, 'k, 'cl, 'w, 'n) serving_guard \<times> 'u \<Rightarrow> bool"
  for E cl where
  Serve: "CosmoGuard_serve E ses port r f u = Some (out, f', u') \<Longrightarrow>
     guard_step E cl (cfgs, f, u) (cfgs, f', u')"
| Reload: "CosmoGuard_loadConfig (cl\<lparr>cl_ReadFile := fs\<rparr>) f = (Ret None, f1) \<Longrightarrow> cgd_cfg f1 = Some cfg \<Longrightarrow>
     CosmoGuard_applyRules (rpc_env_of E ses port name) f1 = (Done, f2) \<Longrightarrow>
     guard_step E cl (cfgs, f, u) (cfg # cfgs, f2, u)"

text \<open>The states from a start on: the guard is built, its rules are applied, and it serves.\<close>

inductive guard_reach ::
  "('g, 'c, 'k, 'cl, 'w, 'u) sys_env \<Rightarrow> 'g config_lib
     \<Rightarrow> ('g, 'c, 'k, 'cl, 'w, 'n) serving_guard
     \<Rightarrow> 'g Config list \<times> ('g, 'c, 'k, 'cl, 'w, 'n) serving_guard \<times> 'u \<Rightarrow> bool"
  for E cl f0 where
  Start: "cgd_cfg f0 = Some cfg \<Longrightarrow> CosmoGuard_applyRules (rpc_env_of E ses port name) f0 = (Done, f) \<Longrightarrow>
     guard_reach E cl f0 ([cfg], f, u)"
| Step: "guard_reach E cl f0 s \<Longrightarrow> guard_step E cl s t \<Longrightarrow> guard_reach E cl f0 t"

end
