(* ===== verification/CosmoGuardSpec.thy ===== *)
theory CosmoGuardSpec
  imports CosmoGuard
begin

text \<open>
  What the supervisor builds and keeps: the frame of setting rules, the endpoints of the proxies
  (\<open>routes\<close>), which no reload changes, and the result of a successful start (\<open>New_from_built\<close>).
\<close>

section \<open>Where requests go\<close>

lemma SetRules_frame [simp]:
  "hp_endpointHandlers (HttpProxy_SetRules rs d p) = hp_endpointHandlers p"
  "hp_cache (HttpProxy_SetRules rs d p) = hp_cache p"
  "hp_rules (HttpProxy_SetRules rs d p) = rs" "hp_defaultAction (HttpProxy_SetRules rs d p) = d"
  "gp_rules (GrpcProxy_SetRules gs d q) = gs" "gp_defaultAction (GrpcProxy_SetRules gs d q) = d"
  by (simp_all add: HttpProxy_SetRules_def GrpcProxy_SetRules_def)

lemma handler_SetRules:
  "jh_readers h = 0 \<Longrightarrow> JsonRpcHandler_SetRules L rs d h = Some (h\<lparr>jh_rules := rs, jh_defaultAction := d,
     jh_wsProxy := map_option (jl_ws_SetRules L rs d) (jh_wsProxy h)\<rparr>)"
  "0 < jh_readers h \<Longrightarrow> JsonRpcHandler_SetRules L rs d h = None"
  by (simp_all add: JsonRpcHandler_SetRules_def)

text \<open>The endpoints of the proxies are what they were built with.\<close>

definition routes ::
  "('g, 'c, 'k, 'x, 'n) CosmoGuard \<Rightarrow> rpc_handler httpProxyEndpointHandler list option list" where
  "routes f = [Some (hp_endpointHandlers (cgd_lcdProxy f)), Some (hp_endpointHandlers (cgd_rpcProxy f)),
     map_option hp_endpointHandlers (cgd_evmRpcProxy f), map_option hp_endpointHandlers (cgd_evmRpcWsProxy f)]"

lemma applyEvmRules_routes: "routes (snd (applyEvmRules L cfg f)) = routes f"
  by (auto simp: applyEvmRules_def routes_def Let_def split: option.split)

lemma applyRules_routes: "routes (snd (CosmoGuard_applyRules L f)) = routes f"
  by (auto simp: CosmoGuard_applyRules_def Let_def applyEvmRules_routes split: option.split)
    (simp_all add: routes_def)

lemma applyRules_keeps_cfg: "CosmoGuard_applyRules L f = (res, g) \<Longrightarrow> cgd_cfg g = cgd_cfg f"
  by (auto simp: CosmoGuard_applyRules_def applyEvmRules_def Let_def split: option.splits if_splits)

lemma loadConfig_routes: "routes (snd (CosmoGuard_loadConfig cl f)) = routes f"
  by (auto simp: CosmoGuard_loadConfig_def routes_def split: outcome.split)

lemma watch_loop_routes: "routes (snd (watch_loop L cl evs f)) = routes f"
proof (induction L cl evs f rule: watch_loop.induct)
  case (2 L cl read evs f)
  obtain e f1 where load: "CosmoGuard_loadConfig (cl\<lparr>cl_ReadFile := read\<rparr>) f = (e, f1)" by fastforce
  obtain r f2 where rules: "CosmoGuard_applyRules L f1 = (r, f2)" by fastforce
  have "routes f1 = routes f" "routes f2 = routes f1"
    using loadConfig_routes [of "cl\<lparr>cl_ReadFile := read\<rparr>" f] applyRules_routes [of L f1] load rules by simp_all
  with 2 load rules show ?case by (auto split: outcome.split option.split progress.split)
qed simp_all

lemma Run_routes: "routes (snd (CosmoGuard_Run L cl nw ad evs f)) = routes f"
proof -
  obtain r f1 where rules: "CosmoGuard_applyRules L f = (r, f1)" by fastforce
  with applyRules_routes [of L f] have "routes f1 = routes f" by simp
  then show ?thesis
    by (auto simp: CosmoGuard_Run_def CosmoGuard_WatchConfigFile_def rules watch_loop_routes
        split: progress.split option.split)
qed

lemma new_http_routes:
  "new_http lib cfg name port np opts = Inr p \<Longrightarrow> hp_endpointHandlers p = ho_EndpointHandlers (apply_options
     ([WithCacheConfig_Http (Some (cfg_Cache cfg)), WithMetricsEnabled_Http (mt_Enable (cfg_Metrics cfg))] @ opts)
     DefaultHttpProxyOptions)"
  by (auto simp: new_http_def NewHttpProxy_def Let_def split: option.splits sum.splits)

lemma option_routes:
  "ho_EndpointHandlers (apply_options [WithCacheConfig_Http c, WithMetricsEnabled_Http b]
     DefaultHttpProxyOptions) = []"
  "ho_EndpointHandlers (apply_options [WithCacheConfig_Http c, WithMetricsEnabled_Http b,
     WithEndpointHandler es h] DefaultHttpProxyOptions) = [\<lparr>eh_Endpoints = es, eh_Handler = h\<rparr>]"
  by (simp_all add: apply_options_def WithCacheConfig_Http_def WithMetricsEnabled_Http_def
      WithEndpointHandler_def DefaultHttpProxyOptions_def)

lemma set_up_Inr: "set_up what r f = Inr y \<longleftrightarrow> (\<exists>x. r = Inr x \<and> f x = Inr y)"
  by (auto simp: set_up_def split: sum.split)

text \<open>What a successful start builds.\<close>

definition rpc_route :: "Endpoint list \<Rightarrow> rpc_handler \<Rightarrow> rpc_handler httpProxyEndpointHandler list" where
  "rpc_route es h = [\<lparr>eh_Endpoints = es, eh_Handler = h\<rparr>]"

lemma New_Inr:
  assumes "New lib path = Ret (Inr f)"
  shows "\<exists>cfg. ReadConfigFromFile (sl_config lib) path = Ret (Some cfg, None) \<and> New_from lib path cfg = Inr f"
  using assms by (auto simp: New_def bind_o_Ret_iff split: option.splits)

lemma New_handler_readers:
  "new_rpc_handler lib cfg name opts = Inr h \<Longrightarrow> jh_readers h = 0"
  by (auto simp: new_rpc_handler_def NewJsonRpcHandler_def Let_def split: sum.splits)

lemma New_evm_built:
  assumes "New_evm lib cfg f0 = Inr f"
  shows "hp_endpointHandlers (cgd_lcdProxy f) = hp_endpointHandlers (cgd_lcdProxy f0)
    \<and> hp_endpointHandlers (cgd_rpcProxy f) = hp_endpointHandlers (cgd_rpcProxy f0)
    \<and> cgd_cfg f = cgd_cfg f0 \<and> cgd_cfgFile f = cgd_cfgFile f0 \<and> cgd_jsonRpcHandler f = cgd_jsonRpcHandler f0
    \<and> (\<exists>p q. cgd_evmRpcProxy f = Some p \<and> cgd_evmRpcWsProxy f = Some q
         \<and> hp_endpointHandlers p = rpc_route [\<lparr>ep_Path = ''/'', ep_Method = ''POST''\<rparr>] EvmJsonRpc
         \<and> hp_endpointHandlers q = rpc_route [\<lparr>ep_Path = ''/'', ep_Method = ''GET''\<rparr>] EvmJsonRpcWs)"
  using assms by (auto simp: New_evm_def Let_def set_up_Inr option_routes rpc_route_def dest!: new_http_routes)

lemma New_from_built:
  assumes "New_from lib path cfg = Inr f"
  shows "cgd_cfg f = Some cfg \<and> cgd_cfgFile f = path \<and> jh_readers (cgd_jsonRpcHandler f) = 0
    \<and> hp_endpointHandlers (cgd_lcdProxy f) = []
    \<and> hp_endpointHandlers (cgd_rpcProxy f) = rpc_route rpc_endpoints RpcJsonRpc
    \<and> (cfg_EnableEvm cfg \<longrightarrow> (\<exists>p q. cgd_evmRpcProxy f = Some p \<and> cgd_evmRpcWsProxy f = Some q
         \<and> hp_endpointHandlers p = rpc_route [\<lparr>ep_Path = ''/'', ep_Method = ''POST''\<rparr>] EvmJsonRpc
         \<and> hp_endpointHandlers q = rpc_route [\<lparr>ep_Path = ''/'', ep_Method = ''GET''\<rparr>] EvmJsonRpcWs))
    \<and> (\<not> cfg_EnableEvm cfg \<longrightarrow> cgd_evmRpcProxy f = None \<and> cgd_evmRpcWsProxy f = None
         \<and> cgd_evmJsonRpcHandler f = None \<and> cgd_evmJsonRpcWsHandler f = None)"
proof (cases "cfg_EnableEvm cfg")
  case True
  then obtain f0 where "New_evm lib cfg f0 = Inr f" "cgd_cfg f0 = Some cfg" "cgd_cfgFile f0 = path"
    "jh_readers (cgd_jsonRpcHandler f0) = 0" "hp_endpointHandlers (cgd_lcdProxy f0) = []"
    "hp_endpointHandlers (cgd_rpcProxy f0) = rpc_route rpc_endpoints RpcJsonRpc"
    using assms
    by (auto simp: New_from_def Let_def set_up_Inr option_routes rpc_route_def
        dest!: new_http_routes New_handler_readers)
  with New_evm_built [of lib cfg f0 f] True show ?thesis by simp
next
  case False
  with assms show ?thesis
    by (auto simp: New_from_def Let_def set_up_Inr option_routes rpc_route_def
        dest!: new_http_routes New_handler_readers)
qed

lemma find_endpoint_route:
  "find_endpoint r (rpc_route es h) =
     (if list_ex (\<lambda>e. ep_Method e = rq_Method r \<and> ep_Path e = rq_Path r) es then Some h else None)"
  by (simp add: rpc_route_def)

end
