(* ===== verification/WsCache.thy ===== *)
theory WsCache
  imports WsSpec JsonRpcCache
begin

text \<open>
  What the WebSocket proxy puts into the cache it shares with its JSON-RPC handler: answers of
  the upstream connections under the id of the request, and, for a subscription request that an
  allowing rule with a \<open>cache\<close> section decides, the reply the proxy made itself.
\<close>

section \<open>Where an entry comes from\<close>

definition proxy_reply :: "JsonRpcMsg \<Rightarrow> JsonRpcMsg \<Rightarrow> bool" where
  "proxy_reply q res \<longleftrightarrow> res = EmptyResult q \<or> (\<exists>i. res = WithResult q (GStr i))
     \<or> res = WithResult q (GBool True) \<or> (\<exists>t. res = ErrorResponse q (- 100) t GNil)"

definition ws_cached :: "('g, 'c, 'cl, 'w) ws_env \<Rightarrow> 64 word \<Rightarrow> JsonRpcMsg \<Rightarrow> bool" where
  "ws_cached L key res \<longleftrightarrow> (\<exists>q. key = JsonRpcMsg_Hash (we_codec L) q
     \<and> (if hasSubscriptionMethod q then proxy_reply q res
        else \<exists>conn w ans w'. uc_MakeRequest (we_upstream L) conn q w = (Inr ans, w')
          \<and> res = ans\<lparr>jm_ID := jm_ID q\<rparr>))"

lemma HandleSubscription_reply:
  "Broker_HandleSubscription uc c q b w = (Ret (Inr res), b', w') \<Longrightarrow> proxy_reply q res"
  by (auto simp: Broker_HandleSubscription_def Let_def proxy_reply_def
      split: if_splits prod.splits outcome.splits sum.splits option.splits)

lemma HandleRequest_answer:
  assumes "Broker_HandleRequest uc q b w = (Ret (Inr res), b', w')"
  shows "\<exists>conn w0 ans w1. uc_MakeRequest uc conn q w0 = (Inr ans, w1) \<and> res = ans\<lparr>jm_ID := jm_ID q\<rparr>"
proof -
  obtain ans p where up: "UpstreamPool_MakeRequest uc q (bk_pool b) w = (Ret (Inr ans), p, w')"
    and res: "res = ans\<lparr>jm_ID := jm_ID q\<rparr>"
    using assms by (auto simp: Broker_HandleRequest_def CloneWithID_eq
        split: prod.splits outcome.splits sum.splits)
  from up have "\<exists>conn. uc_MakeRequest uc conn q w = (Inr ans, w')"
    by (auto simp: UpstreamPool_MakeRequest_def split: prod.splits outcome.splits)
  with res show ?thesis by blast
qed

lemma ws_upstream_reply:
  assumes "ws_upstream L c q s = (Ret (Inr res), s')"
  shows "ws_cached L (JsonRpcMsg_Hash (we_codec L) q) res"
proof (cases "hasSubscriptionMethod q")
  case True
  with assms have "proxy_reply q res"
    by (auto simp: ws_upstream_def split: prod.splits dest: HandleSubscription_reply)
  with True show ?thesis by (auto simp: ws_cached_def)
next
  case False
  with assms obtain b w where "Broker_HandleRequest (we_upstream L) q (ws_broker s) (ws_world s) = (Ret (Inr res), b, w)"
    by (auto simp: ws_upstream_def split: prod.splits)
  from HandleRequest_answer [OF this] False show ?thesis unfolding ws_cached_def by (metis (full_types))
qed

section \<open>The operations\<close>

lemma ws_upstream_cache: "ws_upstream L c q s = (x, s') \<Longrightarrow> ws_cache s' = ws_cache s"
  by (auto simp: ws_upstream_def split: prod.splits)

lemma Close_cache: "ws_cache (snd (WsClient_Close L c s)) = ws_cache s"
  by (simp add: WsClient_Close_def Let_def split: option.split prod.split)

lemma ReceiveMsg_cache: "WsClient_ReceiveMsg L c r s = (m, s') \<Longrightarrow> ws_cache s' = ws_cache s"
  using Close_cache [of L c s]
  by (auto simp: WsClient_ReceiveMsg_def split: if_splits ws_read.splits prod.splits option.splits)

lemma SendMsg_cache: "WsClient_SendMsg L c m s = (e, s') \<Longrightarrow> ws_cache s' = ws_cache s"
  by (auto dest: WsClient_SendMsg_frame)

lemma denied_cache: "ws_denied L c q label s = (e, s') \<Longrightarrow> ws_cache s' = ws_cache s"
  by (auto simp: ws_denied_def split: prod.splits option.splits dest: SendMsg_cache)

context msg_cache
begin

lemma ws_store_holds:
  assumes "we_cache L = api" and "holds_all P (ws_cache s)" and "P hash res"
  shows "holds_all P (ws_cache (snd (ws_store L hash rc res s)))"
  using assms(2,3) holds_all_set [OF assms(2,3)]
  by (auto simp: ws_store_def assms(1) split: option.split prod.split)

text \<open>Forwarding: what is done with the answer keeps the cache sound when the answer is one.\<close>

lemma ws_forward_holds:
  assumes P: "holds_all P (ws_cache s)" and run: "ws_forward L c q label k s = (e, s')"
    and k: "\<And>res t. ws_cached L (JsonRpcMsg_Hash (we_codec L) q) res \<Longrightarrow> holds_all P (ws_cache t) \<Longrightarrow>
      holds_all P (ws_cache (snd (k res t)))"
  shows "holds_all P (ws_cache s')"
proof -
  obtain x s1 where up: "ws_upstream L c q s = (x, s1)" by fastforce
  note s1 = ws_upstream_cache [OF up]
  show ?thesis
  proof (cases "\<exists>res. x = Ret (Inr res)")
    case True
    then obtain res where x: "x = Ret (Inr res)" by blast
    note res = ws_upstream_reply [OF up [unfolded x]]
    obtain e2 s2 where send: "WsClient_SendMsg L c res s1 = (e2, s2)" by fastforce
    note s2 = SendMsg_cache [OF send]
    from k [OF res, of "ws_observe (ws_labels q cacheMiss label) s2"] run up x send s1 s2 P
    show ?thesis by (cases e2) (auto simp: ws_forward_def)
  next
    case False
    with run up s1 P show ?thesis by (auto simp: ws_forward_def split: outcome.splits sum.splits)
  qed
qed

lemma ws_allowed_holds:
  assumes imp: "\<And>k v. ws_cached L k v \<Longrightarrow> P k v" and api: "we_cache L = api"
    and P: "holds_all P (ws_cache s)" and run: "ws_allowed L c q rc s = (e, s')"
  shows "holds_all P (ws_cache s')"
proof -
  let ?hash = "JsonRpcMsg_Hash (we_codec L) q"
  have miss: "holds_all P (ws_cache t')"
    if "ws_forward L c q RuleActionAllow (ws_store L ?hash rc) t = (x, t')" "holds_all P (ws_cache t)" for t x t'
    by (rule ws_forward_holds [OF that(2,1)]) (rule ws_store_holds [OF api], assumption, rule imp)
  show ?thesis
  proof (cases rc)
    case None
    with run miss [OF _ P] show ?thesis by (auto simp: ws_allowed_def Let_def)
  next
    case (Some x)
    obtain b e1 k1 where has: "c_has api ?hash (ws_cache s) = ((b, e1), k1)" by (metis surj_pair)
    obtain y k2 where get: "c_get api ?hash k1 = (y, k2)" by fastforce
    have k1: "holds_all P k1" by (rule holds_all_has [OF P has])
    have k2: "holds_all P k2" by (rule holds_all_get [OF k1 get])
    show ?thesis
    proof (cases "b \<and> (\<exists>res. y = Inr res)")
      case True
      then obtain res where res: "b" "y = Inr res" by blast
      obtain e2 s2 where send: "WsClient_SendMsg L c (JsonRpcMsg_CloneWithID (jm_ID q) res) (s\<lparr>ws_cache := k2\<rparr>) = (e2, s2)"
        by fastforce
      from SendMsg_cache [OF send] k2 have "holds_all P (ws_cache s2)" by simp
      with run Some has get res send api show ?thesis
        by (cases e2) (auto simp: ws_allowed_def Let_def)
    next
      case False
      with run Some has get api k1 k2 miss [of "s\<lparr>ws_cache := k1\<rparr>"] show ?thesis
        by (cases y) (auto simp: ws_allowed_def Let_def split: if_splits)
    qed
  qed
qed

lemma ws_handleRequest_holds:
  assumes imp: "\<And>k v. ws_cached L k v \<Longrightarrow> P k v" and api: "we_cache L = api"
    and P: "holds_all P (ws_cache s)" and run: "WebSocketProxy_handleRequest L c q s = (e, s')"
  shows "holds_all P (ws_cache s')"
proof (cases "rpc_policy (we_glob L) q (ws_defaultAction s) (ws_rules s)")
  case (Panic p)
  with run P show ?thesis by (auto simp: WebSocketProxy_handleRequest_def ws_rules_loop_policy)
next
  case (Ret v)
  note run' = run [unfolded WebSocketProxy_handleRequest_def ws_rules_loop_policy Ret outcome.case]
  show ?thesis
  proof (cases v)
    case (Allowed x)
    show ?thesis
    proof (cases x)
      case None
      have "ws_forward L c q (ws_defaultAction s) (\<lambda>_ t. (Ret None, t)) s = (e, s')"
        using run' Allowed None by simp
      from ws_forward_holds [OF P this] show ?thesis by simp
    next
      case (Some rule)
      with run' Allowed ws_allowed_holds [OF imp api P] show ?thesis by simp
    qed
  next
    case (Denied x)
    with run' P show ?thesis by (cases x) (auto dest!: denied_cache)
  qed
qed

lemma ws_serve_holds:
  assumes imp: "\<And>k v. ws_cached L k v \<Longrightarrow> P k v" and api: "we_cache L = api"
  shows "holds_all P (ws_cache s) \<Longrightarrow> ws_serve L c rs s = (out, s') \<Longrightarrow> holds_all P (ws_cache s')"
proof (induction rs arbitrary: s)
  case (Cons r rs)
  obtain m s1 where recv: "WsClient_ReceiveMsg L c r s = (m, s1)" by fastforce
  with Cons.prems(1) have s1: "holds_all P (ws_cache s1)" using ReceiveMsg_cache [OF recv] by simp
  show ?case
  proof (cases m)
    case (Inl e)
    with Cons recv s1 Close_cache [of L c s1] show ?thesis by (auto split: if_splits)
  next
    case (Inr q)
    obtain x s2 where q: "WebSocketProxy_handleRequest L c q s1 = (x, s2)" by fastforce
    from ws_handleRequest_holds [OF imp api s1 q] Cons recv Inr q show ?thesis by (auto split: outcome.splits)
  qed
qed simp

lemma ws_session_holds:
  assumes "\<And>k v. ws_cached L k v \<Longrightarrow> P k v" and "we_cache L = api"
    and "holds_all P (ws_cache s)" and run: "WebSocketProxy_HandleConnection L up c rs s = (out, s')"
  shows "holds_all P (ws_cache s')"
proof -
  obtain o1 s1 where serve: "ws_serve L c rs s = (o1, s1)" by fastforce
  from ws_serve_holds [OF assms(1-3) serve] run serve assms(3) Close_cache [of L c s1]
  show ?thesis by (cases up) (auto simp: WebSocketProxy_HandleConnection_def)
qed

end

end
