(* ===== verification/ServingSpec.thy ===== *)
theory ServingSpec
  imports Serving CosmoGuardSpec WsCache
begin

text \<open>
  What the serving guard promises: serving leaves the rules and the endpoints as they are, a node is
  reached only by what the rules in force allow, and the rules in force are those of the loaded
  configuration (\<open>in_force\<close>), from the start and through reloads.
\<close>

section \<open>What serving changes\<close>

definition proxy_rules :: "('g, 'c, 'h) HttpProxy \<Rightarrow> 'g HttpRule list \<times> RuleAction" where
  "proxy_rules p = (hp_rules p, hp_defaultAction p)"

definition handler_rules :: "('g, 'c, 'x) JsonRpcHandler \<Rightarrow> 'g JsonRpcRule list \<times> RuleAction" where
  "handler_rules h = (jh_rules h, jh_defaultAction h)"

lemma HttpProxy_allow_frame:
  assumes "HttpProxy_allow L w r body rc p u = (w', p', u')" and "backBuf body = []"
  shows "proxy_rules p' = proxy_rules p \<and> hp_endpointHandlers p' = hp_endpointHandlers p
    \<and> (u' = u \<or> u' = snd (he_proxy L r (readBuf body) u))"
  using assms
  by (auto simp: HttpProxy_allow_def HttpProxy_cacheMiss_def HttpProxy_cacheHit_def proxy_ServeHTTP_eq Let_def
      getRequestHash_eq proxy_rules_def split: option.splits if_splits prod.splits sum.splits)

definition http_admits :: "'g globber \<Rightarrow> 'g HttpRule list \<Rightarrow> RuleAction \<Rightarrow> Request \<Rightarrow> bool" where
  "http_admits gl rules d r \<longleftrightarrow>
     (\<exists>x. policy (\<lambda>rule. Ret (HttpRule_Match gl rule r)) hr_Action d rules = Ret (Allowed x))"

lemma HttpProxy_ServeHTTP_rules_frame:
  assumes "find_endpoint r (hp_endpointHandlers p) = None" and "HttpProxy_ServeHTTP L w r p u = (out, p', u')"
  shows "proxy_rules p' = proxy_rules p \<and> hp_endpointHandlers p' = hp_endpointHandlers p
    \<and> (u' = u \<or> http_admits (he_glob L) (hp_rules p) (hp_defaultAction p) r
      \<and> u' = snd (he_proxy L r (bs_data (rq_Body r)) u))"
proof -
  obtain v where v: "HttpProxy_policy L r p = Ret v" using HttpProxy_policy_returns by (rule returnsE)
  note run = assms(2) [unfolded HttpProxy_ServeHTTP_verdict [OF assms(1) v]]
  show ?thesis
  proof (cases v)
    case (Allowed x)
    with run obtain w' where
      "HttpProxy_allow L w r (ReusableReader (rq_Body r)) (verdict_cache x) p u = (w', p', u')" by auto
    moreover have "http_admits (he_glob L) (hp_rules p) (hp_defaultAction p) r"
      using v Allowed by (auto simp: http_admits_def HttpProxy_policy_def)
    ultimately show ?thesis using HttpProxy_allow_frame [of L w r "ReusableReader (rq_Body r)"] by fastforce
  next
    case (Denied x)
    with run show ?thesis by (auto simp: proxy_rules_def)
  qed
qed

text \<open>A handler, and the WebSocket proxy in it, keep their rules.\<close>

lemma single_world:
  "single_allowed L q w r body rc h u = (out, h', u') \<Longrightarrow> u' = u \<or> u' = snd (jl_next L r (readBuf body) u)"
  by (auto simp: single_allowed_def single_cached_def single_forward_def single_upstream_def
      getSingleUpstreamResponse_def next_plain_eq next_wrapped_eq Let_def
      split: option.splits prod.splits if_splits sum.splits outcome.splits)

lemma single_frame_world:
  "single_allowed L q w r body rc h u = (out, h', u') \<Longrightarrow> jh_readers h' = jh_readers h
     \<and> jh_rules h' = jh_rules h \<and> jh_defaultAction h' = jh_defaultAction h \<and> jh_wsProxy h' = jh_wsProxy h
     \<and> (u' = u \<or> u' = snd (jl_next L r (readBuf body) u))"
  by (auto dest: single_frame single_world)

lemma handleHttpSingle_frame:
  assumes "handleHttpSingle L q w r body h u = (out, h', u')"
  shows "handler_rules h' = handler_rules h \<and> jh_wsProxy h' = jh_wsProxy h
    \<and> (u' = u \<or> u' = snd (jl_next L r (readBuf body) u)
       \<and> (\<exists>x. rpc_policy (jl_glob L) q (jh_defaultAction h) (jh_rules h) = Ret (Allowed x)))"
  using assms
  by (auto simp: handleHttpSingle_verdict handler_rules_def single_denied_def JsonRpcHandler_observe_def
      dest!: single_frame_world
      split: outcome.splits verdict.splits prod.splits)

lemma handleHttpBatch_frame:
  assumes "handleHttpBatch L requests w r h u = (out, h', u')"
  shows "handler_rules h' = handler_rules h \<and> jh_wsProxy h' = jh_wsProxy h"
  using assms
  by (auto simp: handleHttpBatch_def Let_def handler_rules_def
      split: option.splits prod.splits outcome.splits sum.splits)

lemma handleHttp_parse:
  "handleHttp L w r h u = (case ParseJsonRpcMessage (jl_codec L) (bs_data (rq_Body r)) of
     (Some q, _, _) \<Rightarrow> handleHttpSingle L q w r (ReusableReader (rq_Body r)) h u
   | (None, requests, _) \<Rightarrow> handleHttpBatch L requests w r h u)"
  by (auto simp: handleHttp_def io_ReadAll_rewound split: prod.split option.split)

text \<open>
  What a handler sends for a request \<open>r\<close>: the request itself, when its body is a message that the
  rules allow, or the request with a batch of messages of its body that the rules allow.
\<close>

definition rpc_sends ::
  "'g globber \<Rightarrow> codec \<Rightarrow> 'g JsonRpcRule list \<times> RuleAction \<Rightarrow> Request \<Rightarrow> Request \<Rightarrow> string \<Rightarrow> bool" where
  "rpc_sends gl cd rs r r' b = (case ParseJsonRpcMessage cd (bs_data (rq_Body r)) of
       (Some q, _, _) \<Rightarrow> (\<exists>x. rpc_policy gl q (snd rs) (fst rs) = Ret (Allowed x))
         \<and> r' = r \<and> b = bs_data (rq_Body r)
     | (None, requests, _) \<Rightarrow> r' = r\<lparr>rq_Body := \<lparr>bs_data = b, bs_error = None\<rparr>\<rparr>
         \<and> (\<exists>sent. sent \<noteq> [] \<and> JsonRpcMsgs_Marshal cd sent = Inr b
           \<and> (\<forall>m\<in>set sent. Some m \<in> set requests
               \<and> (\<exists>x. rpc_batch_policy gl m (snd rs) (fst rs) = Ret (Allowed x)))))"

lemma handleHttp_frame:
  assumes "handleHttp L w r h u = (out, h', u')"
  shows "handler_rules h' = handler_rules h \<and> jh_wsProxy h' = jh_wsProxy h
    \<and> (u' = u \<or> (\<exists>r' b. rpc_sends (jl_glob L) (jl_codec L) (handler_rules h) r r' b
        \<and> u' = snd (jl_next L r' b u)))"
proof -
  obtain p ms e where parse: "ParseJsonRpcMessage (jl_codec L) (bs_data (rq_Body r)) = (p, ms, e)"
    by (metis surj_pair)
  show ?thesis
  proof (cases p)
    case (Some q)
    with assms parse have "handleHttpSingle L q w r (ReusableReader (rq_Body r)) h u = (out, h', u')"
      by (simp add: handleHttp_parse)
    from handleHttpSingle_frame [OF this] show ?thesis
      by (auto simp: rpc_sends_def parse Some handler_rules_def)
  next
    case None
    with assms parse have run: "handleHttpBatch L ms w r h u = (out, h', u')"
      by (simp add: handleHttp_parse)
    from handleHttpBatch_world [OF run]
    have "u' = u \<or> (\<exists>r' b. rpc_sends (jl_glob L) (jl_codec L) (handler_rules h) r r' b
        \<and> u' = snd (jl_next L r' b u))"
      unfolding rpc_sends_def parse None handler_rules_def by simp blast
    with handleHttpBatch_frame [OF run] show ?thesis by blast
  qed
qed

definition handler_in_force ::
  "'g JsonRpcRule list \<times> RuleAction \<Rightarrow> ('g, 'k, ('g, 'k, 'cl, 'w) WsState) JsonRpcHandler \<Rightarrow> bool" where
  "handler_in_force rs h \<longleftrightarrow> handler_rules h = rs \<and> (\<forall>s. jh_wsProxy h = Some s \<longrightarrow> ws_policy_of s = rs)"

lemma rpc_env_of_simps [simp]:
  "jl_glob (rpc_env_of E ses port name) = se_glob E" "jl_codec (rpc_env_of E ses port name) = se_codec E"
  "jl_next (rpc_env_of E ses port name) = se_node E port" "jl_cache (rpc_env_of E ses port name) = se_rpc_cache E"
  "jl_ws_handle (rpc_env_of E ses port name) = ws_handler E ses name"
  "jl_ws_SetRules (rpc_env_of E ses port name) = WebSocketProxy_SetRules"
  by (simp_all add: rpc_env_of_def)

lemma ws_handler_frame:
  assumes "ws_handler E ses name s c w r u = (out, s', c', u')"
  shows "u' = u \<and> ws_policy_of s' = ws_policy_of s"
proof -
  obtain o1 s1 where run: "WebSocketProxy_HandleConnection (ws_env_of E name) (ses_upgrade ses) (ses_client ses)
      (ses_reads ses) (s\<lparr>ws_cache := c\<rparr>) = (o1, s1)" by fastforce
  from ws_session_policy [OF this] assms run show ?thesis by (auto simp: ws_handler_def)
qed

lemma handler_serve_frame:
  assumes run: "JsonRpcHandler_ServeHTTP (rpc_env_of E ses port name) w r h u = (out, h', u')"
    and rs: "handler_in_force rs h"
  shows "handler_in_force rs h' \<and> (u' = u \<or> rq_Method r = ''POST'' \<and> rq_Path r = ''/''
    \<and> (\<exists>r' b. rpc_sends (se_glob E) (se_codec E) rs r r' b \<and> u' = snd (se_node E port r' b u)))"
proof (cases "rq_Method r = ''POST'' \<and> rq_Path r = ''/''")
  case True
  with run have "handleHttp (rpc_env_of E ses port name) w r h u = (out, h', u')"
    by (simp add: JsonRpcHandler_ServeHTTP_def)
  from handleHttp_frame [OF this] rs True show ?thesis by (auto simp: handler_in_force_def)
next
  case False
  show ?thesis
  proof (cases "\<exists>s. jh_wsProxy h = Some s \<and> rq_Path r = jh_wsPath h \<and> rq_Method r = ''GET''")
    case True
    then obtain s where s: "jh_wsProxy h = Some s" "rq_Path r = jh_wsPath h" "rq_Method r = ''GET''" by blast
    obtain o1 s1 c1 u1 where ws: "ws_handler E ses name s (jh_cache h) w r u = (o1, s1, c1, u1)"
      by (metis surj_pair)
    with run s have "h' = h\<lparr>jh_wsProxy := Some s1, jh_cache := c1\<rparr>" "u' = u1"
      by (simp_all add: JsonRpcHandler_ServeHTTP_def)
    with ws_handler_frame [OF ws] rs s(1) show ?thesis by (simp add: handler_in_force_def handler_rules_def)
  next
    case off: False
    with run False have "h' = h" "u' = u"
      by (auto simp: JsonRpcHandler_ServeHTTP_def split: option.splits if_splits)
    with rs show ?thesis by simp
  qed
qed

section \<open>What the configurations ask for\<close>

text \<open>
  The rules for a port and for a handler, after the configurations \<open>cfgs\<close>, the latest first.  They are
  those of the latest one; for the EVM ports and handlers, which a configuration with EVM off
  leaves alone, those of the latest one with EVM on.  There is no setting for the HTTP rules of
  the EVM WebSocket port: they stay empty, and the default stays the empty action, which denies.
\<close>

definition evm_config :: "'g Config list \<Rightarrow> 'g Config" where
  "evm_config cfgs = (case find cfg_EnableEvm cfgs of Some cfg \<Rightarrow> cfg | None \<Rightarrow> hd cfgs)"

fun http_rules_of :: "'g Config list \<Rightarrow> port \<Rightarrow> 'g HttpRule list \<times> RuleAction" where
  "http_rules_of cfgs LcdPort = (lcd_Rules (cfg_LCD (hd cfgs)), lcd_Default (cfg_LCD (hd cfgs)))"
| "http_rules_of cfgs RpcPort = (rpc_Rules (cfg_RPC (hd cfgs)), rpc_Default (cfg_RPC (hd cfgs)))"
| "http_rules_of cfgs EvmRpcPort = (let er = evm_RPC (cfg_EVM (evm_config cfgs))
     in (er_HttpRules er, er_Default er))"
| "http_rules_of cfgs EvmWsPort = ([], [])"

fun rpc_rules_of :: "'g Config list \<Rightarrow> rpc_handler \<Rightarrow> 'g JsonRpcRule list \<times> RuleAction" where
  "rpc_rules_of cfgs RpcJsonRpc = (let jc = rpc_JsonRpc (cfg_RPC (hd cfgs)) in (jc_Rules jc, jc_Default jc))"
| "rpc_rules_of cfgs EvmJsonRpc = (let er = evm_RPC (cfg_EVM (evm_config cfgs)) in (er_Rules er, er_Default er))"
| "rpc_rules_of cfgs EvmJsonRpcWs = (let ew = evm_WS (cfg_EVM (evm_config cfgs)) in (ew_Rules ew, ew_Default ew))"

definition grpc_rules_of :: "'g Config list \<Rightarrow> 'g GrpcRule list \<times> RuleAction" where
  "grpc_rules_of cfgs = (grpc_Rules (cfg_GRPC (hd cfgs)), grpc_Default (cfg_GRPC (hd cfgs)))"

definition grpc_rules :: "('g, 'n) GrpcProxy \<Rightarrow> 'g GrpcRule list \<times> RuleAction" where
  "grpc_rules p = (gp_rules p, gp_defaultAction p)"

text \<open>The EVM proxies and handlers, if they were built: some configuration has EVM on.\<close>

definition evm_built :: "('g, 'c, 'k, 'x, 'n) CosmoGuard \<Rightarrow> bool" where
  "evm_built f \<longleftrightarrow> cgd_evmRpcProxy f \<noteq> None \<or> cgd_evmRpcWsProxy f \<noteq> None
     \<or> cgd_evmJsonRpcHandler f \<noteq> None \<or> cgd_evmJsonRpcWsHandler f \<noteq> None"

definition evm_in_force :: "'g Config list \<Rightarrow> ('g, 'c, 'k, 'cl, 'w, 'n) serving_guard \<Rightarrow> bool" where
  "evm_in_force cfgs f \<longleftrightarrow> (evm_built f \<longrightarrow> list_ex cfg_EnableEvm cfgs)
     \<and> (\<forall>p. cgd_evmRpcProxy f = Some p \<longrightarrow> proxy_rules p = http_rules_of cfgs EvmRpcPort)
     \<and> (\<forall>p. cgd_evmRpcWsProxy f = Some p \<longrightarrow> proxy_rules p = ([], []))
     \<and> (\<forall>h. cgd_evmJsonRpcHandler f = Some h \<longrightarrow> handler_in_force (rpc_rules_of cfgs EvmJsonRpc) h)
     \<and> (\<forall>h. cgd_evmJsonRpcWsHandler f = Some h \<longrightarrow> handler_in_force (rpc_rules_of cfgs EvmJsonRpcWs) h)"

definition in_force :: "'g Config list \<Rightarrow> ('g, 'c, 'k, 'cl, 'w, 'n) serving_guard \<Rightarrow> bool" where
  "in_force cfgs f \<longleftrightarrow> cfgs \<noteq> [] \<and> cgd_cfg f = Some (hd cfgs)
     \<and> grpc_rules (cgd_grpcProxy f) = grpc_rules_of cfgs \<and> (evm_built f \<longrightarrow> list_ex cfg_EnableEvm cfgs)
     \<and> (\<forall>port p. proxy_at port f = Some p \<longrightarrow> proxy_rules p = http_rules_of cfgs port)
     \<and> (\<forall>name h. handler_at name f = Some h \<longrightarrow> handler_in_force (rpc_rules_of cfgs name) h)"

fun endpoints_of :: "port \<Rightarrow> rpc_handler httpProxyEndpointHandler list" where
  "endpoints_of LcdPort = []"
| "endpoints_of RpcPort = rpc_route rpc_endpoints RpcJsonRpc"
| "endpoints_of EvmRpcPort = rpc_route [\<lparr>ep_Path = ''/'', ep_Method = ''POST''\<rparr>] EvmJsonRpc"
| "endpoints_of EvmWsPort = rpc_route [\<lparr>ep_Path = ''/'', ep_Method = ''GET''\<rparr>] EvmJsonRpcWs"

definition well_routed :: "('g, 'c, 'k, 'x, 'n) CosmoGuard \<Rightarrow> bool" where
  "well_routed f \<longleftrightarrow> (\<forall>port p. proxy_at port f = Some p \<longrightarrow> hp_endpointHandlers p = endpoints_of port)"

text \<open>
  What may be sent to the node of a port for a request: the request itself, when the HTTP rules of
  the port admit it, or what the JSON-RPC handler of its endpoint sends for it.
\<close>

definition config_sends ::
  "'g globber \<Rightarrow> codec \<Rightarrow> 'g Config list \<Rightarrow> port \<Rightarrow> Request \<Rightarrow> Request \<Rightarrow> string \<Rightarrow> bool" where
  "config_sends gl cd cfgs port r r' b = (case find_endpoint r (endpoints_of port) of
       None \<Rightarrow> (case http_rules_of cfgs port of (rules, d) \<Rightarrow> http_admits gl rules d r)
         \<and> r' = r \<and> b = bs_data (rq_Body r)
     | Some name \<Rightarrow> rq_Method r = ''POST'' \<and> rq_Path r = ''/'' \<and> rpc_sends gl cd (rpc_rules_of cfgs name) r r' b)"

section \<open>Serving keeps the rules in force\<close>

lemma proxy_at_set [simp]:
  "proxy_at q (set_proxy port p f) = (if q = port then Some p else proxy_at q f)"
  "proxy_at q (set_handler name h f) = proxy_at q f"
  by (cases q; cases port; simp) (cases q; cases name; simp)

lemma handler_at_set [simp]:
  "handler_at n (set_handler name h f) = (if n = name then Some h else handler_at n f)"
  "handler_at n (set_proxy port p f) = handler_at n f"
  by (cases n; cases name; simp) (cases n; cases port; simp)

lemma cfg_set [simp]:
  "cgd_cfg (set_proxy port p f) = cgd_cfg f" "cgd_cfg (set_handler name h f) = cgd_cfg f"
  "cgd_cfgFile (set_proxy port p f) = cgd_cfgFile f" "cgd_cfgFile (set_handler name h f) = cgd_cfgFile f"
  "cgd_grpcProxy (set_proxy port p f) = cgd_grpcProxy f" "cgd_grpcProxy (set_handler name h f) = cgd_grpcProxy f"
  by (cases port; cases name; simp)+

lemma evm_built_at:
  "evm_built f \<longleftrightarrow> proxy_at EvmRpcPort f \<noteq> None \<or> proxy_at EvmWsPort f \<noteq> None
     \<or> handler_at EvmJsonRpc f \<noteq> None \<or> handler_at EvmJsonRpcWs f \<noteq> None"
  by (simp add: evm_built_def)

lemma evm_built_set:
  "proxy_at port f \<noteq> None \<Longrightarrow> evm_built (set_proxy port p f) = evm_built f"
  "handler_at name f \<noteq> None \<Longrightarrow> evm_built (set_handler name h f) = evm_built f"
  by (auto simp: evm_built_at)

lemma http_env_of_simps [simp]:
  "he_glob (http_env_of E ses port) = se_glob E"
  "snd (he_proxy (http_env_of E ses port) r b (f, u)) = (f, snd (se_node E port r b u))"
  by (simp_all add: http_env_of_def split: prod.split)

lemma in_forceD:
  assumes "in_force cfgs f"
  shows "proxy_at port f = Some p \<Longrightarrow> proxy_rules p = http_rules_of cfgs port"
    and "handler_at name f = Some h \<Longrightarrow> handler_in_force (rpc_rules_of cfgs name) h"
    and "grpc_rules (cgd_grpcProxy f) = grpc_rules_of cfgs"
  using assms unfolding in_force_def by blast+

lemma in_force_set_proxy:
  "in_force cfgs f \<Longrightarrow> proxy_at port f \<noteq> None \<Longrightarrow> proxy_rules p = http_rules_of cfgs port \<Longrightarrow>
     in_force cfgs (set_proxy port p f)"
  by (simp add: in_force_def evm_built_set)

lemma in_force_set_handler:
  "in_force cfgs f \<Longrightarrow> handler_at name f \<noteq> None \<Longrightarrow> handler_in_force (rpc_rules_of cfgs name) h \<Longrightarrow>
     in_force cfgs (set_handler name h f)"
  by (simp add: in_force_def evm_built_set)

lemma well_routedD: "well_routed f \<Longrightarrow> proxy_at port f = Some p \<Longrightarrow> hp_endpointHandlers p = endpoints_of port"
  by (simp add: well_routed_def)

text \<open>Serving, by what takes the request: the proxy itself, or the handler of an endpoint.\<close>

lemma serve_cases:
  assumes "CosmoGuard_serve E ses port r f u = Some (out, f', u')"
  obtains (Proxy) p p' where "proxy_at port f = Some p" "find_endpoint r (hp_endpointHandlers p) = None"
      "HttpProxy_ServeHTTP (http_env_of E ses port) new_writer r p (f, u) = (out, p', f, u')"
      "f' = set_proxy port p' f"
      "proxy_rules p' = proxy_rules p" "hp_endpointHandlers p' = hp_endpointHandlers p"
      "u' = u \<or> http_admits (se_glob E) (hp_rules p) (hp_defaultAction p) r
        \<and> u' = snd (se_node E port r (bs_data (rq_Body r)) u)"
  | (Nobody) p name where "proxy_at port f = Some p" "find_endpoint r (hp_endpointHandlers p) = Some name"
      "handler_at name f = None" "f' = set_proxy port p f" "u' = u" "out = Panic ''nil pointer dereference''"
  | (Handler) p name h h' where "proxy_at port f = Some p"
      "find_endpoint r (hp_endpointHandlers p) = Some name" "handler_at name f = Some h"
      "JsonRpcHandler_ServeHTTP (rpc_env_of E ses port name) new_writer r h u = (out, h', u')"
      "f' = set_proxy port p (set_handler name h' f)"
proof -
  obtain p p' f1 where p: "proxy_at port f = Some p"
    and http: "HttpProxy_ServeHTTP (http_env_of E ses port) new_writer r p (f, u) = (out, p', f1, u')"
    and f': "f' = set_proxy port p' f1"
    using assms by (auto simp: CosmoGuard_serve_def split: option.splits prod.splits)
  show thesis
  proof (cases "find_endpoint r (hp_endpointHandlers p)")
    case None
    from HttpProxy_ServeHTTP_rules_frame [OF None http]
    have same: "proxy_rules p' = proxy_rules p" "hp_endpointHandlers p' = hp_endpointHandlers p"
      and up: "(f1, u') = (f, u) \<or> http_admits (se_glob E) (hp_rules p) (hp_defaultAction p) r
        \<and> (f1, u') = (f, snd (se_node E port r (bs_data (rq_Body r)) u))"
      by simp_all
    then have f1: "f1 = f" by auto
    from up have "u' = u \<or> http_admits (se_glob E) (hp_rules p) (hp_defaultAction p) r
        \<and> u' = snd (se_node E port r (bs_data (rq_Body r)) u)" by auto
    from Proxy [OF p None http [unfolded f1] f' [unfolded f1] same this] show thesis .
  next
    case (Some name)
    with http have p': "p' = p"
      and handle: "he_handle (http_env_of E ses port) name new_writer r (f, u) = (out, f1, u')"
      by (auto simp: HttpProxy_ServeHTTP_def split: prod.splits)
    show thesis
    proof (cases "handler_at name f")
      case None
      with handle have "f1 = f" "u' = u" "out = Panic ''nil pointer dereference''" by (simp_all add: http_env_of_def)
      with Nobody [OF p Some None] f' p' show thesis by simp
    next
      case (Some h)
      obtain h' where "JsonRpcHandler_ServeHTTP (rpc_env_of E ses port name) new_writer r h u = (out, h', u')"
        and "f1 = set_handler name h' f"
        using handle Some by (auto simp: http_env_of_def split: prod.splits)
      with Handler [OF p \<open>find_endpoint r _ = Some name\<close> Some] f' p' show thesis by simp
    qed
  qed
qed

lemma serve_in_force:
  assumes force: "in_force cfgs f" and well_routed: "well_routed f"
    and run: "CosmoGuard_serve E ses port r f u = Some (out, f', u')"
  shows "in_force cfgs f' \<and> well_routed f'
    \<and> (u' = u \<or> (\<exists>r' b. config_sends (se_glob E) (se_codec E) cfgs port r r' b \<and> u' = snd (se_node E port r' b u)))"
  using run
proof (cases rule: serve_cases)
  case (Proxy p p')
  note rules = in_forceD(1) [OF force Proxy(1)]
  have "in_force cfgs f'" unfolding Proxy(4)
    by (rule in_force_set_proxy [OF force]) (simp_all add: Proxy(1,5) rules)
  moreover have "well_routed f'" using well_routed Proxy(1,6) by (simp add: well_routed_def Proxy(4))
  moreover have "config_sends (se_glob E) (se_codec E) cfgs port r r (bs_data (rq_Body r))"
    if "http_admits (se_glob E) (hp_rules p) (hp_defaultAction p) r"
    using that Proxy(2) rules
    by (cases "http_rules_of cfgs port") (simp add: config_sends_def well_routedD [OF well_routed Proxy(1)] proxy_rules_def)
  ultimately show ?thesis using Proxy(7) by blast
next
  case (Nobody p name)
  have "in_force cfgs f'" unfolding Nobody(4)
    by (rule in_force_set_proxy [OF force]) (simp_all add: Nobody(1) in_forceD(1) [OF force Nobody(1)])
  moreover have "well_routed f'" using well_routed Nobody(1) by (simp add: well_routed_def Nobody(4))
  ultimately show ?thesis using Nobody(5) by blast
next
  case (Handler p name h h')
  from handler_serve_frame [OF Handler(4) in_forceD(2) [OF force Handler(3)]]
  have h': "handler_in_force (rpc_rules_of cfgs name) h'"
    and sends: "u' = u \<or> rq_Method r = ''POST'' \<and> rq_Path r = ''/''
      \<and> (\<exists>r' b. rpc_sends (se_glob E) (se_codec E) (rpc_rules_of cfgs name) r r' b \<and> u' = snd (se_node E port r' b u))"
    by blast+
  have "in_force cfgs (set_handler name h' f)"
    by (rule in_force_set_handler [OF force _ h']) (simp add: Handler(3))
  then have "in_force cfgs f'" unfolding Handler(5)
    by (rule in_force_set_proxy) (simp_all add: Handler(1) in_forceD(1) [OF force Handler(1)])
  moreover have "well_routed f'" using well_routed Handler(1) by (simp add: well_routed_def Handler(5))
  moreover have "find_endpoint r (endpoints_of port) = Some name"
    using Handler(2) well_routedD [OF well_routed Handler(1)] by simp
  ultimately show ?thesis using sends by (auto simp: config_sends_def)
qed

section \<open>A start and a reload put the rules in force\<close>

lemma handler_SetRules_in_force:
  "JsonRpcHandler_SetRules L rs d h = Some h' \<Longrightarrow> jl_ws_SetRules L = WebSocketProxy_SetRules \<Longrightarrow>
     handler_in_force (rs, d) h'"
  by (auto simp: JsonRpcHandler_SetRules_def handler_in_force_def handler_rules_def WebSocketProxy_SetRules_def
      ws_policy_of_def split: if_splits)

lemma rules_SetRules [simp]:
  "proxy_rules (HttpProxy_SetRules rs d p) = (rs, d)"
  "grpc_rules (GrpcProxy_SetRules gs d g) = (gs, d)"
  by (simp_all add: proxy_rules_def grpc_rules_def)

lemma all_ports: "(\<forall>port. P port) \<longleftrightarrow> P LcdPort \<and> P RpcPort \<and> P EvmRpcPort \<and> P EvmWsPort"
  by (metis port.exhaust)

lemma all_handlers: "(\<forall>name. P name) \<longleftrightarrow> P RpcJsonRpc \<and> P EvmJsonRpc \<and> P EvmJsonRpcWs"
  by (metis rpc_handler.exhaust)

lemma evm_config_Cons:
  "cfg_EnableEvm cfg \<Longrightarrow> evm_config (cfg # cfgs) = cfg"
  "\<not> cfg_EnableEvm cfg \<Longrightarrow> list_ex cfg_EnableEvm cfgs \<Longrightarrow> evm_config (cfg # cfgs) = evm_config cfgs"
  by (auto simp: evm_config_def list_ex_iff find_None_iff split: option.split)

lemma in_force_evm: "in_force cfgs f \<Longrightarrow> evm_in_force cfgs f"
  by (simp add: in_force_def evm_in_force_def all_ports all_handlers)

text \<open>With EVM off, \<open>applyRules\<close> leaves the EVM parts alone; with EVM on, it sets their rules.\<close>

lemma applyRules_evm:
  assumes run: "CosmoGuard_applyRules L f = (Done, g)" and ws: "jl_ws_SetRules L = WebSocketProxy_SetRules"
    and cfg: "cgd_cfg f = Some cfg" and before: "evm_in_force cfgs f \<or> \<not> evm_built f \<or> cfg_EnableEvm cfg"
    and ws_proxy: "\<And>p. cgd_evmRpcWsProxy f = Some p \<Longrightarrow> proxy_rules p = ([], [])"
  shows "evm_in_force (cfg # cfgs) g"
proof (cases "cfg_EnableEvm cfg")
  case True
  with run cfg ws_proxy handler_SetRules_in_force [of L, OF _ ws] show ?thesis
    by (auto simp: CosmoGuard_applyRules_def applyEvmRules_def Let_def evm_in_force_def evm_config_Cons
        nil_pointer_def split: option.splits)
next
  case False
  with run cfg have "cgd_evmRpcProxy g = cgd_evmRpcProxy f" "cgd_evmRpcWsProxy g = cgd_evmRpcWsProxy f"
    "cgd_evmJsonRpcHandler g = cgd_evmJsonRpcHandler f" "cgd_evmJsonRpcWsHandler g = cgd_evmJsonRpcWsHandler f"
    by (auto simp: CosmoGuard_applyRules_def Let_def split: option.splits)
  with before False show ?thesis
    by (auto simp: evm_in_force_def evm_built_def evm_config_Cons(2))
qed

lemma applyRules_in_force:
  assumes run: "CosmoGuard_applyRules L f = (Done, g)" and ws: "jl_ws_SetRules L = WebSocketProxy_SetRules"
    and cfg: "cgd_cfg f = Some cfg" and before: "evm_in_force cfgs f \<or> \<not> evm_built f \<or> cfg_EnableEvm cfg"
    and ws_proxy: "\<And>p. cgd_evmRpcWsProxy f = Some p \<Longrightarrow> proxy_rules p = ([], [])"
  shows "in_force (cfg # cfgs) g"
proof -
  have "proxy_rules (cgd_lcdProxy g) = http_rules_of (cfg # cfgs) LcdPort
      \<and> proxy_rules (cgd_rpcProxy g) = http_rules_of (cfg # cfgs) RpcPort
      \<and> grpc_rules (cgd_grpcProxy g) = grpc_rules_of (cfg # cfgs)
      \<and> handler_in_force (rpc_rules_of (cfg # cfgs) RpcJsonRpc) (cgd_jsonRpcHandler g) \<and> cgd_cfg g = Some cfg"
    using run cfg handler_SetRules_in_force [of L, OF _ ws]
    by (auto simp: CosmoGuard_applyRules_def applyEvmRules_def Let_def grpc_rules_of_def nil_pointer_def
        split: option.splits if_splits)
  with applyRules_evm [OF assms] show ?thesis
    by (simp add: in_force_def evm_in_force_def all_ports all_handlers)
qed

text \<open>What holds of the guard before its rules are applied the first time.\<close>

definition built :: "('g, 'c, 'k, 'x, 'n) CosmoGuard \<Rightarrow> bool" where
  "built f \<longleftrightarrow> well_routed f \<and> (\<forall>p. proxy_at EvmWsPort f = Some p \<longrightarrow> proxy_rules p = ([], []))
     \<and> (\<forall>cfg. cgd_cfg f = Some cfg \<longrightarrow> evm_built f \<longrightarrow> cfg_EnableEvm cfg)"

lemma new_http_rules: "new_http lib cfg name port np opts = Inr p \<Longrightarrow> proxy_rules p = ([], [])"
  by (auto simp: new_http_def NewHttpProxy_def Let_def proxy_rules_def split: option.splits sum.splits)

lemma New_built:
  assumes "New lib path = Ret (Inr f)"
  shows "built f"
proof -
  obtain cfg where new: "New_from lib path cfg = Inr f" using New_Inr [OF assms] by blast
  note made = New_from_built [OF new]
  have "proxy_rules p = ([], [])" if "cgd_evmRpcWsProxy f = Some p" for p
    using new that
    by (auto simp: New_from_def New_evm_def Let_def set_up_Inr dest: new_http_rules split: if_splits)
  moreover have "well_routed f"
    using made by (cases "cfg_EnableEvm cfg") (auto simp: well_routed_def all_ports)
  moreover have "evm_built f \<longrightarrow> cfg_EnableEvm cfg"
    using made by (cases "cfg_EnableEvm cfg") (auto simp: evm_built_def)
  ultimately show ?thesis using made by (simp add: built_def)
qed

lemma well_routed_routes: "routes f = routes g \<Longrightarrow> well_routed f = well_routed g"
  by (cases "cgd_evmRpcProxy f"; cases "cgd_evmRpcProxy g"; cases "cgd_evmRpcWsProxy f"; cases "cgd_evmRpcWsProxy g")
    (simp_all add: routes_def well_routed_def all_ports)

text \<open>The invariant of the guard at work.\<close>

definition guard_inv :: "'g Config list \<Rightarrow> ('g, 'c, 'k, 'cl, 'w, 'n) serving_guard \<Rightarrow> bool" where
  "guard_inv cfgs f \<longleftrightarrow> well_routed f \<and> in_force cfgs f"

lemma loadConfig_frame:
  assumes "CosmoGuard_loadConfig cl f = (Ret None, f1)"
  shows "f1 = f\<lparr>cgd_cfg := cgd_cfg f1\<rparr>"
  using assms by (auto simp: CosmoGuard_loadConfig_def split: outcome.splits prod.splits)

lemma applyRules_guard_inv:
  assumes "CosmoGuard_applyRules (rpc_env_of E ses port name) f = (Done, g)" and "cgd_cfg f = Some cfg"
    and "well_routed f" and "evm_in_force cfgs f \<or> \<not> evm_built f \<or> cfg_EnableEvm cfg"
    and "\<And>p. cgd_evmRpcWsProxy f = Some p \<Longrightarrow> proxy_rules p = ([], [])"
  shows "guard_inv (cfg # cfgs) g"
proof -
  have "routes g = routes f" using applyRules_routes [of "rpc_env_of E ses port name" f] assms(1) by simp
  with assms(3) have "well_routed g" using well_routed_routes by metis
  with applyRules_in_force [OF assms(1) _ assms(2,4,5)] show ?thesis by (simp add: guard_inv_def)
qed

lemma guard_step_inv:
  assumes "guard_step E cl s t" and "guard_inv (fst s) (fst (snd s))"
  shows "guard_inv (fst t) (fst (snd t))"
  using assms(1)
proof cases
  case (Serve ses port r f u out f' u' cfgs)
  with assms(2) serve_in_force [of cfgs f E ses port r u out f' u'] show ?thesis by (simp add: guard_inv_def)
next
  case (Reload fs f f1 cfg ses port name f2 cfgs u)
  have inv: "well_routed f" "in_force cfgs f" using assms(2) Reload(1) by (simp_all add: guard_inv_def)
  note f1 = loadConfig_frame [OF Reload(3)]
  have "well_routed f1" using inv(1) by (subst f1) (simp add: well_routed_def all_ports)
  moreover have "evm_in_force cfgs f1"
    using in_force_evm [OF inv(2)] by (subst f1) (simp add: evm_in_force_def evm_built_def)
  moreover have "proxy_rules p = ([], [])" if "cgd_evmRpcWsProxy f1 = Some p" for p
    using calculation(2) that by (simp add: evm_in_force_def)
  ultimately have "guard_inv (cfg # cfgs) f2"
    using applyRules_guard_inv [OF Reload(5,4)] by blast
  then show ?thesis by (simp add: Reload(2))
qed

lemma guard_reach_inv: "guard_reach E cl f0 s \<Longrightarrow> built f0 \<Longrightarrow> guard_inv (fst s) (fst (snd s))"
proof (induction rule: guard_reach.induct)
  case (Start cfg ses port name f u)
  then have "well_routed f0" "\<not> evm_built f0 \<or> cfg_EnableEvm cfg"
    "\<And>p. cgd_evmRpcWsProxy f0 = Some p \<Longrightarrow> proxy_rules p = ([], [])"
    by (auto simp: built_def)
  with applyRules_guard_inv [OF Start(2,1)] show ?case by simp
next
  case (Step s t)
  then show ?case using guard_step_inv by blast
qed

section \<open>WebSocket sessions\<close>

text \<open>A request that no handler takes, and a handler's \<open>POST /\<close>, do not look at the session.\<close>

lemma http_handle_unused:
  "proxy_ServeHTTP (L\<lparr>he_handle := x\<rparr>) = proxy_ServeHTTP L" "getRequestHash (L\<lparr>he_handle := x\<rparr>) = getRequestHash L"
  "HttpProxy_cacheHit (L\<lparr>he_handle := x\<rparr>) = HttpProxy_cacheHit L"
  by (simp_all add: fun_eq_iff proxy_ServeHTTP_def getRequestHash_def HttpProxy_cacheHit_def split: sum.split prod.split)

lemma HttpProxy_cacheMiss_handle: "HttpProxy_cacheMiss (L\<lparr>he_handle := x\<rparr>) = HttpProxy_cacheMiss L"
  by (simp add: fun_eq_iff HttpProxy_cacheMiss_def http_handle_unused Let_def split: sum.split prod.split)

lemma HttpProxy_allow_handle: "HttpProxy_allow (L\<lparr>he_handle := x\<rparr>) = HttpProxy_allow L"
  by (simp add: fun_eq_iff HttpProxy_allow_def http_handle_unused HttpProxy_cacheMiss_handle Let_def
      split: option.split sum.split prod.split)

lemma HttpProxy_ServeHTTP_handle:
  assumes "find_endpoint r (hp_endpointHandlers p) = None"
  shows "HttpProxy_ServeHTTP (L\<lparr>he_handle := x\<rparr>) w r p u = HttpProxy_ServeHTTP L w r p u"
proof -
  obtain v where v: "HttpProxy_policy L r p = Ret v" using HttpProxy_policy_returns by (rule returnsE)
  then have v': "HttpProxy_policy (L\<lparr>he_handle := x\<rparr>) r p = Ret v" by (simp add: HttpProxy_policy_def)
  from HttpProxy_ServeHTTP_verdict [OF assms v] HttpProxy_ServeHTTP_verdict [OF assms v'] show ?thesis
    by (simp add: HttpProxy_allow_handle split: verdict.split)
qed

lemma http_env_session:
  "http_env_of E ses' port = (http_env_of E ses port)\<lparr>he_handle := he_handle (http_env_of E ses' port)\<rparr>"
  by (simp add: http_env_of_def)

lemma rpc_env_session:
  "rpc_env_of E ses' port name = (rpc_env_of E ses port name)\<lparr>jl_ws_handle := ws_handler E ses' name\<rparr>"
  by (simp add: rpc_env_of_def)

lemma batch_allow_ws: "batch_allow (L\<lparr>jl_ws_handle := x\<rparr>) = batch_allow L"
  by (simp add: fun_eq_iff batch_allow_def Let_def split: option.split sum.split prod.split)

lemma batch_rules_ws: "batch_rules (L\<lparr>jl_ws_handle := x\<rparr>) d rules q st = batch_rules L d rules q st"
  by (induction rules) (simp_all add: batch_allow_ws split: outcome.split bool.split)

lemma batch_loop_ws: "batch_loop (L\<lparr>jl_ws_handle := x\<rparr>) d rules i qs st = batch_loop L d rules i qs st"
proof (induction qs arbitrary: i st)
  case (Cons q qs)
  have "batch_request (L\<lparr>jl_ws_handle := x\<rparr>) d rules i q st = batch_request L d rules i q st"
    by (simp add: batch_request_def batch_rules_ws split: option.split)
  with Cons show ?case by (simp split: prod.split option.split)
qed simp

lemma ws_handle_unused:
  "next_plain (L\<lparr>jl_ws_handle := x\<rparr>) = next_plain L" "next_wrapped (L\<lparr>jl_ws_handle := x\<rparr>) = next_wrapped L"
  "getResponsesFromUpstream (L\<lparr>jl_ws_handle := x\<rparr>) = getResponsesFromUpstream L"
  by (simp_all add: fun_eq_iff next_plain_def next_wrapped_def getResponsesFromUpstream_def Let_def
      split: sum.split prod.split)

lemma single_upstream_ws: "single_upstream (L\<lparr>jl_ws_handle := x\<rparr>) = single_upstream L"
proof -
  have "getSingleUpstreamResponse (L\<lparr>jl_ws_handle := x\<rparr>) = getSingleUpstreamResponse L"
    by (simp add: fun_eq_iff getSingleUpstreamResponse_def ws_handle_unused split: sum.split prod.split option.split)
  then show ?thesis by (simp add: fun_eq_iff single_upstream_def)
qed

lemma single_allowed_ws: "single_allowed (L\<lparr>jl_ws_handle := x\<rparr>) = single_allowed L"
  by (simp add: fun_eq_iff single_allowed_def single_cached_def single_forward_def single_upstream_ws
      ws_handle_unused Let_def split: option.split sum.split prod.split)

lemma single_denied_ws: "single_denied (L\<lparr>jl_ws_handle := x\<rparr>) = single_denied L"
  by (simp add: fun_eq_iff single_denied_def)

lemma batch_upstream_ws: "batch_upstream (L\<lparr>jl_ws_handle := x\<rparr>) = batch_upstream L"
  by (simp add: fun_eq_iff batch_upstream_def ws_handle_unused Let_def
      split: sum.split prod.split outcome.split)

lemma handleHttp_ws: "handleHttp (L\<lparr>jl_ws_handle := x\<rparr>) w r h u = handleHttp L w r h u"
proof -
  have single: "handleHttpSingle (L\<lparr>jl_ws_handle := x\<rparr>) = handleHttpSingle L"
    by (simp add: fun_eq_iff handleHttpSingle_verdict single_allowed_ws single_denied_ws
        split: outcome.split verdict.split)
  have batch: "handleHttpBatch (L\<lparr>jl_ws_handle := x\<rparr>) = handleHttpBatch L"
    by (simp add: fun_eq_iff handleHttpBatch_def batch_loop_ws batch_upstream_ws Let_def
        split: prod.split option.split outcome.split sum.split)
  show ?thesis by (simp add: handleHttp_def single batch split: sum.split prod.split option.split)
qed

text \<open>The session without the requests that the rules deny.\<close>

definition admitted_reads ::
  "('g, 'c, 'k, 'cl, 'w, 'u) sys_env \<Rightarrow> 'g Config list \<Rightarrow> port \<Rightarrow> Request \<Rightarrow> ws_read list \<Rightarrow> ws_read list" where
  "admitted_reads E cfgs port r reads = (case find_endpoint r (endpoints_of port) of
       None \<Rightarrow> reads
     | Some name \<Rightarrow> (case rpc_rules_of cfgs name of (rules, d) \<Rightarrow>
         filter (\<lambda>x. \<not> ws_refuses (ws_env_of E name) rules d x) reads))"

text \<open>Two handlers that differ only in metrics and in refusals one client got.\<close>

definition handler_sim ::
  "('g, 'k, 'cl, 'w) ws_env \<Rightarrow> 'cl \<Rightarrow> ('g, 'k, ('g, 'k, 'cl, 'w) WsState) JsonRpcHandler
     \<Rightarrow> ('g, 'k, ('g, 'k, 'cl, 'w) WsState) JsonRpcHandler \<Rightarrow> bool" where
  "handler_sim L c h k \<longleftrightarrow> jh_cache h = jh_cache k \<and> rel_option (ws_sim L c) (jh_wsProxy h) (jh_wsProxy k)"

lemma handler_sim_refl: "handler_sim L c h h"
  by (simp add: handler_sim_def option.rel_refl)

lemma ws_handler_filtered:
  assumes run: "ws_handler E ses name s c w r u = (out, s', c', u')"
    and rs: "ws_policy_of s = (rules, d)"
    and ses': "ses' = ses\<lparr>ses_reads := filter (\<lambda>x. \<not> ws_refuses (ws_env_of E name) rules d x) (ses_reads ses)\<rparr>"
  shows "\<exists>t. ws_handler E ses' name s c w r u = (out, t, c', u') \<and> ws_sim (ws_env_of E name) (ses_client ses) s' t"
proof -
  let ?L = "ws_env_of E name" and ?s = "s\<lparr>ws_cache := c\<rparr>"
  have reads: "filter (ws_admits ?L ?s) (ses_reads ses) = ses_reads ses'"
    using rs by (simp add: ses' ws_admits_def [abs_def] ws_policy_of_def)
  obtain o' s1 t1 where "WebSocketProxy_HandleConnection ?L (ses_upgrade ses) (ses_client ses) (ses_reads ses) ?s = (o', s1)"
    "WebSocketProxy_HandleConnection ?L (ses_upgrade ses) (ses_client ses) (ses_reads ses') ?s = (o', t1)"
    and sim: "ws_sim ?L (ses_client ses) s1 t1"
    using ws_session_filtered [of ?L "ses_upgrade ses" "ses_client ses" "ses_reads ses" ?s] reads by auto
  moreover have "ses_upgrade ses' = ses_upgrade ses" "ses_client ses' = ses_client ses" "ses_writer ses' = ses_writer ses"
    by (simp_all add: ses')
  moreover have "ws_cache s1 = ws_cache t1" using sim by (simp add: ws_sim_def)
  ultimately show ?thesis using run by (auto simp: ws_handler_def)
qed

lemma handler_serve_filtered:
  assumes run: "JsonRpcHandler_ServeHTTP (rpc_env_of E ses port name) w r h u = (out, h', u')"
    and rs: "handler_in_force (rules, d) h"
    and ses': "ses' = ses\<lparr>ses_reads := filter (\<lambda>x. \<not> ws_refuses (ws_env_of E name) rules d x) (ses_reads ses)\<rparr>"
  shows "\<exists>k. JsonRpcHandler_ServeHTTP (rpc_env_of E ses' port name) w r h u = (out, k, u')
    \<and> handler_sim (ws_env_of E name) (ses_client ses) h' k"
proof (cases "rq_Method r = ''POST'' \<and> rq_Path r = ''/''")
  case True
  with run have "handleHttp (rpc_env_of E ses port name) w r h u = (out, h', u')"
    by (simp add: JsonRpcHandler_ServeHTTP_def)
  then have "handleHttp (rpc_env_of E ses' port name) w r h u = (out, h', u')"
    by (subst rpc_env_session [of E ses' port name ses]) (simp only: handleHttp_ws)
  with True show ?thesis by (simp add: JsonRpcHandler_ServeHTTP_def handler_sim_refl)
next
  case post: False
  show ?thesis
  proof (cases "\<exists>s. jh_wsProxy h = Some s \<and> rq_Path r = jh_wsPath h \<and> rq_Method r = ''GET''")
    case True
    then obtain s where s: "jh_wsProxy h = Some s" "rq_Path r = jh_wsPath h" "rq_Method r = ''GET''" by blast
    obtain s1 c1 where ws: "ws_handler E ses name s (jh_cache h) w r u = (out, s1, c1, u')"
      and h': "h' = h\<lparr>jh_wsProxy := Some s1, jh_cache := c1\<rparr>"
      using run s by (auto simp: JsonRpcHandler_ServeHTTP_def split: prod.splits)
    have "ws_policy_of s = (rules, d)" using rs s(1) by (simp add: handler_in_force_def)
    from ws_handler_filtered [OF ws this ses'] s post h' show ?thesis
      by (auto simp: JsonRpcHandler_ServeHTTP_def handler_sim_def)
  next
    case False
    with run post have "out = Ret (WriteError 400 ''unexpected request'' [] w)" "h' = h" "u' = u"
      by (auto simp: JsonRpcHandler_ServeHTTP_def split: option.splits if_splits)
    with False post show ?thesis
      by (auto simp: JsonRpcHandler_ServeHTTP_def handler_sim_refl split: option.split)
  qed
qed

lemma serve_filtered:
  assumes force: "in_force cfgs f" and well_routed: "well_routed f"
    and run: "CosmoGuard_serve E ses port r f u = Some (out, f', u')"
  shows "\<exists>g. CosmoGuard_serve E (ses\<lparr>ses_reads := admitted_reads E cfgs port r (ses_reads ses)\<rparr>) port r f u = Some (out, g, u')
    \<and> (\<forall>name. rel_option (handler_sim (ws_env_of E name) (ses_client ses)) (handler_at name f') (handler_at name g))"
proof -
  let ?ses = "ses\<lparr>ses_reads := admitted_reads E cfgs port r (ses_reads ses)\<rparr>"
  have refl: "rel_option (handler_sim (ws_env_of E name) (ses_client ses)) x x" for name x
    by (rule option.rel_refl) (rule handler_sim_refl)
  show ?thesis
    using run
  proof (cases rule: serve_cases)
    case (Proxy p p')
    have "HttpProxy_ServeHTTP (http_env_of E ?ses port) new_writer r p (f, u)
        = HttpProxy_ServeHTTP (http_env_of E ses port) new_writer r p (f, u)"
      by (subst http_env_session [of E ?ses port ses]) (rule HttpProxy_ServeHTTP_handle [OF Proxy(2)])
    with Proxy(3) have "CosmoGuard_serve E ?ses port r f u = Some (out, f', u')"
      by (simp add: CosmoGuard_serve_def Proxy(1,4))
    with refl show ?thesis by blast
  next
    case (Nobody p name)
    then have "CosmoGuard_serve E ?ses port r f u = Some (out, f', u')"
      by (simp add: CosmoGuard_serve_def HttpProxy_ServeHTTP_def http_env_of_def)
    with refl show ?thesis by blast
  next
    case (Handler p name h h')
    obtain rules d where rs: "rpc_rules_of cfgs name = (rules, d)" by fastforce
    have "handler_in_force (rules, d) h" using in_forceD(2) [OF force Handler(3)] by (simp add: rs)
    moreover have "?ses = ses\<lparr>ses_reads := filter (\<lambda>x. \<not> ws_refuses (ws_env_of E name) rules d x) (ses_reads ses)\<rparr>"
      using Handler(2) by (simp add: admitted_reads_def rs well_routedD [OF well_routed Handler(1)])
    ultimately obtain k where k: "JsonRpcHandler_ServeHTTP (rpc_env_of E ?ses port name) new_writer r h u = (out, k, u')"
      and sim: "handler_sim (ws_env_of E name) (ses_client ses) h' k"
      using handler_serve_filtered [OF Handler(4)] by blast
    let ?g = "set_proxy port p (set_handler name k f)"
    have "CosmoGuard_serve E ?ses port r f u = Some (out, ?g, u')"
      using Handler(1-3) k by (simp add: CosmoGuard_serve_def HttpProxy_ServeHTTP_def http_env_of_def)
    moreover have "rel_option (handler_sim (ws_env_of E n) (ses_client ses)) (handler_at n f') (handler_at n ?g)" for n
      using sim refl by (simp add: Handler(5))
    ultimately show ?thesis by blast
  qed
qed

text \<open>A session of a new client that is refused everything leaves broker and connections alone.\<close>

definition config_refuses ::
  "('g, 'c, 'k, 'cl, 'w, 'u) sys_env \<Rightarrow> 'g Config list \<Rightarrow> rpc_handler \<Rightarrow> 'cl session \<Rightarrow> bool" where
  "config_refuses E cfgs name ses \<longleftrightarrow> (case rpc_rules_of cfgs name of
       (rules, d) \<Rightarrow> all_denied (ws_env_of E name) rules d (ses_reads ses))"

definition ws_unchanged :: "('g, 'k, 'cl, 'w) WsState \<Rightarrow> ('g, 'k, 'cl, 'w) WsState \<Rightarrow> bool" where
  "ws_unchanged s t \<longleftrightarrow> ws_broker s = ws_broker t \<and> ws_world s = ws_world t"

lemma ws_handler_refused:
  assumes "ws_handler E ses name s c w r u = (out, s', c', u')"
    and "all_denied (ws_env_of E name) (ws_rules s) (ws_defaultAction s) (ses_reads ses)"
    and "ses_client ses \<notin> set (bk_callbacks (ws_broker s))"
  shows "ws_unchanged s' s"
proof -
  obtain o1 s1 where run: "WebSocketProxy_HandleConnection (ws_env_of E name) (ses_upgrade ses) (ses_client ses)
      (ses_reads ses) (s\<lparr>ws_cache := c\<rparr>) = (o1, s1)" by fastforce
  have "only_refused (ws_env_of E name) (ses_client ses) (s\<lparr>ws_cache := c\<rparr>) s1"
    using ws_session_refused [OF _ _ run] assms(2,3) by simp
  with assms(1) run show ?thesis by (auto simp: ws_handler_def only_refused_def ws_unchanged_def)
qed

lemma handler_serve_refused:
  assumes run: "JsonRpcHandler_ServeHTTP (rpc_env_of E ses port name) w r h u = (out, h', u')"
    and s: "jh_wsProxy h = Some s" and fresh: "ses_client ses \<notin> set (bk_callbacks (ws_broker s))"
    and denied: "all_denied (ws_env_of E name) (ws_rules s) (ws_defaultAction s) (ses_reads ses)"
  shows "\<exists>s'. jh_wsProxy h' = Some s' \<and> ws_unchanged s' s"
proof (cases "rq_Method r = ''POST'' \<and> rq_Path r = ''/''")
  case True
  with run have "handleHttp (rpc_env_of E ses port name) w r h u = (out, h', u')"
    by (simp add: JsonRpcHandler_ServeHTTP_def)
  from handleHttp_frame [OF this] s show ?thesis by (simp add: ws_unchanged_def)
next
  case False
  obtain o1 s1 c1 u1 where ws: "ws_handler E ses name s (jh_cache h) w r u = (o1, s1, c1, u1)"
    by (metis surj_pair)
  from False run s ws have "h' = h \<or> h' = h\<lparr>jh_wsProxy := Some s1, jh_cache := c1\<rparr>"
    by (auto simp: JsonRpcHandler_ServeHTTP_def split: if_splits)
  with ws_handler_refused [OF ws denied fresh] s show ?thesis by (auto simp: ws_unchanged_def)
qed

lemma serve_session_refused:
  assumes force: "in_force cfgs f" and run: "CosmoGuard_serve E ses port r f u = Some (out, f', u')"
    and h: "handler_at name f = Some h" "jh_wsProxy h = Some s"
    and fresh: "ses_client ses \<notin> set (bk_callbacks (ws_broker s))" and refused: "config_refuses E cfgs name ses"
  shows "\<exists>h' s'. handler_at name f' = Some h' \<and> jh_wsProxy h' = Some s' \<and> ws_unchanged s' s"
proof -
  have same: "ws_unchanged s s" by (simp add: ws_unchanged_def)
  have denied: "all_denied (ws_env_of E name) (ws_rules s) (ws_defaultAction s) (ses_reads ses)"
    using in_forceD(2) [OF force h(1)] h(2) refused
    by (cases "rpc_rules_of cfgs name") (simp add: handler_in_force_def ws_policy_of_def config_refuses_def)
  from run show ?thesis
  proof (cases rule: serve_cases)
    case (Handler p n k h')
    show ?thesis
    proof (cases "n = name")
      case True
      with Handler(3,4) h have "JsonRpcHandler_ServeHTTP (rpc_env_of E ses port name) new_writer r h u = (out, h', u')"
        by simp
      from handler_serve_refused [OF this h(2) fresh denied] True show ?thesis by (simp add: Handler(5))
    next
      case False
      with h same show ?thesis by (simp add: Handler(5))
    qed
  qed (use h same in auto)
qed

section \<open>What the cache of a handler holds\<close>

text \<open>The handler and its WebSocket proxy share a cache; the session does not matter.\<close>

definition handler_cached ::
  "('g, 'c, 'k, 'cl, 'w, 'u) sys_env \<Rightarrow> port \<Rightarrow> rpc_handler \<Rightarrow> 64 word \<Rightarrow> JsonRpcMsg \<Rightarrow> bool" where
  "handler_cached E port name key res \<longleftrightarrow>
     (\<exists>ses. rpc_cached (rpc_env_of E ses port name) key res) \<or> ws_cached (ws_env_of E name) key res"

context msg_cache
begin

lemma handler_serve_holds:
  assumes api: "se_rpc_cache E = api" and P: "holds_all (handler_cached E port name) (jh_cache h)"
    and run: "JsonRpcHandler_ServeHTTP (rpc_env_of E ses port name) w r h u = (out, h', u')"
  shows "holds_all (handler_cached E port name) (jh_cache h')"
proof (cases "rq_Method r = ''POST'' \<and> rq_Path r = ''/''")
  case True
  with run have "handleHttp (rpc_env_of E ses port name) w r h u = (out, h', u')"
    by (simp add: JsonRpcHandler_ServeHTTP_def)
  from handleHttp_holds [OF _ _ P this] api show ?thesis by (auto simp: handler_cached_def)
next
  case post: False
  show ?thesis
  proof (cases "\<exists>s. jh_wsProxy h = Some s \<and> rq_Path r = jh_wsPath h \<and> rq_Method r = ''GET''")
    case True
    then obtain s where s: "jh_wsProxy h = Some s" "rq_Path r = jh_wsPath h" "rq_Method r = ''GET''" by blast
    obtain o1 s1 where ses: "WebSocketProxy_HandleConnection (ws_env_of E name) (ses_upgrade ses) (ses_client ses)
        (ses_reads ses) (s\<lparr>ws_cache := jh_cache h\<rparr>) = (o1, s1)" by fastforce
    have "holds_all (handler_cached E port name) (ws_cache s1)"
      by (rule ws_session_holds [OF _ _ _ ses]) (simp_all add: handler_cached_def ws_env_of_def api P)
    with run s ses show ?thesis by (auto simp: JsonRpcHandler_ServeHTTP_def ws_handler_def)
  next
    case False
    with run post P show ?thesis by (auto simp: JsonRpcHandler_ServeHTTP_def split: option.splits if_splits)
  qed
qed

lemma handler_serve_live:
  assumes "se_rpc_cache E = api"
    and "\<And>k v. live (jh_cache h) k = Some v \<or> foreign k v \<Longrightarrow> handler_cached E port name k v"
    and "JsonRpcHandler_ServeHTTP (rpc_env_of E ses port name) w r h u = (out, h', u')"
    and "live (jh_cache h') k = Some v"
  shows "handler_cached E port name k v"
  using handler_serve_holds [OF assms(1) _ assms(3)] assms(2,4) unfolding holds_all_def by blast

end

section \<open>Calls on the gRPC port\<close>

definition grpc_admits :: "'g globber \<Rightarrow> 'g GrpcRule list \<times> RuleAction \<Rightarrow> string \<Rightarrow> bool" where
  "grpc_admits gl rs meth \<longleftrightarrow>
     (\<exists>x. policy (\<lambda>rule. Ret (GrpcRule_Match gl rule meth)) gr_Action (snd rs) (fst rs) = Ret (Allowed x))"

lemma grpc_call_admitted:
  assumes "in_force cfgs f" and "GrpcProxy_Handle gl ctx meth (cgd_grpcProxy f) = (ctx', Some conn, e)"
  shows "HasPrefix meth ''/grpc.reflection'' \<or> grpc_admits gl (grpc_rules_of cfgs) meth"
proof (cases "HasPrefix meth ''/grpc.reflection''")
  case False
  let ?p = "cgd_grpcProxy f"
  obtain v where v: "GrpcProxy_policy gl meth ?p = Ret v"
    using policy_returns [of "gp_rules ?p" "\<lambda>rule. Ret (GrpcRule_Match gl rule meth)"]
    unfolding GrpcProxy_policy_def by (metis returns.simps(1) returnsE)
  with GrpcProxy_Handle_verdict [OF False v, of ctx] assms(2) obtain x where "v = Allowed x"
    by (cases v) auto
  with v have "grpc_admits gl (grpc_rules ?p) meth"
    by (auto simp: grpc_admits_def grpc_rules_def GrpcProxy_policy_def)
  then show ?thesis by (simp add: in_forceD(3) [OF assms(1)])
qed simp

section \<open>Turning EVM off\<close>

text \<open>A reload that turns EVM off leaves the EVM proxies and handlers as they were, serving.\<close>

lemma evm_off_keeps_serving:
  assumes "CosmoGuard_applyRules L f = (Done, g)" and "cgd_cfg f = Some cfg" and "\<not> cfg_EnableEvm cfg"
  shows "cgd_evmRpcProxy g = cgd_evmRpcProxy f \<and> cgd_evmRpcWsProxy g = cgd_evmRpcWsProxy f
    \<and> cgd_evmJsonRpcHandler g = cgd_evmJsonRpcHandler f \<and> cgd_evmJsonRpcWsHandler g = cgd_evmJsonRpcWsHandler f"
  using assms by (auto simp: CosmoGuard_applyRules_def Let_def split: option.splits)

end
