(* ===== verification/SystemProps.thy ===== *)
theory SystemProps
  imports ServingSpec WsProps
begin

text \<open>The properties of the supervisor with the proxies it builds, and of the guard at work.\<close>

section \<open>A concrete start\<close>

definition demo_sys_with :: "(string \<Rightarrow> JsonRpcHandlerOptions \<Rightarrow> 'x) \<Rightarrow>
    (string, unit, (string namespacedKey, CachedResponse) ref_store,
    (64 word namespacedKey, JsonRpcMsg) ref_store, (string, string) ref_store, string, 'x) sys_lib" where
  "demo_sys_with newWs = \<lparr>sl_config = \<lparr>cl_ReadFile = (\<lambda>_. Inr ''plain''),
       cl_Unmarshal = (\<lambda>t. Inr ((lcd_config [])\<lparr>cfg_EnableEvm := (t = ''evm'')\<rparr>)),
       cl_SetDefaults = (\<lambda>cfg. (cfg, None)), cl_pdq = insertion_pdq, cl_glob = exact_glob\<rparr>,
     sl_Listen = (\<lambda>_. None), sl_Dial = (\<lambda>_. Inr ()), sl_url_Parse = (\<lambda>_. None),
     sl_http_ttlcache = ref_ttlcache, sl_rpc_ttlcache = ref_ttlcache, sl_redis = ref_redis,
     sl_newWs = newWs\<rparr>"

abbreviation demo_sys where
  "demo_sys \<equiv> demo_sys_with (\<lambda>_ _. ())"

lemma demo_sys_read:
  "ReadConfigFromFile ((sl_config (demo_sys_with nw))\<lparr>cl_ReadFile := (\<lambda>_. Inr t)\<rparr>) path =
     Ret (Some ((lcd_config [])\<lparr>cfg_EnableEvm := (t = ''evm'')\<rparr>), None)"
proof -
  have "insertion_pdq [] = []" by code_simp
  then show ?thesis
    by (simp add: ReadConfigFromFile_def demo_sys_with_def prepare_config_def prepare_rules_def sort_Slice_def
        lcd_config_def zero_config_def)
qed

lemma demo_sys_New: "\<exists>f. New (demo_sys_with nw) ''cfg.yaml'' = Ret (Inr f) \<and> cgd_cfg f = Some (lcd_config [])
    \<and> cgd_cfgFile f = ''cfg.yaml'' \<and> jh_readers (cgd_jsonRpcHandler f) = 0 \<and> cgd_evmRpcProxy f = None"
proof -
  have "(lcd_config [])\<lparr>cfg_EnableEvm := False\<rparr> = lcd_config []"
    by (simp add: lcd_config_def zero_config_def)
  moreover have "sl_config (demo_sys_with nw) = (sl_config (demo_sys_with nw))\<lparr>cl_ReadFile := (\<lambda>_. Inr ''plain'')\<rparr>"
    by (simp add: demo_sys_with_def)
  ultimately have read: "ReadConfigFromFile (sl_config (demo_sys_with nw)) ''cfg.yaml'' = Ret (Some (lcd_config []), None)"
    using demo_sys_read [of "''plain''" nw "''cfg.yaml''"] by simp
  have "\<not> cfg_EnableEvm (lcd_config [])" by (simp add: lcd_config_def zero_config_def)
  moreover have "\<exists>f. New_from (demo_sys_with nw) ''cfg.yaml'' (lcd_config [] :: string Config) = Inr f"
    by (simp add: New_from_def Let_def set_up_def new_http_def new_rpc_handler_def NewGrpcProxy_def
        NewHttpProxy_def NewJsonRpcHandler_def setup_cache_def demo_sys_with_def lcd_config_def zero_config_def
        apply_options_def WithCacheConfig_Http_def WithMetricsEnabled_Http_def WithCacheConfig_JsonRpc_def
        WithMetricsEnabled_JsonRpc_def DefaultHttpProxyOptions_def DefaultJsonRpcHandlerOptions_def
        WithWebSocketEnabled_def WithWebSocketBackend_def WithWebSocketConnections_def
        DefaultSharedOptions_def WithEndpointHandler_def)
  ultimately show ?thesis using read New_from_built by (fastforce simp: New_def)
qed

section \<open>Properties\<close>

text \<open>
  C21: From the start and through any changes of the configuration, the only requests that the
  HTTP rules do not see are those the JSON-RPC handlers take: \<open>POST /\<close> and \<open>GET /websocket\<close> on the RPC
  port, \<open>POST /\<close> on the EVM port and \<open>GET /\<close> on the EVM WebSocket port; on the LCD port there are none.
\<close>

theorem only_json_rpc_bypasses_rules:
  assumes "New lib path = Ret (Inr f)" and "CosmoGuard_Run L cl nw ad evs f = (res, g)"
  shows "find_endpoint r (hp_endpointHandlers (cgd_lcdProxy g)) = None
    \<and> (find_endpoint r (hp_endpointHandlers (cgd_rpcProxy g)) =
         (if rq_Method r = ''POST'' \<and> rq_Path r = ''/'' \<or> rq_Method r = ''GET'' \<and> rq_Path r = ''/websocket''
          then Some RpcJsonRpc else None))
    \<and> (\<forall>p. cgd_evmRpcProxy g = Some p \<longrightarrow> find_endpoint r (hp_endpointHandlers p) =
         (if rq_Method r = ''POST'' \<and> rq_Path r = ''/'' then Some EvmJsonRpc else None))
    \<and> (\<forall>p. cgd_evmRpcWsProxy g = Some p \<longrightarrow> find_endpoint r (hp_endpointHandlers p) =
         (if rq_Method r = ''GET'' \<and> rq_Path r = ''/'' then Some EvmJsonRpcWs else None))"
proof -
  obtain cfg where "New_from lib path cfg = Inr f" using New_Inr [OF assms(1)] by blast
  note built = New_from_built [OF this]
  have same: "routes g = routes f" using Run_routes [of L cl nw ad evs f] assms(2) by simp
  then have lcd: "hp_endpointHandlers (cgd_lcdProxy g) = []"
    and rpc: "hp_endpointHandlers (cgd_rpcProxy g) = rpc_route rpc_endpoints RpcJsonRpc"
    using built by (simp_all add: routes_def)
  have evm: "hp_endpointHandlers p = rpc_route [\<lparr>ep_Path = ''/'', ep_Method = ''POST''\<rparr>] EvmJsonRpc"
    if "cgd_evmRpcProxy g = Some p" for p
    using that same built by (cases "cfg_EnableEvm cfg") (auto simp: routes_def)
  have ws: "hp_endpointHandlers p = rpc_route [\<lparr>ep_Path = ''/'', ep_Method = ''GET''\<rparr>] EvmJsonRpcWs"
    if "cgd_evmRpcWsProxy g = Some p" for p
    using that same built by (cases "cfg_EnableEvm cfg") (auto simp: routes_def)
  show ?thesis
  proof (intro conjI allI impI)
    show "find_endpoint r (hp_endpointHandlers (cgd_lcdProxy g)) = None" by (simp add: lcd)
    show "find_endpoint r (hp_endpointHandlers (cgd_rpcProxy g)) =
         (if rq_Method r = ''POST'' \<and> rq_Path r = ''/'' \<or> rq_Method r = ''GET'' \<and> rq_Path r = ''/websocket''
          then Some RpcJsonRpc else None)"
      unfolding rpc by (auto simp: find_endpoint_route rpc_endpoints_def defaultWebsocketPath_def)
  next
    fix p assume "cgd_evmRpcProxy g = Some p"
    from evm [OF this] show "find_endpoint r (hp_endpointHandlers p) =
         (if rq_Method r = ''POST'' \<and> rq_Path r = ''/'' then Some EvmJsonRpc else None)"
      by (auto simp: find_endpoint_route)
  next
    fix p assume "cgd_evmRpcWsProxy g = Some p"
    from ws [OF this] show "find_endpoint r (hp_endpointHandlers p) =
         (if rq_Method r = ''GET'' \<and> rq_Path r = ''/'' then Some EvmJsonRpcWs else None)"
      by (auto simp: find_endpoint_route)
  qed
qed

theorem only_json_rpc_bypasses_rules_witness:
  "\<exists>f g res. New demo_sys ''cfg.yaml'' = Ret (Inr f)
    \<and> CosmoGuard_Run (demo_rpc_env (\<lambda>b. b)) (sl_config demo_sys) None None [EventsClosed] f = (res, g)
    \<and> find_endpoint (demo_post []) (hp_endpointHandlers (cgd_rpcProxy g)) = Some RpcJsonRpc"
proof -
  obtain f where new: "New demo_sys ''cfg.yaml'' = Ret (Inr f)" using demo_sys_New by blast
  obtain res g where run: "CosmoGuard_Run (demo_rpc_env (\<lambda>b. b)) (sl_config demo_sys) None None [EventsClosed] f = (res, g)"
    by fastforce
  from only_json_rpc_bypasses_rules [OF new run, of "demo_post []"] new run show ?thesis
    by (simp add: demo_post_def)
qed

text \<open>
  C20: A configuration read after a change takes effect: watching goes on from a state in which every
  proxy and every handler that the configuration is for, with the WebSocket proxy in it, has the rules and
  the default of the new file, and every cache is as it was.  The EVM proxy and the EVM handlers are
  among them when the file has EVM on, and are as they were when it has EVM off; the proxy of
  the EVM WebSocket port, which has no rules, is as it was in both cases.
\<close>

theorem reload_applies_rules:
  assumes read: "ReadConfigFromFile (cl\<lparr>cl_ReadFile := fs\<rparr>) (cgd_cfgFile f) = Ret (Some cfg, None)"
    and unlocked: "jh_readers (cgd_jsonRpcHandler f) = 0"
    and evm: "cfg_EnableEvm cfg \<Longrightarrow> \<exists>p h k. cgd_evmRpcProxy f = Some p \<and> cgd_evmJsonRpcHandler f = Some h
       \<and> jh_readers h = 0 \<and> cgd_evmJsonRpcWsHandler f = Some k \<and> jh_readers k = 0"
  shows "\<exists>g. watch_loop L cl (DirChanged fs # evs) f = watch_loop L cl evs g
    \<and> (hp_rules (cgd_lcdProxy g), hp_defaultAction (cgd_lcdProxy g)) =
        (lcd_Rules (cfg_LCD cfg), lcd_Default (cfg_LCD cfg))
    \<and> (gp_rules (cgd_grpcProxy g), gp_defaultAction (cgd_grpcProxy g)) =
        (grpc_Rules (cfg_GRPC cfg), grpc_Default (cfg_GRPC cfg))
    \<and> (hp_rules (cgd_rpcProxy g), hp_defaultAction (cgd_rpcProxy g)) =
        (rpc_Rules (cfg_RPC cfg), rpc_Default (cfg_RPC cfg))
    \<and> (let jc = rpc_JsonRpc (cfg_RPC cfg); h = cgd_jsonRpcHandler g
       in (jh_rules h, jh_defaultAction h) = (jc_Rules jc, jc_Default jc)
        \<and> jh_wsProxy h = map_option (jl_ws_SetRules L (jc_Rules jc) (jc_Default jc)) (jh_wsProxy (cgd_jsonRpcHandler f)))
    \<and> hp_cache (cgd_lcdProxy g) = hp_cache (cgd_lcdProxy f) \<and> hp_cache (cgd_rpcProxy g) = hp_cache (cgd_rpcProxy f)
    \<and> jh_cache (cgd_jsonRpcHandler g) = jh_cache (cgd_jsonRpcHandler f)
    \<and> cgd_evmRpcWsProxy g = cgd_evmRpcWsProxy f
    \<and> (if cfg_EnableEvm cfg
       then let er = evm_RPC (cfg_EVM cfg); ew = evm_WS (cfg_EVM cfg) in
         (\<exists>p p'. cgd_evmRpcProxy f = Some p \<and> cgd_evmRpcProxy g = Some p' \<and> hp_cache p' = hp_cache p
           \<and> (hp_rules p', hp_defaultAction p') = (er_HttpRules er, er_Default er))
       \<and> (\<exists>h h'. cgd_evmJsonRpcHandler f = Some h \<and> cgd_evmJsonRpcHandler g = Some h' \<and> jh_cache h' = jh_cache h
           \<and> (jh_rules h', jh_defaultAction h') = (er_Rules er, er_Default er)
           \<and> jh_wsProxy h' = map_option (jl_ws_SetRules L (er_Rules er) (er_Default er)) (jh_wsProxy h))
       \<and> (\<exists>k k'. cgd_evmJsonRpcWsHandler f = Some k \<and> cgd_evmJsonRpcWsHandler g = Some k' \<and> jh_cache k' = jh_cache k
           \<and> (jh_rules k', jh_defaultAction k') = (ew_Rules ew, ew_Default ew)
           \<and> jh_wsProxy k' = map_option (jl_ws_SetRules L (ew_Rules ew) (ew_Default ew)) (jh_wsProxy k))
       else cgd_evmRpcProxy g = cgd_evmRpcProxy f \<and> cgd_evmJsonRpcHandler g = cgd_evmJsonRpcHandler f
         \<and> cgd_evmJsonRpcWsHandler g = cgd_evmJsonRpcWsHandler f)"
proof (cases "cfg_EnableEvm cfg")
  case True
  with evm obtain p h k where "cgd_evmRpcProxy f = Some p" "cgd_evmJsonRpcHandler f = Some h" "jh_readers h = 0"
    "cgd_evmJsonRpcWsHandler f = Some k" "jh_readers k = 0" by blast
  with True show ?thesis
    by (simp add: CosmoGuard_loadConfig_def read CosmoGuard_applyRules_def applyEvmRules_def Let_def
        handler_SetRules unlocked)
      (rule exI, rule conjI, rule refl, simp)
next
  case False
  then show ?thesis
    by (simp add: CosmoGuard_loadConfig_def read CosmoGuard_applyRules_def Let_def
        handler_SetRules unlocked)
      (rule exI, rule conjI, rule refl, simp)
qed

theorem reload_applies_rules_witness:
  "\<exists>f g. New demo_sys ''cfg.yaml'' = Ret (Inr f) \<and> watch_loop (demo_rpc_env (\<lambda>b. b)) (sl_config demo_sys)
      [DirChanged (\<lambda>_. Inr ''plain''), EventsClosed] f =
      watch_loop (demo_rpc_env (\<lambda>b. b)) (sl_config demo_sys) [EventsClosed] g
    \<and> hp_rules (cgd_lcdProxy g) = []"
proof -
  obtain f where f: "New demo_sys ''cfg.yaml'' = Ret (Inr f)" "jh_readers (cgd_jsonRpcHandler f) = 0"
    using demo_sys_New by blast
  have "\<not> cfg_EnableEvm ((lcd_config [] :: string Config)\<lparr>cfg_EnableEvm := (''plain'' = ''evm'')\<rparr>)" by simp
  with reload_applies_rules [OF demo_sys_read [of "''plain''" "\<lambda>_ _. ()"] f(2), of "demo_rpc_env (\<lambda>b. b)" "[EventsClosed]"]
  obtain g where "watch_loop (demo_rpc_env (\<lambda>b. b)) (sl_config demo_sys)
      [DirChanged (\<lambda>_. Inr ''plain''), EventsClosed] f =
      watch_loop (demo_rpc_env (\<lambda>b. b)) (sl_config demo_sys) [EventsClosed] g"
    "hp_rules (cgd_lcdProxy g) = []"
    by (auto simp: lcd_config_def zero_config_def)
  with f(1) show ?thesis by blast
qed

text \<open>
  C35: A handler whose read lock is never released stalls the first reload: the LCD, gRPC and RPC
  proxies already have the new rules, the JSON-RPC handler keeps the old ones, and no later
  change of the configuration is looked at.
\<close>

theorem reload_stalls_half_applied:
  assumes read: "ReadConfigFromFile (cl\<lparr>cl_ReadFile := fs\<rparr>) (cgd_cfgFile f) = Ret (Some cfg, None)"
    and locked: "0 < jh_readers (cgd_jsonRpcHandler f)"
  shows "\<exists>g. watch_loop L cl (DirChanged fs # evs) f = (Stalled, g)
    \<and> hp_rules (cgd_lcdProxy g) = lcd_Rules (cfg_LCD cfg)
    \<and> gp_rules (cgd_grpcProxy g) = grpc_Rules (cfg_GRPC cfg)
    \<and> hp_rules (cgd_rpcProxy g) = rpc_Rules (cfg_RPC cfg)
    \<and> cgd_jsonRpcHandler g = cgd_jsonRpcHandler f"
  by (simp add: CosmoGuard_loadConfig_def read CosmoGuard_applyRules_def Let_def
      handler_SetRules(2) [OF locked])

theorem reload_stalls_half_applied_witness:
  "\<exists>f0 g. New demo_sys ''cfg.yaml'' = Ret (Inr f0) \<and> watch_loop (demo_rpc_env (\<lambda>b. b)) (sl_config demo_sys)
      [DirChanged (\<lambda>_. Inr ''plain''), EventsClosed]
      (f0\<lparr>cgd_jsonRpcHandler := (cgd_jsonRpcHandler f0)\<lparr>jh_readers := 1\<rparr>\<rparr>) = (Stalled, g)"
proof -
  obtain f0 where new: "New demo_sys ''cfg.yaml'' = Ret (Inr f0)" using demo_sys_New by blast
  let ?f = "f0\<lparr>cgd_jsonRpcHandler := (cgd_jsonRpcHandler f0)\<lparr>jh_readers := 1\<rparr>\<rparr>"
  have "0 < jh_readers (cgd_jsonRpcHandler ?f)" by simp
  from reload_stalls_half_applied [OF demo_sys_read [of "''plain''" "\<lambda>_ _. ()"] this, of "demo_rpc_env (\<lambda>b. b)" "[EventsClosed]"]
    new show ?thesis by blast
qed

text \<open>
  C36: A process started without EVM dies when the configuration is changed to enable it: the EVM
  proxies were never built.
\<close>

theorem evm_enabled_at_reload_crashes:
  assumes new: "New lib path = Ret (Inr f)"
    and off: "ReadConfigFromFile (sl_config lib) path = Ret (Some cfg0, None)" "\<not> cfg_EnableEvm cfg0"
    and on: "ReadConfigFromFile (cl\<lparr>cl_ReadFile := fs\<rparr>) path = Ret (Some cfg, None)" "cfg_EnableEvm cfg"
  shows "\<exists>g e. CosmoGuard_Run L cl None None (DirChanged fs # evs) f = (Died e, g)"
proof -
  from New_Inr [OF new] off(1) have "New_from lib path cfg0 = Inr f" by auto
  from New_from_built [OF this] off(2)
  have f: "cgd_cfg f = Some cfg0" "cgd_cfgFile f = path" "jh_readers (cgd_jsonRpcHandler f) = 0"
    "cgd_evmRpcProxy f = None" by simp_all
  obtain f1 where run: "CosmoGuard_applyRules L f = (Done, f1)"
    and f1: "cgd_cfgFile f1 = path" "cgd_evmRpcProxy f1 = None" "jh_readers (cgd_jsonRpcHandler f1) = 0"
    using off(2) by (simp add: CosmoGuard_applyRules_def f Let_def handler_SetRules)
  have "CosmoGuard_Run L cl None None (DirChanged fs # evs) f = watch_loop L cl (DirChanged fs # evs) f1"
    unfolding CosmoGuard_Run_def run by (simp add: CosmoGuard_WatchConfigFile_def)
  moreover have "\<exists>g e. watch_loop L cl (DirChanged fs # evs) f1 = (Died e, g)"
    using on(2)
    by (simp add: CosmoGuard_loadConfig_def f1 on(1)
        CosmoGuard_applyRules_def applyEvmRules_def Let_def handler_SetRules nil_pointer_def)
  ultimately show ?thesis by simp
qed

theorem evm_enabled_at_reload_crashes_witness:
  "\<exists>f g e. New demo_sys ''cfg.yaml'' = Ret (Inr f)
    \<and> CosmoGuard_Run (demo_rpc_env (\<lambda>b. b)) (sl_config demo_sys) None None [DirChanged (\<lambda>_. Inr ''evm'')] f = (Died e, g)"
proof -
  obtain f where new: "New demo_sys ''cfg.yaml'' = Ret (Inr f)" using demo_sys_New by blast
  have sl: "sl_config demo_sys = (sl_config demo_sys)\<lparr>cl_ReadFile := (\<lambda>_. Inr ''plain'')\<rparr>"
    by (simp add: demo_sys_with_def)
  have "\<not> cfg_EnableEvm ((lcd_config [] :: string Config)\<lparr>cfg_EnableEvm := (''plain'' = ''evm'')\<rparr>)"
    "cfg_EnableEvm ((lcd_config [] :: string Config)\<lparr>cfg_EnableEvm := (''evm'' = ''evm'')\<rparr>)" by simp_all
  from evm_enabled_at_reload_crashes [OF new _ this(1) demo_sys_read [of "''evm''" "\<lambda>_ _. ()"] this(2)]
    demo_sys_read [of "''plain''" "\<lambda>_ _. ()" "''cfg.yaml''", folded sl] new
  show ?thesis by blast
qed

text \<open>A file that cannot be read or decoded when an event comes ends the program.\<close>

lemma failed_reload_stops:
  assumes "ReadConfigFromFile (cl\<lparr>cl_ReadFile := fs\<rparr>) (cgd_cfgFile f) = Ret (c, Some err)"
  shows "watch_loop L cl (DirChanged fs # evs) f = (Stopped err, f\<lparr>cgd_cfg := c\<rparr>)"
  by (simp add: CosmoGuard_loadConfig_def assms)

section \<open>The guard at work\<close>

text \<open>
  C17: In every state of the guard at work, after any requests, sessions and completed reloads, the rules
  and defaults in force are the configured ones.  The LCD, RPC and gRPC proxies and the JSON-RPC
  handler, with its WebSocket proxy, have those of the configuration loaded last.  The EVM proxy, the
  EVM handlers and the WebSocket proxies in them, where they exist, have those of the last configuration
  loaded that had EVM on: they go on serving when EVM is turned off.  The proxy of the EVM WebSocket
  port has no rules and denies by default.
\<close>

theorem rules_in_force:
  assumes "New lib path = Ret (Inr f0)" and "guard_reach E cl f0 (cfgs, f, u)"
  shows "\<exists>cfg. cgd_cfg f = Some cfg \<and> cfgs \<noteq> [] \<and> hd cfgs = cfg
    \<and> (hp_rules (cgd_lcdProxy f), hp_defaultAction (cgd_lcdProxy f)) = (lcd_Rules (cfg_LCD cfg), lcd_Default (cfg_LCD cfg))
    \<and> (hp_rules (cgd_rpcProxy f), hp_defaultAction (cgd_rpcProxy f)) = (rpc_Rules (cfg_RPC cfg), rpc_Default (cfg_RPC cfg))
    \<and> (gp_rules (cgd_grpcProxy f), gp_defaultAction (cgd_grpcProxy f)) = (grpc_Rules (cfg_GRPC cfg), grpc_Default (cfg_GRPC cfg))
    \<and> (let jc = rpc_JsonRpc (cfg_RPC cfg); h = cgd_jsonRpcHandler f
       in (jh_rules h, jh_defaultAction h) = (jc_Rules jc, jc_Default jc)
        \<and> (\<forall>s. jh_wsProxy h = Some s \<longrightarrow> (ws_rules s, ws_defaultAction s) = (jc_Rules jc, jc_Default jc)))
    \<and> (\<forall>p. cgd_evmRpcWsProxy f = Some p \<longrightarrow> (hp_rules p, hp_defaultAction p) = ([], []))
    \<and> (case find cfg_EnableEvm cfgs of
         None \<Rightarrow> cgd_evmRpcProxy f = None \<and> cgd_evmRpcWsProxy f = None
           \<and> cgd_evmJsonRpcHandler f = None \<and> cgd_evmJsonRpcWsHandler f = None
       | Some evm \<Rightarrow> let er = evm_RPC (cfg_EVM evm); ew = evm_WS (cfg_EVM evm)
           in (\<forall>p. cgd_evmRpcProxy f = Some p \<longrightarrow> (hp_rules p, hp_defaultAction p) = (er_HttpRules er, er_Default er))
            \<and> (\<forall>h. cgd_evmJsonRpcHandler f = Some h \<longrightarrow> (jh_rules h, jh_defaultAction h) = (er_Rules er, er_Default er)
                \<and> (\<forall>s. jh_wsProxy h = Some s \<longrightarrow> (ws_rules s, ws_defaultAction s) = (er_Rules er, er_Default er)))
            \<and> (\<forall>h. cgd_evmJsonRpcWsHandler f = Some h \<longrightarrow> (jh_rules h, jh_defaultAction h) = (ew_Rules ew, ew_Default ew)
                \<and> (\<forall>s. jh_wsProxy h = Some s \<longrightarrow> (ws_rules s, ws_defaultAction s) = (ew_Rules ew, ew_Default ew))))"
proof -
  have "in_force cfgs f" using guard_reach_inv [OF assms(2) New_built [OF assms(1)]] by (simp add: guard_inv_def)
  then show ?thesis
    by (auto simp: in_force_def all_ports all_handlers proxy_rules_def grpc_rules_def grpc_rules_of_def
        handler_in_force_def handler_rules_def ws_policy_of_def evm_config_def evm_built_def Let_def
        list_ex_iff find_None_iff split: option.split)
qed

text \<open>A guard over an upstream that counts the calls it gets, and a configuration that opens LCD.\<close>

type_synonym sys_ws = "(string, rpc_demo_cache, nat, unit) WsState"

definition demo_newWs :: "string \<Rightarrow> JsonRpcHandlerOptions \<Rightarrow> sys_ws" where
  "demo_newWs name opts = NewJsonRpcWebSocketProxy 2 (Inl \<lparr>mc_Namespace = name, mc_cache = ref_empty 5\<rparr>) False ()"

definition demo_serving :: "(string, demo_cache, rpc_demo_cache, nat, unit, nat) sys_env" where
  "demo_serving = \<lparr>se_glob = exact_glob,
     se_http_cache = any_cache_api ref_ttlcache ref_redis response_msgpack (\<lambda>k. k),
     se_rpc_cache = any_cache_api ref_ttlcache ref_redis refusing_msgpack fmt_uint64,
     se_digest = (\<lambda>b. b), se_grow = (\<lambda>n. n), se_codec = demo_codec,
     se_node = (\<lambda>port r b u. ([CallWriteHeader 200, CallWrite b], Suc u)),
     se_ws_upstream = (\<lambda>_. accepting_upstream), se_write = (\<lambda>_ _. None), se_close = (\<lambda>_. None)\<rparr>"

text \<open>A configuration with EVM on, whose EVM proxy allows by default, and one with EVM off that opens LCD.\<close>

definition evm_start :: "string Config" where
  "evm_start = zero_config\<lparr>cfg_EnableEvm := True, cfg_EVM := (cfg_EVM zero_config)\<lparr>evm_RPC :=
     (evm_RPC (cfg_EVM zero_config))\<lparr>er_Default := RuleActionAllow\<rparr>\<rparr>\<rparr>"

definition open_config :: "string Config" where
  "open_config = zero_config\<lparr>cfg_LCD := \<lparr>lcd_Default = RuleActionAllow, lcd_Rules = []\<rparr>\<rparr>"

definition open_lib :: "string config_lib" where
  "open_lib = \<lparr>cl_ReadFile = (\<lambda>_. Inr []),
     cl_Unmarshal = (\<lambda>t. Inr (if t = ''evm'' then evm_start else open_config)),
     cl_SetDefaults = (\<lambda>cfg. (cfg, None)), cl_pdq = insertion_pdq, cl_glob = exact_glob\<rparr>"

definition evm_sys where
  "evm_sys = (demo_sys_with demo_newWs)\<lparr>sl_config := open_lib\<lparr>cl_ReadFile := (\<lambda>_. Inr ''evm'')\<rparr>\<rparr>"

definition no_session :: "nat session" where
  "no_session = \<lparr>ses_upgrade = None, ses_client = 7, ses_reads = [], ses_writer = (\<lambda>w. w)\<rparr>"

lemma open_lib_read:
  "ReadConfigFromFile (open_lib\<lparr>cl_ReadFile := (\<lambda>_. Inr t)\<rparr>) path =
     Ret (Some (if t = ''evm'' then evm_start else open_config), None)"
proof -
  have "insertion_pdq [] = []" by code_simp
  then show ?thesis
    by (simp add: ReadConfigFromFile_def open_lib_def prepare_config_def prepare_rules_def sort_Slice_def
        evm_start_def open_config_def zero_config_def)
qed

text \<open>All locks free, and EVM built.\<close>

definition ready :: "('g, 'c, 'k, 'x, 'n) CosmoGuard \<Rightarrow> bool" where
  "ready f \<longleftrightarrow> jh_readers (cgd_jsonRpcHandler f) = 0 \<and> cgd_evmRpcProxy f \<noteq> None
     \<and> (\<exists>h. cgd_evmJsonRpcHandler f = Some h \<and> jh_readers h = 0)
     \<and> (\<exists>h. cgd_evmJsonRpcWsHandler f = Some h \<and> jh_readers h = 0)"

lemma applyRules_done:
  assumes "ready f" and "cgd_cfg f = Some cfg"
  shows "\<exists>g. CosmoGuard_applyRules L f = (Done, g) \<and> ready g"
  using assms
  by (cases "cfg_EnableEvm cfg")
    (auto simp: ready_def CosmoGuard_applyRules_def applyEvmRules_def Let_def handler_SetRules)

lemma evm_sys_New: "\<exists>f. New evm_sys ''cfg.yaml'' = Ret (Inr f) \<and> cgd_cfg f = Some evm_start \<and> ready f"
proof -
  have read: "ReadConfigFromFile (sl_config evm_sys) ''cfg.yaml'' = Ret (Some evm_start, None)"
    using open_lib_read [of "''evm''"] by (simp add: evm_sys_def)
  have "cfg_EnableEvm evm_start" by (simp add: evm_start_def zero_config_def)
  then have "\<exists>f. New_from evm_sys ''cfg.yaml'' evm_start = Inr f \<and> cgd_cfg f = Some evm_start \<and> ready f"
    by (simp add: New_from_def New_evm_def Let_def set_up_def new_http_def new_rpc_handler_def NewGrpcProxy_def
        NewHttpProxy_def NewJsonRpcHandler_def setup_cache_def evm_sys_def demo_sys_with_def evm_start_def zero_config_def
        apply_options_def WithCacheConfig_Http_def WithMetricsEnabled_Http_def WithCacheConfig_JsonRpc_def
        WithMetricsEnabled_JsonRpc_def DefaultHttpProxyOptions_def DefaultJsonRpcHandlerOptions_def
        WithWebSocketEnabled_def WithWebSocketBackend_def WithWebSocketConnections_def WithWebSocketPath_def
        WithUpstreamManager_def DefaultSharedOptions_def WithEndpointHandler_def ready_def)
  with read show ?thesis by (auto simp: New_def)
qed

text \<open>The guard after a start with EVM on and a reload that turns it off and opens LCD.\<close>

lemma demo_reach:
  "\<exists>f0 f. New evm_sys ''cfg.yaml'' = Ret (Inr f0)
    \<and> guard_reach demo_serving open_lib f0 ([open_config, evm_start], f, 0) \<and> cgd_evmRpcProxy f \<noteq> None"
proof -
  obtain f0 where new: "New evm_sys ''cfg.yaml'' = Ret (Inr f0)" and f0: "cgd_cfg f0 = Some evm_start" "ready f0"
    using evm_sys_New by blast
  let ?L = "rpc_env_of demo_serving no_session RpcPort RpcJsonRpc"
  obtain f1 where f1: "CosmoGuard_applyRules ?L f0 = (Done, f1)" "ready f1"
    using applyRules_done [OF f0(2,1)] by blast
  let ?f = "f1\<lparr>cgd_cfg := Some open_config\<rparr>"
  have load: "CosmoGuard_loadConfig (open_lib\<lparr>cl_ReadFile := (\<lambda>_. Inr [])\<rparr>) f1 = (Ret None, ?f)"
    by (simp add: CosmoGuard_loadConfig_def open_lib_read)
  have "ready ?f" using f1(2) by (simp add: ready_def)
  then obtain f where f: "CosmoGuard_applyRules ?L ?f = (Done, f)" "ready f"
    using applyRules_done [of ?f open_config] by auto
  have "guard_reach demo_serving open_lib f0 ([evm_start], f1, 0)" by (rule guard_reach.Start [OF f0(1) f1(1)])
  from guard_reach.Step [OF this guard_step.Reload [OF load _ f(1)]]
  have "guard_reach demo_serving open_lib f0 ([open_config, evm_start], f, 0)" by simp
  with new f(2) show ?thesis by (auto simp: ready_def)
qed

theorem rules_in_force_witness:
  "\<exists>f0 f p. New evm_sys ''cfg.yaml'' = Ret (Inr f0)
    \<and> guard_reach demo_serving open_lib f0 ([open_config, evm_start], f, 0)
    \<and> hp_defaultAction (cgd_lcdProxy f) = RuleActionAllow \<and> \<not> cfg_EnableEvm open_config
    \<and> cgd_evmRpcProxy f = Some p \<and> hp_defaultAction p = RuleActionAllow"
proof -
  obtain f0 f p where r: "New evm_sys ''cfg.yaml'' = Ret (Inr f0)"
    "guard_reach demo_serving open_lib f0 ([open_config, evm_start], f, 0)" "cgd_evmRpcProxy f = Some p"
    using demo_reach by blast
  have "\<not> cfg_EnableEvm open_config" "cfg_EnableEvm evm_start"
    "lcd_Default (cfg_LCD open_config) = RuleActionAllow" "er_Default (evm_RPC (cfg_EVM evm_start)) = RuleActionAllow"
    by (simp_all add: open_config_def evm_start_def zero_config_def)
  with rules_in_force [OF r(1,2)] r show ?thesis by (auto simp: Let_def)
qed

text \<open>
  C1: The guard enforces the configured rules on every port, through any requests and sessions and as
  long as every reload completes.  The configuration is the one loaded last; for the EVM ports it is
  the last one that had EVM on.  (1) What serving an HTTP request does to the node is one call at most:
  with the request as the client sent it, when the HTTP rules of the port allow it; or, where
  a JSON-RPC handler takes it, with its body when that is a message the handler's rules allow, or
  with a batch of messages of the body, each of them allowed.  (2) A gRPC call gets a connection only
  when the gRPC rules allow its method, or it is for the reflection services.  (3) The requests of a
  WebSocket session that the rules deny are as if they were not sent: the answer, the node, the cache, the
  subscriptions and the upstream connections are the same without them, and so is what every client is
  sent, but for this client's refusals; (4) and when the rules deny all requests of a new client's
  session, the subscriptions and connections stay as they were.
\<close>

theorem guard_enforces_config:
  assumes "New lib path = Ret (Inr f0)" and "guard_reach E cl f0 (cfgs, f, u)"
    and "CosmoGuard_serve E ses port r f u = Some (out, f', u')"
  shows "(u' = u \<or> (\<exists>r' b. config_sends (se_glob E) (se_codec E) cfgs port r r' b \<and> u' = snd (se_node E port r' b u)))
    \<and> (\<forall>ctx meth ctx' conn e. GrpcProxy_Handle (se_glob E) ctx meth (cgd_grpcProxy f) = (ctx', Some conn, e) \<longrightarrow>
         HasPrefix meth ''/grpc.reflection'' \<or> grpc_admits (se_glob E) (grpc_rules_of cfgs) meth)
    \<and> (\<exists>g. CosmoGuard_serve E (ses\<lparr>ses_reads := admitted_reads E cfgs port r (ses_reads ses)\<rparr>) port r f u = Some (out, g, u')
        \<and> (\<forall>name h' s'. handler_at name f' = Some h' \<longrightarrow> jh_wsProxy h' = Some s' \<longrightarrow>
            (\<exists>h s. handler_at name g = Some h \<and> jh_wsProxy h = Some s \<and> jh_cache h' = jh_cache h
              \<and> ws_broker s' = ws_broker s \<and> ws_world s' = ws_world s
              \<and> filter (Not \<circ> refusal (ws_env_of E name) (ses_client ses)) (ws_sent s') =
                 filter (Not \<circ> refusal (ws_env_of E name) (ses_client ses)) (ws_sent s))))
    \<and> (\<forall>name h s. handler_at name f = Some h \<longrightarrow> jh_wsProxy h = Some s
         \<longrightarrow> ses_client ses \<notin> set (bk_callbacks (ws_broker s)) \<longrightarrow> config_refuses E cfgs name ses
         \<longrightarrow> (\<exists>h' s'. handler_at name f' = Some h' \<and> jh_wsProxy h' = Some s'
           \<and> ws_broker s' = ws_broker s \<and> ws_world s' = ws_world s))"
proof -
  have force: "in_force cfgs f" and well_routed: "well_routed f"
    using guard_reach_inv [OF assms(2) New_built [OF assms(1)]] by (simp_all add: guard_inv_def)
  from serve_in_force [OF force well_routed assms(3)]
  have 1: "u' = u \<or> (\<exists>r' b. config_sends (se_glob E) (se_codec E) cfgs port r r' b \<and> u' = snd (se_node E port r' b u))"
    by blast
  obtain g where g: "CosmoGuard_serve E (ses\<lparr>ses_reads := admitted_reads E cfgs port r (ses_reads ses)\<rparr>) port r f u = Some (out, g, u')"
    "\<And>name. rel_option (handler_sim (ws_env_of E name) (ses_client ses)) (handler_at name f') (handler_at name g)"
    using serve_filtered [OF force well_routed assms(3)] by blast
  have 3: "\<exists>h s. handler_at name g = Some h \<and> jh_wsProxy h = Some s \<and> jh_cache h' = jh_cache h
      \<and> ws_broker s' = ws_broker s \<and> ws_world s' = ws_world s
      \<and> filter (Not \<circ> refusal (ws_env_of E name) (ses_client ses)) (ws_sent s') =
         filter (Not \<circ> refusal (ws_env_of E name) (ses_client ses)) (ws_sent s)"
    if "handler_at name f' = Some h'" "jh_wsProxy h' = Some s'" for name h' s'
    using g(2) [of name] that by (auto simp: option_rel_Some1 handler_sim_def ws_sim_def)
  from 1 g(1) 3 grpc_call_admitted [OF force] serve_session_refused [OF force assms(3)]
  show ?thesis unfolding ws_unchanged_def by blast
qed

theorem guard_enforces_config_witness:
  "\<exists>f0 f out f' r' b. New evm_sys ''cfg.yaml'' = Ret (Inr f0)
    \<and> guard_reach demo_serving open_lib f0 ([open_config, evm_start], f, 0)
    \<and> CosmoGuard_serve demo_serving no_session LcdPort (demo_get ''/a'' ''b'') f 0 = Some (out, f', 1)
    \<and> config_sends exact_glob demo_codec [open_config, evm_start] LcdPort (demo_get ''/a'' ''b'') r' b"
proof -
  obtain f0 f where r: "New evm_sys ''cfg.yaml'' = Ret (Inr f0)"
    "guard_reach demo_serving open_lib f0 ([open_config, evm_start], f, 0)" using demo_reach by blast
  let ?r = "demo_get ''/a'' ''b''" and ?p = "cgd_lcdProxy f"
  from guard_reach_inv [OF r(2) New_built [OF r(1)]]
  have p: "hp_endpointHandlers ?p = []" "hp_rules ?p = []" "hp_defaultAction ?p = RuleActionAllow"
    by (auto simp: guard_inv_def well_routed_def in_force_def all_ports proxy_rules_def open_config_def)
  have "\<exists>out p'. HttpProxy_ServeHTTP (http_env_of demo_serving no_session LcdPort) new_writer ?r ?p (f, 0) = (out, p', f, 1)"
    by (simp add: HttpProxy_ServeHTTP_def p HttpProxy_allow_def proxy_ServeHTTP_eq http_env_of_def demo_serving_def)
  then obtain out p' where run: "CosmoGuard_serve demo_serving no_session LcdPort ?r f 0 = Some (out, set_proxy LcdPort p' f, 1)"
    by (auto simp: CosmoGuard_serve_def)
  from guard_enforces_config [OF r(1,2) run] have "\<exists>r' b. config_sends exact_glob demo_codec [open_config, evm_start] LcdPort ?r r' b"
    by (auto simp: demo_serving_def)
  with r run show ?thesis by blast
qed

section \<open>The cache of a JSON-RPC handler\<close>

text \<open>
  C7: What the cache of a JSON-RPC handler holds, over a cache with the contract, while the handler
  serves HTTP requests and, with its WebSocket proxy, sessions.  An entry under a key is the node's answer
  to a request with that key: its answer to a single request, or the message of an answered batch
  that stands where the request with that key stood.  Or it comes from the WebSocket proxy: it
  is an upstream connection's answer to a request with that key, under the id of that request; or,
  for a subscription request, the reply that the proxy made itself.  Serving keeps this.
\<close>

theorem rpc_cache_sound:
  assumes "msg_cache (se_rpc_cache E) live foreign"
    and "\<And>k v. live (jh_cache h) k = Some v \<or> foreign k v \<Longrightarrow> handler_cached E port name k v"
    and "JsonRpcHandler_ServeHTTP (rpc_env_of E ses port name) w r h u = (out, h', u')"
    and "live (jh_cache h') k = Some v"
  shows "handler_cached E port name k v"
  using msg_cache.handler_serve_live [OF assms(1) refl assms(2-4)] .

text \<open>
  A session that sends \<open>unsubscribe_all\<close> where a rule with a \<open>cache\<close> section allows it leaves the
  proxy's own reply in the cache, for the handler's HTTP clients to find.
\<close>

definition demo_ws_handler :: "(string, rpc_demo_cache, sys_ws) JsonRpcHandler" where
  "demo_ws_handler =
     (let rules = [demo_rpc_rule RuleActionAllow [] demo_cached]
      in \<lparr>jh_cache = Inl \<lparr>mc_Namespace = ''rpc'', mc_cache = ref_empty 5\<rparr>, jh_defaultAction = RuleActionDeny,
        jh_wsProxy = Some (WebSocketProxy_SetRules rules RuleActionDeny (demo_newWs ''ws'' DefaultJsonRpcHandlerOptions)),
        jh_wsPath = ''/websocket'', jh_rules = rules, jh_readers = 0,
        jh_responseTimeHist = None, jh_batchResTimeHist = None\<rparr>)"

theorem rpc_cache_sound_witness:
  "\<exists>out h'. JsonRpcHandler_ServeHTTP (rpc_env_of demo_serving (no_session\<lparr>ses_reads := [ReadMessage ''unsubscribe_all'']\<rparr>)
        RpcPort RpcJsonRpc) new_writer ((demo_post [])\<lparr>rq_Method := ''GET'', rq_Path := ''/websocket''\<rparr>) demo_ws_handler 0 = (out, h', 0)
    \<and> any_cache_live ref_live refusing_msgpack fmt_uint64 ref_live (jh_cache h') 117 = Some (EmptyResult (demo_msg ''unsubscribe_all''))
    \<and> (\<forall>k v. any_cache_live ref_live refusing_msgpack fmt_uint64 ref_live (jh_cache h') k = Some v \<longrightarrow>
        handler_cached demo_serving RpcPort RpcJsonRpc k v)"
proof -
  let ?run = "JsonRpcHandler_ServeHTTP (rpc_env_of demo_serving (no_session\<lparr>ses_reads := [ReadMessage ''unsubscribe_all'']\<rparr>)
        RpcPort RpcJsonRpc) new_writer ((demo_post [])\<lparr>rq_Method := ''GET'', rq_Path := ''/websocket''\<rparr>) demo_ws_handler 0"
  let ?live = "any_cache_live ref_live refusing_msgpack fmt_uint64 ref_live"
  let ?foreign = "RedisCache_foreign refusing_msgpack fmt_uint64 (\<lambda>_ _. False)"
  obtain out h' u' where run: "?run = (out, h', u')" by (metis surj_pair)
  have c: "msg_cache (se_rpc_cache demo_serving) ?live ?foreign"
    using ref_rpc.msg_cache_axioms by (simp add: demo_serving_def)
  have none: "?live (jh_cache demo_ws_handler) k \<noteq> Some v" "\<not> ?foreign k v" for k v
    by (simp_all add: demo_ws_handler_def Let_def any_cache_live_def demo_empty_cache RedisCache_foreign_def)
  have "?live (jh_cache (fst (snd ?run))) 117 = Some (EmptyResult (demo_msg ''unsubscribe_all''))" by code_simp
  moreover have "snd (snd ?run) = 0" by code_simp
  moreover have "handler_cached demo_serving RpcPort RpcJsonRpc k v" if "?live (jh_cache h') k = Some v" for k v
    by (rule rpc_cache_sound [OF c _ run that]) (simp add: none)
  ultimately show ?thesis using run by auto
qed

end
