(* ===== verification/Spec2Isabelle.thy ===== *)
theory Spec2Isabelle
  imports CoreProps GrpcProxy JsonRpcProps BrokerProps UpstreamProps WsProps SystemProps
begin

text \<open>
  Cosmoguard, a filtering and caching proxy in front of the public APIs of a Cosmos node.  This
  development models the Go code under \<open>src/pkg\<close> and proves what it does.

  \<^bold>\<open>The program.\<close>  A supervisor (\<open>cosmoguard.go\<close>) reads a configuration with rules and builds a
  proxy for each API.  An HTTP proxy (\<open>http_proxy.go\<close>) serves the LCD, RPC and EVM ports; requests
  to the endpoints of a JSON-RPC handler go to that handler (\<open>jsonrpc_handler.go\<close>), which serves
  single requests and batches, and hands WebSocket connections to a WebSocket proxy (\<open>ws_proxy.go\<close>)
  with its broker of subscriptions and its pool of connections to the node.  A gRPC proxy
  (\<open>grpc_proxy.go\<close>) decides gRPC calls.  The first rule that matches a request and has a recognised
  action decides it, and otherwise the default; answers are cached in memory or in Redis.  When the
  configuration's directory changes, the rules are read again and handed to the proxies.

  \<^bold>\<open>Shared theories.\<close>
    \<^item> \<open>Prelude\<close>: outcomes (return or panic), errors, values of \<open>interface{}\<close>, Go maps as association
      lists, lists.  \<open>GoStd\<close>: \<open>strconv\<close>, \<open>EqualFold\<close>, prefixes, \<open>sort.Slice\<close>.
    \<^item> \<open>Util\<close>: \<open>util/id_gen.go\<close>, \<open>slice.go\<close>, \<open>hash.go\<close>; locale \<open>id_source\<close>, and the generator as an
      interleaving of goroutines.
    \<^item> \<open>Cache\<close>: \<open>cache/*.go\<close> over parameters for \<open>ttlcache\<close>, Redis and \<open>msgpack\<close>; the locale of the
      cache contract is interpreted for both caches.  \<open>CacheRef\<close> is a reference store with a clock
      that shows that the contracts can be met.
    \<^item> \<open>RuleTypes\<close>, \<open>Rules\<close>: \<open>rules.go\<close>, compiling and matching; \<open>Policy\<close> is the abstract decision of a
      list of rules, which every rule loop below is proved to implement; \<open>RulesSpec\<close> says what compiled
      rules match.
    \<^item> \<open>JsonRpc\<close>: \<open>jsonrpc_utils.go\<close>.  \<open>HttpUtils\<close>: \<open>http_utils.go\<close>.  \<open>Config\<close>: \<open>config.go\<close>.
      \<open>ProxyOptions\<close>: \<open>options.go\<close> and the choice of the cache.  \<open>late_default\<close> (in \<open>Config\<close>) says where
      the rules without a priority end up in a list that is sorted before the default is filled in.

  \<^bold>\<open>Proxies.\<close>
    \<^item> \<open>HttpProxy\<close>: \<open>http_proxy.go\<close> with its properties: the rules decide, denied requests reach nothing,
      what is in the cache, when a request is answered from it.
    \<^item> \<open>GrpcProxy\<close>: the director of \<open>grpc_proxy.go\<close>.
    \<^item> \<open>JsonRpcHandler\<close>: \<open>jsonrpc_handler.go\<close>; \<open>JsonRpcHandlerSpec\<close>, \<open>JsonRpcCache\<close>, \<open>JsonRpcProps\<close>: its
      decisions, lock and cache.  \<open>JsonRpcBatch\<close>: a batch as a list of slots (refused, from the cache, for
      the upstream) that the reply merges with the answers, and the proof that the handler does so.
    \<^item> \<open>CoreProps\<close>: properties of the shared parts.

  \<^bold>\<open>WebSockets.\<close>
    \<^item> \<open>Subscriptions\<close>: \<open>ws_subscriptions.go\<close>, and the locale \<open>two_way\<close> of two maps that are inverse to
      each other, which the manager, the pool and the connections interpret.
    \<^item> \<open>UpstreamPool\<close>: \<open>ws_utils.go\<close>, \<open>ws_upstream_pool.go\<close>, with the counter as a 32-bit word.
    \<^item> \<open>Broker\<close>: \<open>ws_broker.go\<close>; \<open>BrokerSpec\<close>: its reachable states, who gets a notification.
    \<^item> \<open>Upstream\<close>: \<open>ws_upstream_cosmos.go\<close> and \<open>ws_upstream_eth.go\<close>, an operation at a time.
      \<open>UpstreamRequests\<close>: a single request, and the locale \<open>router\<close> of what the requests rely on in the
      dispatch of messages, which both managers interpret.  \<open>UpstreamSubs\<close>: subscriptions and
      reconnecting.
    \<^item> \<open>UpstreamSteps\<close>: the same connections with many calls at once and the goroutine of \<open>Run\<close>.  Each
      access to what they share is a step of its own (\<open>call_step\<close>, \<open>conn_step\<close>), so that all their
      interleavings, with reconnections and with the other users of the id generator, are runs of
      \<open>conn_reach\<close>.
    \<^item> \<open>UpstreamIface\<close>: the interface of a connection as the broker uses it (locale \<open>id_upstream\<close>),
      interpreted on a pool of Cosmos connections that share one id generator; \<open>pool_reach\<close> are its
      states together with the broker's, and its connections' \<open>Run\<close> iterations among the steps.
    \<^item> \<open>WsProxy\<close>: \<open>ws_proxy.go\<close> and \<open>ws_jsonrpc_client.go\<close>; \<open>WsSpec\<close>: what a session does beyond its own
      client, by a relation of states that differ in this client's refusals only; \<open>WsCache\<close>: what it
      leaves in the cache it shares with the JSON-RPC handler.
    \<^item> \<open>BrokerProps\<close>, \<open>UpstreamProps\<close>, \<open>WsProps\<close>: the properties.

  \<^bold>\<open>The supervisor and the guard at work.\<close>
    \<^item> \<open>CosmoGuard\<close>: \<open>cosmoguard.go\<close>; \<open>CosmoGuardSpec\<close>: what a start builds and no reload changes.
    \<^item> \<open>Serving\<close>: the parts put together.  A request on a port goes through its HTTP proxy to a node or to a
      handler, and from there to the WebSocket proxy; requests and completed reloads are the steps of
      \<open>guard_step\<close>, and \<open>guard_reach\<close> are the states from a start on, with the list of the configurations
      loaded.  \<open>ServingSpec\<close>: serving keeps the rules, a start and a reload put those of the configuration
      in force (\<open>in_force\<close>); a reload with EVM off leaves the EVM proxies with the rules of the last
      configuration that had it on.  It also says what is left in the caches of the handlers.
    \<^item> \<open>SystemProps\<close>: which requests the rules see, what a reload does to all proxies, and the end-to-end
      statement that only what the configuration in force allows reaches a node.

  \<^bold>\<open>Parameters.\<close>  The glob library, the JSON and YAML decoders, \<open>defaults.Set\<close>, the hash functions, the
  sorting algorithm behind \<open>sort.Slice\<close>, the cache libraries, the reverse proxy and the node are
  arguments of the definitions.  What the code relies on in them are the assumptions of the locales
  and the premises of the theorems, each shown to be satisfiable by a concrete instance.

  \<^bold>\<open>Bounds.\<close>  Loops are structural recursion.  The search of the id generator runs over a list of
  draws: a result of \<open>None\<close> says that it has not ended within them, and it ends exactly when one of
  them is free.  The loop of \<open>Run\<close> runs over the messages read and the watcher over its events, so
  that statements about every list cover every finite prefix of a run.

  \<^bold>\<open>Concurrency.\<close>  Three things are modelled as interleavings: the id generator (\<open>id_step\<close>), an
  upstream connection with its calls and its loop (\<open>conn_step\<close>), and the operations of the broker with
  the connections' iterations (\<open>pool_step\<close>), each operation as one step.  Otherwise requests and sessions
  are served one after the other.  A read lock that is left held is part of the state of the
  JSON-RPC handler.  The WebSocket proxy works on the cache of its handler, which hands it over for
  each session.  In the guard at work a reload that stalls or fails is the end: what the other
  goroutines still serve then is not described.

  \<^bold>\<open>Not modelled.\<close>  \<open>cmd/cosmoguard/main.go\<close> and \<open>version.go\<close> (flags, logging, a version string);
  the methods \<open>Run\<close> and \<open>Start\<close> that listen, register metrics and start goroutines; the observed
  durations and log lines; waiting times; Go's data races on maps that are read without their lock.
\<close>

end
